(* ===== verification/Prelude.thy ===== *)
theory Prelude
  imports Main "HOL-Library.Multiset" "HOL-Library.List_Lexorder" "HOL-Library.Char_ord"
    "HOL-Library.AList" "HOL-Library.Word"
begin

text \<open>
  Shared vocabulary of the development: the lemma collections the component theories
  fill, Go's 64-bit integers (the type \<open>int\<close> with the wrap-around written out), Go maps
  as association lists, the list and multiset facts used by several components, and
  \<open>cmp.Or\<close>.
\<close>

named_theorems go_defs \<open>definitions of small operations, unfolded by the component proofs\<close>
named_theorems inv_intros \<open>introduction rules of the manager's invariants\<close>
named_theorems fail_simps \<open>what an operation returns on its error branches\<close>

section \<open>64-bit integers\<close>

text \<open>
  Go's \<open>int\<close> and \<open>time.Duration\<close> are 64-bit two's complement integers. A value is an
  \<open>int\<close> in \<open>int64\<close>; every arithmetic operation that can leave the range goes through
  \<open>wrap64\<close>, which is reading the result back from a 64-bit word (\<open>wrap64_word\<close>).
\<close>

abbreviation int64_max :: int where
  "int64_max \<equiv> 9223372036854775807"

abbreviation int64_min :: int where
  "int64_min \<equiv> - 9223372036854775808"

definition int64 :: "int \<Rightarrow> bool" where
  "int64 x \<longleftrightarrow> int64_min \<le> x \<and> x \<le> int64_max"

definition wrap64 :: "int \<Rightarrow> int" where
  "wrap64 x = (x + 9223372036854775808) mod 18446744073709551616 - 9223372036854775808"

lemma wrap64_word: "wrap64 x = sint (word_of_int x :: 64 word)"
  by (simp add: wrap64_def sint_sbintrunc' signed_take_bit_eq_take_bit_shift take_bit_eq_mod)

lemma wrap64_range [simp, intro]: "int64 (wrap64 x)"
proof -
  have "0 \<le> (x + 9223372036854775808) mod 18446744073709551616"
    and "(x + 9223372036854775808) mod 18446744073709551616 < 18446744073709551616"
    by simp_all
  then show ?thesis by (simp add: int64_def wrap64_def)
qed

lemma wrap64_id [simp]: "int64 x \<Longrightarrow> wrap64 x = x"
  by (simp add: int64_def wrap64_def)

lemma int64_max_min: "int64 a \<Longrightarrow> int64 b \<Longrightarrow> int64 (max a b) \<and> int64 (min a b)"
  by (auto simp: int64_def)

section \<open>Defaults\<close>

text \<open>
  \<open>cmp.Or(a, b)\<close> returns its first argument that is not the zero value of its type.
\<close>

definition cmp_Or :: "'a \<Rightarrow> 'a \<Rightarrow> 'a \<Rightarrow> 'a" where
  "cmp_Or zero a b = (if a \<noteq> zero then a else b)"

lemma cmp_Or_simps [simp]:
  "cmp_Or z z b = b"
  "a \<noteq> z \<Longrightarrow> cmp_Or z a b = a"
  by (simp_all add: cmp_Or_def)

lemma cmp_Or_idem [simp]: "cmp_Or z (cmp_Or z a b) b = cmp_Or z a b"
  by (simp add: cmp_Or_def)

lemma cmp_Or_nonzero: "b \<noteq> z \<Longrightarrow> cmp_Or z a b \<noteq> z"
  by (simp add: cmp_Or_def)

section \<open>Go maps\<close>

text \<open>
  A Go map is an association list with distinct keys. The list carries an order only
  because a \<open>range\<close> loop needs one: Go leaves that order open, so every loop over a map
  first permutes the entries by a choice of the environment (\<open>Go_Runtime\<close>).
\<close>

type_synonym ('k, 'v) go_map = "('k \<times> 'v) list"

definition map_ok :: "('k, 'v) go_map \<Rightarrow> bool" where
  "map_ok m \<longleftrightarrow> distinct (map fst m)"

definition map_get :: "('k, 'v) go_map \<Rightarrow> 'k \<Rightarrow> 'v option" where
  "map_get m k = map_of m k"

definition map_set :: "'k \<Rightarrow> 'v \<Rightarrow> ('k, 'v) go_map \<Rightarrow> ('k, 'v) go_map" where
  "map_set k v m = AList.update k v m"

definition map_delete :: "'k \<Rightarrow> ('k, 'v) go_map \<Rightarrow> ('k, 'v) go_map" where
  "map_delete k m = AList.delete k m"

text \<open>\<open>maps.Copy(dst, src)\<close> sets every entry of \<open>src\<close> in \<open>dst\<close>.\<close>

definition maps_Copy :: "('k, 'v) go_map \<Rightarrow> ('k, 'v) go_map \<Rightarrow> ('k, 'v) go_map" where
  "maps_Copy dst src = fold (\<lambda>(k, v). map_set k v) src dst"

lemma map_ok_Nil [simp, intro]: "map_ok []"
  by (simp add: map_ok_def)

lemma map_ok_Cons: "map_ok ((k, v) # m) \<longleftrightarrow> k \<notin> fst ` set m \<and> map_ok m"
  by (simp add: map_ok_def)

lemma map_ok_set [simp, intro]: "map_ok m \<Longrightarrow> map_ok (map_set k v m)"
  by (simp add: map_ok_def map_set_def distinct_update)

lemma map_ok_delete [simp, intro]: "map_ok m \<Longrightarrow> map_ok (map_delete k m)"
  by (simp add: map_ok_def map_delete_def distinct_delete)

lemma map_get_Nil [simp]: "map_get [] k = None"
  by (simp add: map_get_def)

lemma map_get_Cons [simp]: "map_get ((j, v) # m) k = (if k = j then Some v else map_get m k)"
  by (simp add: map_get_def)

lemma map_get_set [simp]: "map_get (map_set k v m) j = (if j = k then Some v else map_get m j)"
  by (simp add: map_get_def map_set_def update_conv)

lemma map_get_delete [simp]: "map_get (map_delete k m) j = (if j = k then None else map_get m j)"
  by (simp add: map_get_def map_delete_def delete_conv)

lemma map_get_iff: "map_ok m \<Longrightarrow> map_get m k = Some v \<longleftrightarrow> (k, v) \<in> set m"
  by (simp add: map_ok_def map_get_def map_of_eq_Some_iff)

lemma map_get_None: "map_get m k = None \<longleftrightarrow> k \<notin> fst ` set m"
  by (simp add: map_get_def map_of_eq_None_iff)

lemma map_ok_perm: "mset m' = mset m \<Longrightarrow> map_ok m \<Longrightarrow> map_ok m'"
  by (metis map_ok_def mset_eq_imp_distinct_iff mset_map)

lemma map_get_perm:
  assumes "mset m' = mset m" and "map_ok m"
  shows "map_get m' k = map_get m k"
proof -
  have ok: "map_ok m'" and eq: "set m' = set m"
    using assms map_ok_perm mset_eq_setD by blast+
  have "map_get m' k = Some v \<longleftrightarrow> map_get m k = Some v" for v
    using ok eq assms(2) by (simp add: map_get_iff)
  then show ?thesis by (metis option.exhaust)
qed

lemma maps_Copy_ok [simp, intro]: "map_ok dst \<Longrightarrow> map_ok (maps_Copy dst src)"
  unfolding maps_Copy_def by (induction src arbitrary: dst) auto

lemma maps_Copy_Nil [simp]: "maps_Copy dst [] = dst"
  by (simp add: maps_Copy_def)

lemma map_get_maps_Copy:
  "map_ok src \<Longrightarrow>
   map_get (maps_Copy dst src) k = (case map_get src k of None \<Rightarrow> map_get dst k | Some v \<Rightarrow> Some v)"
proof (induction src arbitrary: dst)
  case Nil
  then show ?case by simp
next
  case (Cons e src)
  obtain j v where e: "e = (j, v)" by force
  have "map_get (maps_Copy dst (e # src)) k = map_get (maps_Copy (map_set j v dst) src) k"
    by (simp add: maps_Copy_def e)
  also have "\<dots> = (case map_get src k of None \<Rightarrow> map_get (map_set j v dst) k | Some u \<Rightarrow> Some u)"
    using Cons.prems by (intro Cons.IH) (simp add: e map_ok_Cons)
  finally show ?case
    using Cons.prems map_get_None[of src j] by (auto simp: e map_ok_Cons split: option.splits)
qed

section \<open>Lists\<close>

lemma set_list_update_subset: "set (xs[i := x]) \<subseteq> insert x (set xs)"
  by (rule set_update_subset_insert)

text \<open>
  Counting over a list of goroutines: integer sums, so that changing one element is a
  rewrite rule without side conditions on the size of the sum.
\<close>

lemma sum_list_map_update [simp]:
  fixes f :: "'a \<Rightarrow> int"
  assumes "i < length xs"
  shows "sum_list (map f (xs[i := x])) = sum_list (map f xs) + f x - f (xs ! i)"
  using assms
proof (induction xs arbitrary: i)
  case Nil
  then show ?case by simp
next
  case (Cons y ys)
  then show ?case by (cases i) auto
qed

lemma sum_list_map_replicate [simp]:
  fixes f :: "'a \<Rightarrow> int"
  shows "f x = 0 \<Longrightarrow> sum_list (map f (replicate n x)) = 0"
  by (induction n) simp_all

lemma member_le_sum_list_map:
  fixes f :: "'a \<Rightarrow> int"
  shows "(\<And>y. 0 \<le> f y) \<Longrightarrow> x \<in> set xs \<Longrightarrow> f x \<le> sum_list (map f xs)"
proof (induction xs)
  case (Cons y ys)
  have "0 \<le> sum_list (map f ys)" using Cons.prems(1) by (intro sum_list_nonneg) auto
  moreover have "0 \<le> f y" by (rule Cons.prems(1))
  ultimately show ?case using Cons by (auto intro: add_increasing)
qed simp

lemma sum_list_map_mono_gap:
  fixes f g :: "'a \<Rightarrow> int"
  assumes "\<And>y. f y \<le> g y" and "x \<in> set xs"
  shows "sum_list (map f xs) + (g x - f x) \<le> sum_list (map g xs)"
proof -
  have "g x - f x \<le> sum_list (map (\<lambda>y. g y - f y) xs)"
    using assms by (intro member_le_sum_list_map[where f = "\<lambda>y. g y - f y"]) (auto simp: algebra_simps)
  also have "\<dots> = sum_list (map g xs) - sum_list (map f xs)"
    by (induction xs) simp_all
  finally show ?thesis by simp
qed

lemma sum_list_map_le:
  fixes f g :: "'a \<Rightarrow> int"
  shows "(\<And>y. f y \<le> g y) \<Longrightarrow> sum_list (map f xs) \<le> sum_list (map g xs)"
  by (induction xs) (simp_all add: add_mono)

lemma sum_list_map_pos:
  fixes f :: "'a \<Rightarrow> int"
  shows "0 < sum_list (map f xs) \<Longrightarrow> \<exists>x \<in> set xs. 0 < f x"
  using sum_list_nonpos[of "map f xs"] by (fastforce simp: not_less)

text \<open>How often a value occurs in a list.\<close>

definition occ :: "'a \<Rightarrow> 'a list \<Rightarrow> int" where
  "occ x xs = int (count (mset xs) x)"

lemma occ_simps [simp]:
  "occ x [] = 0"
  "occ x (y # ys) = (if y = x then 1 else 0) + occ x ys"
  "occ x (xs @ ys) = occ x xs + occ x ys"
  by (simp_all add: occ_def)

lemma occ_nonneg [simp]: "0 \<le> occ x xs"
  by (simp add: occ_def)

lemma occ_pos_iff [simp]: "0 < occ x xs \<longleftrightarrow> x \<in> set xs"
  by (simp add: occ_def)

lemma occ_zero_iff: "occ x xs = 0 \<longleftrightarrow> x \<notin> set xs"
  by (simp add: occ_def)

lemma distinct_occ: "(\<And>x. occ x xs \<le> 1) \<Longrightarrow> distinct xs"
proof (induction xs)
  case (Cons y ys)
  have "occ x ys \<le> 1" for x
    using Cons.prems[of x] by (simp split: if_splits)
  moreover have "occ y ys = 0"
    using Cons.prems[of y] occ_nonneg[of y ys] by simp
  ultimately show ?case using Cons.IH by (simp add: occ_zero_iff)
qed simp

lemma mset_eq_occ: "(\<And>x. occ x xs = occ x ys) \<Longrightarrow> mset xs = mset ys"
  by (simp add: occ_def multiset_eq_iff)

lemma Ball_update: "\<forall>y \<in> set xs. P y \<Longrightarrow> P x \<Longrightarrow> \<forall>y \<in> set (xs[i := x]). P y"
  using set_update_subset_insert[of xs i x] by auto

lemma filter_key_single:
  "distinct (map f xs) \<Longrightarrow> x \<in> set xs \<Longrightarrow> f x = k \<Longrightarrow> filter (\<lambda>y. f y = k) xs = [x]"
proof (induction xs)
  case (Cons y ys)
  have "filter (\<lambda>z. f z = k) ys = []" if "f y = k"
    using Cons.prems(1) that by (fastforce simp: filter_empty_conv image_iff)
  then show ?case using Cons by (auto simp: image_iff)
qed simp

end
