(* ===== verification/Errors.thy ===== *)
theory Errors
  imports Prelude
begin

text \<open>
  Errors as values: \<open>notify/error.go\<close>, the error types of the targets, the standard
  library's error types the code inspects, and \<open>errors.Is\<close>, \<open>errors.As\<close>,
  \<open>errors.Join\<close> and \<open>Error()\<close> over them. The delivery result of \<open>notify/types.go\<close>
  is here too, because a \<open>DeliveryError\<close> carries one.
\<close>

section \<open>Receiver identifiers and delivery results\<close>

datatype receiver_id = ReceiverID (id_string: string)

text \<open>\<open>cmp.Compare\<close> on receiver IDs is the bytewise order of the strings.\<close>

instantiation receiver_id :: linorder
begin

definition less_eq_receiver_id :: "receiver_id \<Rightarrow> receiver_id \<Rightarrow> bool" where
  "less_eq_receiver_id a b \<longleftrightarrow> id_string a \<le> id_string b"

definition less_receiver_id :: "receiver_id \<Rightarrow> receiver_id \<Rightarrow> bool" where
  "less_receiver_id a b \<longleftrightarrow> id_string a < id_string b"

instance
  by standard (auto simp: less_eq_receiver_id_def less_receiver_id_def intro: receiver_id.expand)

end

record delivery_result =
  Status :: string
  StatusCode :: int
  Response :: string
  RetryAfter :: int

definition zero_result :: delivery_result where
  "zero_result = \<lparr>Status = [], StatusCode = 0, Response = [], RetryAfter = 0\<rparr>"

section \<open>The error values\<close>

text \<open>
  What \<open>Error()\<close> prints is a sequence of pieces: format literals and the operands of
  the verbs \<open>%s\<close>, \<open>%q\<close>, \<open>%d\<close>. How a verb escapes its operand is left to \<open>fmt\<close>; which
  values appear in a message is not.
\<close>

datatype piece =
    Lit string
  | Str string
  | Quo string
  | Num int
  | Dur int

text \<open>
  One constructor per error type. \<open>ErrorString\<close> is \<open>errors.New\<close>; \<open>Errorf\<close> is
  \<open>fmt.Errorf\<close> with its format, its operands and the error of a \<open>%w\<close> verb if there is
  one. \<open>ContextCanceled\<close> to \<open>ErrManagerStopped\<close> are the sentinels the code compares
  with. \<open>NetError\<close> stands for the implementations of \<open>net.Error\<close> in the standard
  library: its message, the value of \<open>Timeout()\<close>, the sentinel its \<open>Is\<close> method accepts
  and its cause. \<open>ProxyError\<close>, \<open>OperationError\<close> and \<open>RedactedError\<close> are the targets'
  own types.
\<close>

datatype go_error =
    ErrorString string
  | Errorf string "piece list" "go_error option"
  | ContextCanceled
  | DeadlineExceeded
  | EOF
  | ErrUnexpectedEOF
  | ErrManagerStarted
  | ErrManagerStopped
  | PermanentError go_error
  | TransportError go_error
  | DeliveryError (de_receiver: receiver_id) (de_type: string) (de_index: int)
      (de_attempts: int) (de_result: delivery_result) (de_err: go_error)
  | JoinError "go_error list"
  | NetError string bool "go_error option" "go_error option"
  | UrlError string string go_error
  | TextprotoError int string
  | CertificateVerificationError go_error
  | UnknownAuthorityError
  | HostnameError
  | CertificateInvalidError
  | ProxyError int string
  | OperationError string int go_error
  | RedactedError go_error string

text \<open>
  The errors \<open>errors.Is\<close> and \<open>errors.As\<close> look at: the error itself and whatever its
  \<open>Unwrap\<close> methods give, depth first, in the order of the traversal.
\<close>

fun chain :: "go_error \<Rightarrow> go_error list" where
  "chain (Errorf f ps (Some e)) = Errorf f ps (Some e) # chain e"
| "chain (PermanentError e) = PermanentError e # chain e"
| "chain (TransportError e) = TransportError e # chain e"
| "chain (DeliveryError r t i n d e) = DeliveryError r t i n d e # chain e"
| "chain (JoinError es) = JoinError es # concat (map chain es)"
| "chain (NetError m t s (Some e)) = NetError m t s (Some e) # chain e"
| "chain (UrlError op u e) = UrlError op u e # chain e"
| "chain (CertificateVerificationError e) = CertificateVerificationError e # chain e"
| "chain (OperationError op t e) = OperationError op t e # chain e"
| "chain (RedactedError e m) = RedactedError e m # chain e"
| "chain e = [e]"

text \<open>
  \<open>errors.As(err, &target)\<close> finds the first error of the chain of the target's type, here
  given by a predicate; \<open>errors.Is(err, sentinel)\<close> also asks an error's own \<open>Is\<close> method.
\<close>

definition errors_As :: "(go_error \<Rightarrow> bool) \<Rightarrow> go_error \<Rightarrow> go_error option" where
  "errors_As p e = List.find p (chain e)"

definition matches_sentinel :: "go_error \<Rightarrow> go_error \<Rightarrow> bool" where
  "matches_sentinel s e \<longleftrightarrow> s = e \<or> (case e of NetError m t (Some s') c \<Rightarrow> s = s' | _ \<Rightarrow> False)"

definition errors_Is :: "go_error \<Rightarrow> go_error \<Rightarrow> bool" where
  "errors_Is s e = list_ex (matches_sentinel s) (chain e)"

text \<open>\<open>errors.Join\<close> of non-nil errors; nil when there are none.\<close>

definition errors_Join :: "go_error list \<Rightarrow> go_error option" where
  "errors_Join es = (if es = [] then None else Some (JoinError es))"

fun is_permanent_error :: "go_error \<Rightarrow> bool" where
  "is_permanent_error (PermanentError _) = True"
| "is_permanent_error _ = False"

fun is_transport_error :: "go_error \<Rightarrow> bool" where
  "is_transport_error (TransportError _) = True"
| "is_transport_error _ = False"

text \<open>
  The value of \<open>Timeout()\<close> for the errors that implement \<open>net.Error\<close>. \<open>*url.Error\<close> asks
  the error it wraps; \<open>context.DeadlineExceeded\<close> implements the interface itself.
\<close>

fun net_error :: "go_error \<Rightarrow> bool option" where
  "net_error (NetError m t s c) = Some t"
| "net_error DeadlineExceeded = Some True"
| "net_error (UrlError op u e) = Some (case net_error e of Some t \<Rightarrow> t | None \<Rightarrow> False)"
| "net_error _ = None"

definition is_net_error :: "go_error \<Rightarrow> bool" where
  "is_net_error e \<longleftrightarrow> net_error e \<noteq> None"

section \<open>Classification: error.go\<close>

text \<open>An error variable is a \<open>go_error option\<close>; nil is \<open>None\<close>.\<close>

definition IsPermanent :: "go_error option \<Rightarrow> bool" where
  "IsPermanent err = (case err of None \<Rightarrow> False | Some e \<Rightarrow> errors_As is_permanent_error e \<noteq> None)"

definition Permanent :: "go_error option \<Rightarrow> go_error option" where
  "Permanent err = (case err of None \<Rightarrow> None
     | Some e \<Rightarrow> if IsPermanent err then err else Some (PermanentError e))"

definition IsTransport :: "go_error option \<Rightarrow> bool" where
  "IsTransport err = (case err of None \<Rightarrow> False
     | Some e \<Rightarrow> if IsPermanent err then False else errors_As is_transport_error e \<noteq> None)"

definition Transport :: "go_error option \<Rightarrow> go_error option" where
  "Transport err = (case err of None \<Rightarrow> None
     | Some e \<Rightarrow> if IsPermanent err \<or> IsTransport err then err else Some (TransportError e))"

section \<open>Timeouts\<close>

text \<open>
  \<open>isTimeoutError\<close> of \<open>retry_policy.go\<close>, and \<open>isTimeout\<close> of \<open>email.go\<close>, which has the
  same body: \<open>errors.As\<close> stops at the first \<open>net.Error\<close> and asks only that one.
\<close>

definition isTimeoutError :: "go_error \<Rightarrow> bool" where
  "isTimeoutError e \<longleftrightarrow> errors_Is DeadlineExceeded e \<or>
     (case errors_As is_net_error e of Some n \<Rightarrow> net_error n = Some True | None \<Rightarrow> False)"

section \<open>Messages\<close>

fun join_lines :: "piece list list \<Rightarrow> piece list" where
  "join_lines [] = []"
| "join_lines [t] = t"
| "join_lines (t # ts) = t @ Lit [CHR 0x0A] # join_lines ts"

fun error_text :: "go_error \<Rightarrow> piece list" where
  "error_text (ErrorString m) = [Lit m]"
| "error_text (Errorf f ps None) = Lit f # ps"
| "error_text (Errorf f ps (Some e)) = Lit f # ps @ error_text e"
| "error_text ContextCanceled = [Lit ''context canceled'']"
| "error_text DeadlineExceeded = [Lit ''context deadline exceeded'']"
| "error_text EOF = [Lit ''EOF'']"
| "error_text ErrUnexpectedEOF = [Lit ''unexpected EOF'']"
| "error_text ErrManagerStarted = [Lit ''manager already started'']"
| "error_text ErrManagerStopped = [Lit ''manager stopped'']"
| "error_text (PermanentError e) = error_text e"
| "error_text (TransportError e) = error_text e"
| "error_text (DeliveryError r t i n d e) =
     [Lit ''receiver %q target %s[%d] failed after %d attempts: %v'',
      Quo (id_string r), Str t, Num i, Num n] @ error_text e"
| "error_text (JoinError es) = join_lines (map error_text es)"
| "error_text (NetError m t s None) = [Str m]"
| "error_text (NetError m t s (Some e)) = Str m # error_text e"
| "error_text (UrlError op u e) = [Lit ''%s %q: %s'', Str op, Quo u] @ error_text e"
| "error_text (TextprotoError c m) = [Lit ''%03d %s'', Num c, Str m]"
| "error_text (CertificateVerificationError e) = Lit ''tls: failed to verify certificate: %s'' # error_text e"
| "error_text UnknownAuthorityError = [Lit ''x509: certificate signed by unknown authority'']"
| "error_text HostnameError = [Lit ''x509: hostname mismatch'']"
| "error_text CertificateInvalidError = [Lit ''x509: invalid certificate'']"
| "error_text (ProxyError c s) = [Lit ''SMTP proxy CONNECT failed: '', Str s]"
| "error_text (OperationError op t e) =
     (if isTimeoutError e then [Lit ''SMTP %s timed out after %s'', Str op, Dur t]
      else [Lit ''SMTP %s failed: %v'', Str op] @ error_text e)"
| "error_text (RedactedError e m) = [Str m]"

section \<open>Lemmas\<close>

lemma chain_self [simp]: "e \<in> set (chain e)"
  by (cases e rule: chain.cases) auto

lemma chain_not_Nil [simp]: "chain e \<noteq> []"
  by (metis chain_self empty_iff list.set(1))

lemma errors_As_None: "errors_As p e = None \<longleftrightarrow> (\<forall>c \<in> set (chain e). \<not> p c)"
  by (auto simp: errors_As_def find_None_iff)

lemma errors_As_SomeD: "errors_As p e = Some c \<Longrightarrow> c \<in> set (chain e) \<and> p c"
  unfolding errors_As_def by (metis find_Some_iff nth_mem)

lemma errors_As_self: "p e \<Longrightarrow> errors_As p e \<noteq> None"
  using chain_self errors_As_None by blast

lemma errors_Is_iff: "errors_Is s e \<longleftrightarrow> (\<exists>c \<in> set (chain e). matches_sentinel s c)"
  by (auto simp: errors_Is_def list_ex_iff)

lemma IsPermanent_None [simp]: "IsPermanent None = False"
  by (simp add: IsPermanent_def)

lemma IsTransport_None [simp]: "IsTransport None = False"
  by (simp add: IsTransport_def)

lemma IsPermanent_Some: "IsPermanent (Some e) \<longleftrightarrow> (\<exists>c \<in> set (chain e). is_permanent_error c)"
  using errors_As_None[of is_permanent_error e] by (auto simp: IsPermanent_def)

lemma IsTransport_Some:
  "IsTransport (Some e) \<longleftrightarrow> \<not> IsPermanent (Some e) \<and> (\<exists>c \<in> set (chain e). is_transport_error c)"
  using errors_As_None[of is_transport_error e] by (auto simp: IsTransport_def)

lemmas classification = IsPermanent_Some IsTransport_Some

lemma Permanent_None [simp]: "Permanent None = None" and Transport_None [simp]: "Transport None = None"
  by (simp_all add: Permanent_def Transport_def)

lemma Permanent_eq_None [simp]: "Permanent err = None \<longleftrightarrow> err = None"
  by (simp add: Permanent_def split: option.splits)

lemma Transport_eq_None [simp]: "Transport err = None \<longleftrightarrow> err = None"
  by (simp add: Transport_def split: option.splits)

lemma IsPermanent_Permanent [simp]: "IsPermanent (Permanent (Some e))"
  by (auto simp: Permanent_def IsPermanent_Some)

lemma IsPermanent_not_IsTransport: "IsPermanent err \<Longrightarrow> \<not> IsTransport err"
  by (cases err) (simp_all add: IsTransport_def)

lemma IsPermanent_wrap [simp]:
  "IsPermanent (Some (PermanentError e))"
  "IsPermanent (Some (TransportError e)) = IsPermanent (Some e)"
  "IsPermanent (Some (RedactedError e m)) = IsPermanent (Some e)"
  "IsPermanent (Some (OperationError op t e)) = IsPermanent (Some e)"
  "IsPermanent (Some (Errorf f ps (Some e))) = IsPermanent (Some e)"
  "IsPermanent (Some (UrlError op u e)) = IsPermanent (Some e)"
  by (auto simp: IsPermanent_Some)

lemma IsTransport_Transport: "IsTransport (Transport (Some e)) \<longleftrightarrow> \<not> IsPermanent (Some e)"
  by (auto simp: Transport_def IsTransport_Some)

lemma isTimeoutError_wrap [simp]:
  "isTimeoutError (TransportError e) = isTimeoutError e"
  "isTimeoutError (PermanentError e) = isTimeoutError e"
  "isTimeoutError (RedactedError e m) = isTimeoutError e"
  "isTimeoutError (OperationError op t e) = isTimeoutError e"
  by (simp_all add: isTimeoutError_def errors_Is_def errors_As_def is_net_error_def matches_sentinel_def)

lemma errors_Join_simps [simp]:
  "errors_Join [] = None"
  "errors_Join (e # es) = Some (JoinError (e # es))"
  "errors_Join es = None \<longleftrightarrow> es = []"
  by (simp_all add: errors_Join_def)

end
