(* ===== verification/Go_Runtime.thy ===== *)
theory Go_Runtime
  imports Errors
begin

text \<open>
  The part of the Go runtime and standard library the code runs on: a clock, the choices
  the runtime leaves open (map iteration order, \<open>select\<close> between ready cases, random
  numbers), \<open>context.Context\<close>, timers and \<open>log/slog\<close>. All of it is one explicit state
  that the effectful definitions take and return.
\<close>

section \<open>Logging\<close>

datatype attr =
    AStr string
  | AInt int
  | ADur int
  | ABool bool
  | AErr go_error
  | AHeader "(string \<times> string list) list"

datatype log_level = LevelDebug | LevelInfo | LevelWarn | LevelError

datatype log_record = LogRecord log_level string "(string \<times> attr) list"

text \<open>
  A \<open>*slog.Logger\<close> is a discard logger or a logger with the attributes given by
  \<open>With\<close>. A nil logger is \<open>None\<close> of \<open>logger option\<close>.
\<close>

datatype logger = Discard | Logger "(string \<times> attr) list"

fun logger_With :: "logger \<Rightarrow> (string \<times> attr) list \<Rightarrow> logger" where
  "logger_With Discard as = Discard"
| "logger_With (Logger bs) as = Logger (bs @ as)"

section \<open>The runtime state\<close>

text \<open>
  \<open>now\<close> is the monotonic clock in nanoseconds, \<open>entropy\<close> the choices still to come
  (0 once the list is used up), \<open>logs\<close> what has been logged, oldest first, and
  \<open>world\<close> whatever state the targets and their servers have.
\<close>

record 'x runtime =
  now :: int
  entropy :: "nat list"
  logs :: "log_record list"
  world :: 'x

fun log_to :: "logger \<Rightarrow> log_level \<Rightarrow> string \<Rightarrow> (string \<times> attr) list \<Rightarrow> 'x runtime \<Rightarrow> 'x runtime" where
  "log_to Discard lv m as w = w"
| "log_to (Logger bs) lv m as w = w\<lparr>logs := logs w @ [LogRecord lv m (bs @ as)]\<rparr>"

definition draw :: "'x runtime \<Rightarrow> nat \<times> 'x runtime" where
  "draw w = (case entropy w of [] \<Rightarrow> (0, w) | r # rs \<Rightarrow> (r, w\<lparr>entropy := rs\<rparr>))"

text \<open>\<open>rand.Int64N(n)\<close> for positive \<open>n\<close>.\<close>

definition rand_Int64N :: "int \<Rightarrow> 'x runtime \<Rightarrow> int \<times> 'x runtime" where
  "rand_Int64N n w = (let (r, w') = draw w in (int r mod n, w'))"

section \<open>Iterating over maps\<close>

text \<open>
  The order of a \<open>range\<close> loop over a map is the runtime's choice. \<open>permute_by\<close> turns a
  list of choices into a permutation, and every permutation comes from some choices.
\<close>

fun permute_by :: "nat list \<Rightarrow> 'a list \<Rightarrow> 'a list" where
  "permute_by [] xs = xs"
| "permute_by (r # rs) [] = []"
| "permute_by (r # rs) (x # xs) =
     (let ys = x # xs; i = r mod length ys
      in ys ! i # permute_by rs (take i ys @ drop (Suc i) ys))"

definition map_range :: "('k, 'v) go_map \<Rightarrow> 'x runtime \<Rightarrow> ('k \<times> 'v) list \<times> 'x runtime" where
  "map_range m w =
     (permute_by (take (length m) (entropy w)) m, w\<lparr>entropy := drop (length m) (entropy w)\<rparr>)"

lemma mset_permute_by [simp]: "mset (permute_by rs xs) = mset xs"
proof (induction rs xs rule: permute_by.induct)
  case (3 r rs x xs)
  let ?ys = "x # xs" and ?i = "r mod length (x # xs)"
  have i: "?i < length ?ys" by simp
  have "mset (permute_by (r # rs) ?ys) =
        add_mset (?ys ! ?i) (mset (take ?i ?ys @ drop (Suc ?i) ?ys))"
    using 3 by (simp add: Let_def)
  also have "\<dots> = mset (take ?i ?ys @ ?ys ! ?i # drop (Suc ?i) ?ys)"
    by simp
  also have "\<dots> = mset ?ys"
    using id_take_nth_drop[OF i] by simp
  finally show ?case .
qed auto

lemma permute_by_complete: "mset ys = mset xs \<Longrightarrow> \<exists>rs. permute_by rs xs = ys"
proof (induction ys arbitrary: xs)
  case Nil
  then show ?case by (intro exI[of _ "[]"]) simp
next
  case (Cons y ys)
  then have "y \<in> set xs"
    by (metis list.set_intros(1) mset_eq_setD)
  then obtain i where i: "i < length xs" "xs ! i = y"
    by (auto simp: in_set_conv_nth)
  have "mset (take i xs @ drop (Suc i) xs) = mset ys"
    using Cons.prems id_take_nth_drop[OF i(1)] i(2)
    by (metis add_mset_add_mset_same_iff mset.simps(2) mset_append union_mset_add_mset_right)
  then obtain rs where rs: "permute_by rs (take i xs @ drop (Suc i) xs) = ys"
    using Cons.IH by metis
  obtain x zs where xs: "xs = x # zs"
    using i(1) by (cases xs) auto
  have "permute_by (i # rs) xs = y # ys"
    using i rs by (simp add: xs Let_def)
  then show ?case by blast
qed

lemma mset_map_range [simp]: "mset (fst (map_range m w)) = mset m"
  by (simp add: map_range_def)

lemma set_map_range [simp]: "set (fst (map_range m w)) = set m"
  by (metis mset_map_range set_mset_mset)

lemma length_map_range [simp]: "length (fst (map_range m w)) = length m"
  by (metis mset_map_range size_mset)

section \<open>Contexts and timers\<close>

text \<open>
  A non-nil \<open>context.Context\<close> is known by the moment it is done and the error it then
  reports: \<open>Some (t, e)\<close>, or \<open>None\<close> when it never ends. The moment may depend on
  anything outside the code (a caller's \<open>cancel()\<close>, a deadline), so statements quantify
  over it. \<open>deadline_at\<close> is what \<open>Deadline()\<close> reports.
\<close>

record go_context =
  cancel_at :: "(int \<times> go_error) option"
  deadline_at :: "int option"

definition Background :: go_context where
  "Background = \<lparr>cancel_at = None, deadline_at = None\<rparr>"

definition ctx_Err :: "go_context \<Rightarrow> 'x runtime \<Rightarrow> go_error option" where
  "ctx_Err c w = (case cancel_at c of None \<Rightarrow> None
     | Some (t, e) \<Rightarrow> if t \<le> now w then Some e else None)"

text \<open>
  \<open>context.WithTimeout\<close>: the earlier of the parent's end and the new deadline; a parent with
  an earlier deadline stays as it is.
\<close>

definition context_WithTimeout :: "go_context \<Rightarrow> int \<Rightarrow> 'x runtime \<Rightarrow> go_context" where
  "context_WithTimeout c d w =
     (let D = now w + d in
      if (case deadline_at c of None \<Rightarrow> False | Some x \<Rightarrow> x < D) then c
      else \<lparr>cancel_at = (case cancel_at c of
                Some (t, e) \<Rightarrow> if t \<le> D then Some (t, e) else Some (D, DeadlineExceeded)
              | None \<Rightarrow> Some (D, DeadlineExceeded)),
            deadline_at = Some D\<rparr>)"

lemma context_WithTimeout_deadline_at:
  "deadline_at (context_WithTimeout c d w) =
     Some (case deadline_at c of None \<Rightarrow> now w + d | Some x \<Rightarrow> min x (now w + d))"
  by (auto simp: context_WithTimeout_def Let_def min_def split: option.split)

lemma ctx_Err_sticky: "ctx_Err c w = Some e \<Longrightarrow> now w \<le> now w' \<Longrightarrow> ctx_Err c w' = Some e"
  by (auto simp: ctx_Err_def split: option.splits if_splits)

lemma ctx_Err_Background [simp]: "ctx_Err Background w = None"
  by (simp add: ctx_Err_def Background_def)

lemma ctx_Err_cong: "now w' = now w \<Longrightarrow> ctx_Err c w' = ctx_Err c w"
  by (simp add: ctx_Err_def split: option.splits)

lemma log_to_frame [simp]:
  "now (log_to lg lv m as w) = now w"
  "entropy (log_to lg lv m as w) = entropy w"
  "world (log_to lg lv m as w) = world w"
  by (cases lg; simp)+

lemma ctx_Err_log_to [simp]: "ctx_Err c (log_to lg lv m as w) = ctx_Err c w"
  by (rule ctx_Err_cong) simp

lemma draw_frame [simp]:
  "now (snd (draw w)) = now w" "logs (snd (draw w)) = logs w" "world (snd (draw w)) = world w"
  by (simp_all add: draw_def split: list.splits)

lemma rand_Int64N_frame [simp]:
  "now (snd (rand_Int64N n w)) = now w" "logs (snd (rand_Int64N n w)) = logs w"
  "world (snd (rand_Int64N n w)) = world w"
  by (simp_all add: rand_Int64N_def split_beta)

lemma rand_Int64N_bounds: "0 < n \<Longrightarrow> 0 \<le> fst (rand_Int64N n w) \<and> fst (rand_Int64N n w) < n"
  by (simp add: rand_Int64N_def split_beta)

lemma map_range_frame [simp]:
  "now (snd (map_range m w)) = now w" "logs (snd (map_range m w)) = logs w"
  "world (snd (map_range m w)) = world w"
  by (simp_all add: map_range_def)

end
