(* ===== verification/Types.thy ===== *)
theory Types
  imports Go_Runtime
begin

text \<open>
  The public types of \<open>notify/types.go\<close>: notifications, payloads, targets, receivers and
  retry configurations.

  \<open>'v\<close> is the type of Go's \<open>any\<close> (custom data and template data), \<open>'x\<close> the state of the
  world the targets talk to. An interface is the record of its methods; \<open>ID()\<close>, \<open>Data\<close>,
  \<open>ReceiverIDs()\<close> and \<open>Type()\<close> are pure, as their documentation requires. A map that may
  be nil is an \<open>option\<close>.
\<close>

type_synonym 'v custom_data = "(string, 'v) go_map option"

text \<open>
  \<open>Router\<close> is \<open>None\<close> for a notification without \<open>ReceiverIDs\<close>, that is, one that does
  not implement \<open>ReceiverRouter\<close>.
\<close>

record 'v notification =
  NotificationID :: string
  NotificationData :: "string \<Rightarrow> 'v custom_data \<Rightarrow> string \<Rightarrow> 'v"
  Router :: "receiver_id list option"

record 'v payload =
  Notification :: "'v notification option"
  PayloadReceiver :: string
  PayloadCustomData :: "'v custom_data"

text \<open>\<open>nil_any\<close> is the nil value of \<open>any\<close>, which \<open>Data\<close> returns without a notification.\<close>

definition Payload_Data :: "'v \<Rightarrow> 'v payload \<Rightarrow> string \<Rightarrow> 'v" where
  "Payload_Data nil_any p subject = (case Notification p of None \<Rightarrow> nil_any
     | Some n \<Rightarrow> NotificationData n (PayloadReceiver p) (PayloadCustomData p) subject)"

definition Payload_ID :: "'v payload \<Rightarrow> string" where
  "Payload_ID p = (case Notification p of None \<Rightarrow> [] | Some n \<Rightarrow> NotificationID n)"

type_synonym retry_policy = "delivery_result \<Rightarrow> go_error option \<Rightarrow> bool"

record retry_config =
  Count :: int
  Backoff :: int
  MaxBackoff :: int
  Jitter :: bool
  Policy :: "retry_policy option"

definition zero_retry :: retry_config where
  "zero_retry = \<lparr>Count = 0, Backoff = 0, MaxBackoff = 0, Jitter = False, Policy = None\<rparr>"

text \<open>\<open>Send\<close> returns a result and an error and may change the runtime state.\<close>

type_synonym 'x send_call = "'x runtime \<Rightarrow> (delivery_result \<times> go_error option) \<times> 'x runtime"

record ('v, 'x) target =
  Type :: string
  Send :: "go_context \<Rightarrow> 'v payload \<Rightarrow> 'x send_call"

text \<open>A target in a receiver may be nil until \<open>validateReceivers\<close> has looked at it.\<close>

record ('v, 'x) receiver =
  ID :: receiver_id
  Name :: string
  Retry :: retry_config
  Targets :: "('v, 'x) target option list"
  CustomData :: "'v custom_data"

text \<open>\<open>Receivers\<close> maps receiver IDs to pointers, which may be nil.\<close>

type_synonym ('v, 'x) receivers = "(receiver_id, ('v, 'x) receiver option) go_map"

end
