(* ===== verification/Retry_Policy.thy ===== *)
theory Retry_Policy
  imports Types
begin

text \<open>
  The retry policies of \<open>notify/retry_policy.go\<close>, the contract every built-in policy
  satisfies (a locale), and its instances.
\<close>

definition RetryOnError :: retry_policy where
  "RetryOnError r err \<longleftrightarrow> err \<noteq> None \<and> \<not> IsPermanent err"

definition RetryOnStatusCode :: "int list \<Rightarrow> retry_policy" where
  "RetryOnStatusCode codes =
     (let allowed = fold (\<lambda>code. map_set code ()) codes []
      in (\<lambda>result err.
           if err = None \<or> IsPermanent err then False
           else map_get allowed (StatusCode result) \<noteq> None))"

definition RetryOnServerError :: retry_policy where
  "RetryOnServerError result err =
     (if err = None \<or> IsPermanent err then False
      else 500 \<le> StatusCode result \<and> StatusCode result \<le> 599)"

definition RetryOnTimeout :: retry_policy where
  "RetryOnTimeout r err = (case err of None \<Rightarrow> False
     | Some e \<Rightarrow> if \<not> IsTransport err then False else isTimeoutError e)"

definition RetryOnNetworkError :: retry_policy where
  "RetryOnNetworkError r err = (case err of None \<Rightarrow> False
     | Some e \<Rightarrow> if \<not> IsTransport err then False else \<not> isTimeoutError e)"

text \<open>A nil policy in the list is skipped; the first policy that accepts ends the loop.\<close>

fun any_policy :: "retry_policy option list \<Rightarrow> retry_policy" where
  "any_policy [] result err = False"
| "any_policy (None # ps) result err = any_policy ps result err"
| "any_policy (Some p # ps) result err = (if p result err then True else any_policy ps result err)"

definition AnyRetryPolicy :: "retry_policy option list \<Rightarrow> retry_policy" where
  "AnyRetryPolicy policies = (\<lambda>result err. any_policy policies result err)"

definition defaultRetryPolicy :: retry_policy where
  "defaultRetryPolicy = AnyRetryPolicy
     [Some RetryOnTimeout, Some RetryOnNetworkError, Some (RetryOnStatusCode [408, 429]),
      Some RetryOnServerError]"

definition DefaultRetryPolicy :: retry_policy where
  "DefaultRetryPolicy result err = defaultRetryPolicy result err"

section \<open>Characterisations\<close>

lemma map_get_fold_set: "map_get (fold (\<lambda>c. map_set c ()) cs m) k = (if k \<in> set cs then Some () else map_get m k)"
  by (induction cs arbitrary: m) auto

lemma RetryOnStatusCode_iff:
  "RetryOnStatusCode codes r err \<longleftrightarrow>
     err \<noteq> None \<and> \<not> IsPermanent err \<and> StatusCode r \<in> set codes"
  by (simp add: RetryOnStatusCode_def map_get_fold_set)

lemma RetryOnServerError_iff:
  "RetryOnServerError r err \<longleftrightarrow>
     err \<noteq> None \<and> \<not> IsPermanent err \<and> StatusCode r \<in> {500..599}"
  by (simp add: RetryOnServerError_def)

lemma RetryOnTimeout_iff:
  "RetryOnTimeout r err \<longleftrightarrow> IsTransport err \<and> isTimeoutError (the err)"
  by (cases err) (simp_all add: RetryOnTimeout_def)

lemma RetryOnNetworkError_iff:
  "RetryOnNetworkError r err \<longleftrightarrow> IsTransport err \<and> \<not> isTimeoutError (the err)"
  by (cases err) (simp_all add: RetryOnNetworkError_def)

lemma any_policy_iff: "any_policy ps r err \<longleftrightarrow> (\<exists>p. Some p \<in> set ps \<and> p r err)"
  by (induction ps r err rule: any_policy.induct) auto

lemma AnyRetryPolicy_iff: "AnyRetryPolicy ps r err \<longleftrightarrow> (\<exists>p. Some p \<in> set ps \<and> p r err)"
  by (simp add: AnyRetryPolicy_def any_policy_iff)

lemmas policy_iffs = RetryOnError_def RetryOnStatusCode_iff RetryOnServerError_iff
  RetryOnTimeout_iff RetryOnNetworkError_iff AnyRetryPolicy_iff

section \<open>The contract of a built-in policy\<close>

text \<open>
  What \<open>withRetry\<close> and the targets rely on: a policy never asks to retry a success and
  never retries an error marked with \<open>Permanent\<close>.
\<close>

locale safe_policy =
  fixes policy :: retry_policy
  assumes success: "\<not> policy r None"
    and permanent: "IsPermanent err \<Longrightarrow> \<not> policy r err"
begin

lemma retries_only_errors: "policy r err \<Longrightarrow> \<exists>e. err = Some e \<and> \<not> IsPermanent (Some e)"
  using success permanent by (cases err) auto

lemma marked_permanent: "\<not> policy r (Permanent err)"
  using success permanent by (cases err) auto

end

text \<open>\<open>AnyRetryPolicy\<close> keeps the contract.\<close>

lemma safe_AnyRetryPolicy:
  assumes "\<And>p. Some p \<in> set ps \<Longrightarrow> safe_policy p"
  shows "safe_policy (AnyRetryPolicy ps)"
proof
  show "\<not> AnyRetryPolicy ps r None" for r
    using assms safe_policy.success by (auto simp: AnyRetryPolicy_iff)
  show "\<not> AnyRetryPolicy ps r err" if "IsPermanent err" for r err
    using assms safe_policy.permanent that by (fastforce simp: AnyRetryPolicy_iff)
qed

interpretation on_error: safe_policy RetryOnError
  by unfold_locales (simp_all add: policy_iffs)

interpretation on_status: safe_policy "RetryOnStatusCode codes"
  by unfold_locales (simp_all add: policy_iffs)

interpretation on_server_error: safe_policy RetryOnServerError
  by unfold_locales (simp_all add: policy_iffs)

interpretation on_timeout: safe_policy RetryOnTimeout
  by unfold_locales (auto simp: policy_iffs IsPermanent_not_IsTransport)

interpretation on_network_error: safe_policy RetryOnNetworkError
  by unfold_locales (auto simp: policy_iffs IsPermanent_not_IsTransport)

lemma DefaultRetryPolicy_eq: "DefaultRetryPolicy = AnyRetryPolicy
    [Some RetryOnTimeout, Some RetryOnNetworkError, Some (RetryOnStatusCode [408, 429]),
     Some RetryOnServerError]"
  by (intro ext) (simp add: DefaultRetryPolicy_def defaultRetryPolicy_def)

lemmas builtin_policies = on_timeout.safe_policy_axioms on_network_error.safe_policy_axioms
  on_status.safe_policy_axioms[of "[408, 429]"] on_server_error.safe_policy_axioms

lemma safe_DefaultRetryPolicy: "safe_policy DefaultRetryPolicy"
  unfolding DefaultRetryPolicy_eq
proof (rule safe_AnyRetryPolicy)
  fix p
  assume "Some p \<in> set [Some RetryOnTimeout, Some RetryOnNetworkError,
     Some (RetryOnStatusCode [408, 429]), Some RetryOnServerError]"
  then consider "p = RetryOnTimeout" | "p = RetryOnNetworkError"
    | "p = RetryOnStatusCode [408, 429]" | "p = RetryOnServerError"
    by (simp only: list.set insert_iff empty_iff option.inject) blast
  then show "safe_policy p"
    by cases (simp_all only: builtin_policies)
qed

interpretation default_policy: safe_policy DefaultRetryPolicy
  by (rule safe_DefaultRetryPolicy)

lemma DefaultRetryPolicy_iff:
  "DefaultRetryPolicy r err \<longleftrightarrow>
     IsTransport err \<or>
     (err \<noteq> None \<and> \<not> IsPermanent err \<and> StatusCode r \<in> {408, 429} \<union> {500..599})"
proof -
  have "DefaultRetryPolicy r err \<longleftrightarrow>
      RetryOnTimeout r err \<or> RetryOnNetworkError r err \<or> RetryOnStatusCode [408, 429] r err \<or>
      RetryOnServerError r err"
    by (simp add: DefaultRetryPolicy_eq AnyRetryPolicy_def)
  also have "\<dots> \<longleftrightarrow> IsTransport err \<or> RetryOnStatusCode [408, 429] r err \<or> RetryOnServerError r err"
    by (auto simp only: RetryOnTimeout_iff RetryOnNetworkError_iff)
  finally show ?thesis
    by (auto simp only: RetryOnStatusCode_iff RetryOnServerError_iff list.set Un_iff)
qed

end
