(* ===== verification/Retry.thy ===== *)
theory Retry
  imports Retry_Policy
begin

text \<open>
  \<open>notify/retry.go\<close>: backoff, jitter, waiting and the retry loop.
\<close>

section \<open>Backoff\<close>

definition doubleDuration :: "int \<Rightarrow> int" where
  "doubleDuration d = (if int64_max div 2 < d then int64_max else wrap64 (d * 2))"

text \<open>
  The loop \<open>for range retry - 1\<close> of \<open>retryBackoff\<close>: \<open>n\<close> doublings, left as soon as the
  cap is reached.
\<close>

fun backoff_loop :: "int \<Rightarrow> nat \<Rightarrow> int \<Rightarrow> int" where
  "backoff_loop maxb 0 wait = wait"
| "backoff_loop maxb (Suc n) wait =
     (let wait' = doubleDuration wait
      in if 0 < maxb \<and> maxb \<le> wait' then maxb else backoff_loop maxb n wait')"

definition jitterBackoff :: "int \<Rightarrow> 'x runtime \<Rightarrow> int \<times> 'x runtime" where
  "jitterBackoff d w = (if d \<le> 0 then (0, w) else rand_Int64N d w)"

text \<open>The part of \<open>retryBackoff\<close> before jitter.\<close>

definition local_backoff :: "retry_config \<Rightarrow> int \<Rightarrow> int" where
  "local_backoff cfg retry =
     (let wait = backoff_loop (MaxBackoff cfg) (nat (retry - 1)) (Backoff cfg)
      in if 0 < MaxBackoff cfg then min wait (MaxBackoff cfg) else wait)"

definition retryBackoff :: "retry_config \<Rightarrow> int \<Rightarrow> 'x runtime \<Rightarrow> int \<times> 'x runtime" where
  "retryBackoff cfg retry w =
     (if Backoff cfg \<le> 0 \<or> retry \<le> 0 then (0, w)
      else if Jitter cfg then jitterBackoff (local_backoff cfg retry) w
      else (local_backoff cfg retry, w))"

definition retryDelay :: "retry_config \<Rightarrow> int \<Rightarrow> delivery_result \<Rightarrow> 'x runtime \<Rightarrow> int \<times> 'x runtime" where
  "retryDelay cfg retry result w =
     (let (b, w') = retryBackoff cfg retry w in (max b (RetryAfter result), w'))"

section \<open>Waiting\<close>

text \<open>
  The \<open>select\<close> between the timer and \<open>ctx.Done()\<close>: the earlier one wins; when both are
  ready at the same moment the runtime chooses.
\<close>

definition waitForRetry :: "go_context \<Rightarrow> int \<Rightarrow> 'x runtime \<Rightarrow> go_error option \<times> 'x runtime" where
  "waitForRetry ctx d w =
     (let fire = now w + max d 0
      in case cancel_at ctx of
           None \<Rightarrow> (None, w\<lparr>now := fire\<rparr>)
         | Some (t, e) \<Rightarrow>
             if fire < t then (None, w\<lparr>now := fire\<rparr>)
             else if t < fire then (Some e, w\<lparr>now := max t (now w)\<rparr>)
             else let (r, w') = draw w
                  in if even r then (Some e, w'\<lparr>now := fire\<rparr>) else (None, w'\<lparr>now := fire\<rparr>))"

section \<open>The retry loop\<close>

text \<open>
  What happens before an attempt: nothing before the first; before a retry the delay is
  computed from the last result, logged and waited for, unless it is not positive.
\<close>

definition before_attempt ::
  "go_context \<Rightarrow> logger \<Rightarrow> retry_config \<Rightarrow> int \<Rightarrow> delivery_result \<Rightarrow> 'x runtime
     \<Rightarrow> go_error option \<times> 'x runtime" where
  "before_attempt ctx lg cfg attempt lastResult w =
     (if 0 < attempt then
        let (wait, w1) = retryDelay cfg attempt lastResult w;
            w2 = log_to lg LevelDebug ''notification target retry''
                   [(''attempt'', AInt (attempt + 1)), (''backoff'', ADur wait)] w1
        in if 0 < wait then waitForRetry ctx wait w2 else (None, w2)
      else (None, w))"

text \<open>
  \<open>for attempt := range maxAttempts\<close>, with \<open>n\<close> iterations left. The result is the last
  delivery result, the number of executed attempts and the error.
\<close>

fun retry_loop ::
  "go_context \<Rightarrow> logger \<Rightarrow> retry_config \<Rightarrow> 'x send_call \<Rightarrow> int \<Rightarrow> nat \<Rightarrow> int
     \<Rightarrow> delivery_result \<Rightarrow> go_error option \<Rightarrow> int \<Rightarrow> 'x runtime
     \<Rightarrow> (delivery_result \<times> int \<times> go_error option) \<times> 'x runtime" where
  "retry_loop ctx lg cfg fn maxAttempts 0 attempt lastResult lastErr executed w =
     ((lastResult, executed, lastErr), w)"
| "retry_loop ctx lg cfg fn maxAttempts (Suc n) attempt lastResult lastErr executed w =
     (case before_attempt ctx lg cfg attempt lastResult w of
        (Some err, w1) \<Rightarrow> ((lastResult, executed, Some err), w1)
      | (None, w1) \<Rightarrow>
          (case ctx_Err ctx w1 of
             Some err \<Rightarrow> ((lastResult, executed, Some err), w1)
           | None \<Rightarrow>
               (let w2 = log_to lg LevelDebug ''notification target attempt''
                           [(''attempt'', AInt (attempt + 1)), (''maxAttempts'', AInt maxAttempts)] w1;
                    ((result, err), w3) = fn w2;
                    executed' = executed + 1
                in if err = None then ((result, executed', None), w3)
                   else if ctx_Err ctx w3 \<noteq> None then ((result, executed', ctx_Err ctx w3), w3)
                   else if maxAttempts \<le> executed' \<or>
                           (case Policy cfg of None \<Rightarrow> True | Some p \<Rightarrow> \<not> p result err)
                        then ((result, executed', err), w3)
                   else retry_loop ctx lg cfg fn maxAttempts n (attempt + 1) result err executed' w3)))"

definition max_attempts :: "retry_config \<Rightarrow> int" where
  "max_attempts cfg = max (wrap64 (Count cfg + 1)) 1"

definition withRetry ::
  "go_context \<Rightarrow> logger \<Rightarrow> retry_config \<Rightarrow> 'x send_call \<Rightarrow> 'x runtime
     \<Rightarrow> (delivery_result \<times> int \<times> go_error option) \<times> 'x runtime" where
  "withRetry ctx lg cfg fn w =
     retry_loop ctx lg cfg fn (max_attempts cfg) (nat (max_attempts cfg)) 0 zero_result None 0 w"

section \<open>Backoff: closed form and bounds\<close>

lemma doubleDuration_eq: "0 < d \<Longrightarrow> int64 d \<Longrightarrow> doubleDuration d = min (2 * d) int64_max"
  by (auto simp: doubleDuration_def int64_def min_def)

lemma backoff_loop_uncapped:
  assumes "maxb \<le> 0" and "0 < d" and "int64 d"
  shows "backoff_loop maxb n d = min (d * 2 ^ n) int64_max"
  using assms
proof (induction n arbitrary: d)
  case 0
  then show ?case by (simp add: int64_def)
next
  case (Suc n)
  let ?d = "min (2 * d) int64_max"
  have le: "d \<le> d * 2 ^ n" using Suc.prems by simp
  have "backoff_loop maxb (Suc n) d = backoff_loop maxb n ?d"
    using Suc.prems by (simp add: doubleDuration_eq)
  also have "\<dots> = min (?d * 2 ^ n) int64_max"
    using Suc.prems by (intro Suc.IH) (auto simp: int64_def)
  also have "\<dots> = min (d * 2 ^ Suc n) int64_max"
  proof (cases "2 * d \<le> int64_max")
    case True
    then show ?thesis by (simp add: mult.commute mult.left_commute)
  next
    case False
    have "int64_max * 1 \<le> int64_max * 2 ^ n" by (rule mult_left_mono) simp_all
    then have "min (int64_max * 2 ^ n) int64_max = int64_max" by (intro min_absorb2) linarith
    moreover have "d * 2 ^ Suc n = 2 * (d * 2 ^ n)" by simp
    then have "int64_max \<le> d * 2 ^ Suc n" using False le by linarith
    then have "min (d * 2 ^ Suc n) int64_max = int64_max" by (rule min_absorb2)
    moreover have "?d = int64_max" using False by (simp add: min_def)
    ultimately show ?thesis by (simp only:)
  qed
  finally show ?case .
qed

lemma backoff_loop_capped:
  assumes "0 < maxb" and "maxb \<le> int64_max" and "0 < d" and "int64 d"
  shows "min (backoff_loop maxb n d) maxb = min (d * 2 ^ n) maxb"
  using assms
proof (induction n arbitrary: d)
  case 0
  then show ?case by simp
next
  case (Suc n)
  let ?d = "min (2 * d) int64_max"
  have le: "d \<le> d * 2 ^ n" using Suc.prems by simp
  show ?case
  proof (cases "maxb \<le> ?d")
    case True
    then have "maxb \<le> d * 2 ^ Suc n" using le by simp
    then show ?thesis using True Suc.prems by (simp add: doubleDuration_eq)
  next
    case False
    then have d: "?d = 2 * d" and lt: "2 * d < maxb" using Suc.prems by (simp_all add: min_def split: if_splits)
    have "min (backoff_loop maxb (Suc n) d) maxb = min (backoff_loop maxb n (2 * d)) maxb"
      using Suc.prems False d by (simp add: doubleDuration_eq)
    also have "\<dots> = min (2 * d * 2 ^ n) maxb"
      using Suc.prems lt by (intro Suc.IH) (auto simp: int64_def)
    finally show ?thesis by (simp add: mult.commute mult.left_commute)
  qed
qed

text \<open>The cap in force: \<open>MaxBackoff\<close> when positive, else the largest duration.\<close>

definition backoff_cap :: "retry_config \<Rightarrow> int" where
  "backoff_cap cfg = (if 0 < MaxBackoff cfg then MaxBackoff cfg else int64_max)"

definition config_ok :: "retry_config \<Rightarrow> bool" where
  "config_ok cfg \<longleftrightarrow> int64 (Count cfg) \<and> int64 (Backoff cfg) \<and> int64 (MaxBackoff cfg)"

lemma local_backoff_closed:
  assumes "config_ok cfg" and "0 < Backoff cfg"
  shows "local_backoff cfg retry = min (Backoff cfg * 2 ^ nat (retry - 1)) (backoff_cap cfg)"
proof (cases "0 < MaxBackoff cfg")
  case True
  then show ?thesis
    using assms backoff_loop_capped[of "MaxBackoff cfg" "Backoff cfg" "nat (retry - 1)"]
    by (simp add: local_backoff_def backoff_cap_def config_ok_def int64_def)
next
  case False
  then show ?thesis
    using assms backoff_loop_uncapped[of "MaxBackoff cfg" "Backoff cfg" "nat (retry - 1)"]
    by (simp add: local_backoff_def backoff_cap_def config_ok_def)
qed

lemma local_backoff_pos:
  assumes "config_ok cfg" and "0 < Backoff cfg"
  shows "0 < local_backoff cfg retry" and "local_backoff cfg retry \<le> backoff_cap cfg"
  using assms by (simp_all add: local_backoff_closed backoff_cap_def)

lemma jitterBackoff_bounds:
  "0 \<le> d \<Longrightarrow> 0 \<le> fst (jitterBackoff d w) \<and> fst (jitterBackoff d w) \<le> d"
  using rand_Int64N_bounds[of d w] by (auto simp: jitterBackoff_def)

lemma retryBackoff_bounds:
  assumes "config_ok cfg"
  shows "0 \<le> fst (retryBackoff cfg retry w) \<and> fst (retryBackoff cfg retry w) \<le> backoff_cap cfg"
proof (cases "Backoff cfg \<le> 0 \<or> retry \<le> 0")
  case True
  then show ?thesis by (auto simp: retryBackoff_def backoff_cap_def)
next
  case False
  then show ?thesis
    using local_backoff_pos[of cfg retry] jitterBackoff_bounds[of "local_backoff cfg retry" w] assms
    by (auto simp: retryBackoff_def)
qed

lemma jitterBackoff_frame [simp]:
  "now (snd (jitterBackoff d w)) = now w" "logs (snd (jitterBackoff d w)) = logs w"
  "world (snd (jitterBackoff d w)) = world w"
  by (simp_all add: jitterBackoff_def)

lemma retryBackoff_frame [simp]:
  "now (snd (retryBackoff cfg r w)) = now w" "logs (snd (retryBackoff cfg r w)) = logs w"
  "world (snd (retryBackoff cfg r w)) = world w"
  by (simp_all add: retryBackoff_def)

lemma retryDelay_eq:
  "retryDelay cfg r res w = (max (fst (retryBackoff cfg r w)) (RetryAfter res), snd (retryBackoff cfg r w))"
  by (simp add: retryDelay_def split_beta)

lemma retryBackoff_no_jitter:
  "\<not> Jitter cfg \<Longrightarrow> retryBackoff cfg r w =
     (if Backoff cfg \<le> 0 \<or> r \<le> 0 then 0 else local_backoff cfg r, w)"
  by (simp add: retryBackoff_def)

section \<open>The loop\<close>

lemma max_attempts_pos [simp]: "0 < max_attempts cfg"
  by (simp add: max_attempts_def)

lemma max_attempts_nat [simp]: "int (nat (max_attempts cfg)) = max_attempts cfg" "0 < nat (max_attempts cfg)"
  using max_attempts_pos[of cfg] by linarith+

lemma max_attempts_eq:
  "int64 (Count cfg) \<Longrightarrow> Count cfg < int64_max \<Longrightarrow> max_attempts cfg = max (Count cfg + 1) 1"
  by (simp add: max_attempts_def int64_def)

lemma max_attempts_overflow: "Count cfg = int64_max \<Longrightarrow> max_attempts cfg = 1"
  by (simp add: max_attempts_def wrap64_def)

lemma before_attempt_0 [simp]: "before_attempt ctx lg cfg 0 r w = (None, w)"
  by (simp add: before_attempt_def)

lemma waitForRetry_None_now:
  "waitForRetry ctx d w = (None, w') \<Longrightarrow> 0 \<le> d \<Longrightarrow> now w' = now w + d"
  by (auto simp: waitForRetry_def Let_def split: option.splits if_splits prod.splits)

lemma waitForRetry_Some:
  "waitForRetry ctx d w = (Some e, w') \<Longrightarrow> ctx_Err ctx w' = Some e"
  by (auto simp: waitForRetry_def ctx_Err_def Let_def split: option.splits if_splits prod.splits)

text \<open>The executed attempts stay within the bound.\<close>

lemma retry_loop_executed:
  assumes "retry_loop ctx lg cfg fn m n a r e x w = ((r', x', e'), w')" and "x + int n \<le> m"
  shows "x \<le> x' \<and> x' \<le> x + int n"
  using assms
proof (induction n arbitrary: a r e x w)
  case 0
  then show ?case by simp
next
  case (Suc n)
  show ?case
    using Suc.prems Suc.IH[of "a + 1" _ _ "x + 1"]
    by (fastforce simp: Let_def split: prod.splits option.splits if_splits)
qed

lemma withRetry_executed:
  assumes "withRetry ctx lg cfg fn w = ((r, x, e), w')"
  shows "0 \<le> x \<and> x \<le> max_attempts cfg"
  using assms retry_loop_executed[of ctx lg cfg fn "max_attempts cfg" "nat (max_attempts cfg)" 0
      zero_result None 0 w r x e w']
  by (simp add: withRetry_def del: int_nat_eq)

text \<open>
  The loop consults \<open>fn\<close> only in states in which the context is not done: two targets
  that agree on those states cannot be told apart.
\<close>

lemma retry_loop_cong_fn:
  assumes "\<And>v. ctx_Err ctx v = None \<Longrightarrow> fn v = fn' v"
  shows "retry_loop ctx lg cfg fn m n a r e x w = retry_loop ctx lg cfg fn' m n a r e x w"
proof (induction n arbitrary: a r e x w)
  case 0
  then show ?case by simp
next
  case (Suc n)
  obtain b w1 where b: "before_attempt ctx lg cfg a r w = (b, w1)" by force
  let ?v = "log_to lg LevelDebug ''notification target attempt''
              [(''attempt'', AInt (a + 1)), (''maxAttempts'', AInt m)] w1"
  have "fn ?v = fn' ?v" if "ctx_Err ctx w1 = None"
    using that by (intro assms) simp
  then show ?case
    using Suc.IH by (simp add: b Let_def split: option.splits prod.splits)
qed

text \<open>The policy refuses another try; a nil policy refuses every one.\<close>

definition gives_up :: "retry_config \<Rightarrow> delivery_result \<Rightarrow> go_error option \<Rightarrow> bool" where
  "gives_up cfg r err \<longleftrightarrow> (case Policy cfg of None \<Rightarrow> True | Some p \<Rightarrow> \<not> p r err)"

section \<open>The loop against a scripted target\<close>

text \<open>
  A scripted target answers its calls, one after the other, with the entries of a list:
  a result, an error and the time the call takes. What the loop does with a context that
  never ends then has a closed form: it consumes the entries up to the first that is a
  success or that the policy refuses to retry, but at most \<open>max_attempts\<close> of them.
\<close>

type_synonym script = "(delivery_result \<times> go_error option \<times> nat) list"

definition scripted :: "script send_call" where
  "scripted w = (case world w of
       [] \<Rightarrow> ((zero_result, None), w)
     | (r, e, d) # rest \<Rightarrow> ((r, e), w\<lparr>now := now w + int d, world := rest\<rparr>))"

definition retryable :: "retry_config \<Rightarrow> delivery_result \<times> go_error option \<times> nat \<Rightarrow> bool" where
  "retryable cfg = (\<lambda>(r, e, d). e \<noteq> None \<and> \<not> gives_up cfg r e)"

definition last_index :: "retry_config \<Rightarrow> nat \<Rightarrow> script \<Rightarrow> nat" where
  "last_index cfg n outs = length (takeWhile (retryable cfg) (take (n - 1) outs))"

text \<open>The wait before attempt \<open>a\<close> (counted from 0) after result \<open>r\<close>, without jitter.\<close>

definition retry_wait :: "retry_config \<Rightarrow> int \<Rightarrow> delivery_result \<Rightarrow> int" where
  "retry_wait cfg a r =
     (if 0 < a then max 0 (max (if Backoff cfg \<le> 0 then 0 else local_backoff cfg a) (RetryAfter r)) else 0)"

definition script_time :: "retry_config \<Rightarrow> int \<Rightarrow> script \<Rightarrow> nat \<Rightarrow> int" where
  "script_time cfg a outs k =
     (\<Sum>j\<le>k. int (snd (snd (outs ! j)))) + (\<Sum>j<k. retry_wait cfg (a + 1 + int j) (fst (outs ! j)))"

lemma waitForRetry_Background: "waitForRetry Background d w = (None, w\<lparr>now := now w + max d 0\<rparr>)"
  by (simp add: waitForRetry_def Background_def)

lemma before_attempt_Background:
  obtains w1 where "before_attempt Background lg cfg a r w = (None, w1)" "world w1 = world w"
    "\<not> Jitter cfg \<Longrightarrow> now w1 = now w + retry_wait cfg a r"
proof -
  obtain b w1 where eq: "before_attempt Background lg cfg a r w = (b, w1)" by force
  show ?thesis
  proof (rule that[of w1])
    show "before_attempt Background lg cfg a r w = (None, w1)" and "world w1 = world w"
      using eq by (auto simp: before_attempt_def retryDelay_eq waitForRetry_Background Let_def split: if_splits)
    show "now w1 = now w + retry_wait cfg a r" if "\<not> Jitter cfg"
      using eq that
      by (auto simp: before_attempt_def retryDelay_eq waitForRetry_Background Let_def retryBackoff_no_jitter
          retry_wait_def max_def split: if_splits)
  qed
qed

lemma last_index_0: "n = 0 \<or> \<not> retryable cfg o1 \<Longrightarrow> last_index cfg (Suc n) (o1 # outs) = 0"
  by (cases n) (auto simp: last_index_def)

lemma last_index_Suc:
  "retryable cfg o1 \<Longrightarrow> 0 < n \<Longrightarrow> last_index cfg (Suc n) (o1 # outs) = Suc (last_index cfg n outs)"
  by (cases n) (simp_all add: last_index_def)

lemma last_index_less: "0 < n \<Longrightarrow> last_index cfg n outs < n"
proof -
  assume "0 < n"
  have "last_index cfg n outs \<le> length (take (n - 1) outs)"
    unfolding last_index_def by (rule length_takeWhile_le)
  then show ?thesis using \<open>0 < n\<close> by (simp add: min_def split: if_splits)
qed

lemma script_time_0 [simp]: "script_time cfg a outs 0 = int (snd (snd (outs ! 0)))"
  by (simp add: script_time_def)

lemma script_time_Suc:
  "script_time cfg a (o1 # outs) (Suc k) =
     int (snd (snd o1)) + retry_wait cfg (a + 1) (fst o1) + script_time cfg (a + 1) outs k"
  unfolding script_time_def
  by (subst sum.atMost_Suc_shift, subst sum.lessThan_Suc_shift) (simp add: add.assoc add.left_commute)

lemma retry_loop_scripted:
  assumes "n \<le> length (world w)" and "0 < n" and "x + int n = m"
  shows "\<exists>w'. retry_loop Background lg cfg scripted m n a r e x w =
      (let k = last_index cfg n (world w)
       in ((fst (world w ! k), x + int k + 1, fst (snd (world w ! k))), w')) \<and>
    world w' = drop (Suc (last_index cfg n (world w))) (world w) \<and>
    (\<not> Jitter cfg \<longrightarrow> now w' = now w + retry_wait cfg a r
       + script_time cfg a (world w) (last_index cfg n (world w)))"
  using assms
proof (induction n arbitrary: a r e x w)
  case 0
  then show ?case by simp
next
  case (Suc n)
  obtain o1 outs where outs: "world w = o1 # outs" using Suc.prems(1) by (cases "world w") auto
  obtain r1 e1 d1 where o1: "o1 = (r1, e1, d1)" by (metis prod_cases3)
  obtain w1 where b: "before_attempt Background lg cfg a r w = (None, w1)" and w1: "world w1 = world w"
      and t1: "\<not> Jitter cfg \<Longrightarrow> now w1 = now w + retry_wait cfg a r"
    using before_attempt_Background[of lg cfg a r w] by blast
  let ?v = "log_to lg LevelDebug ''notification target attempt''
              [(''attempt'', AInt (a + 1)), (''maxAttempts'', AInt m)] w1"
  let ?w3 = "?v\<lparr>now := now w1 + int d1, world := outs\<rparr>"
  have f: "scripted ?v = ((r1, e1), ?w3)"
    by (simp add: scripted_def w1 outs o1)
  show ?case
  proof (cases "n = 0 \<or> \<not> retryable cfg o1")
    case True
    then have "m \<le> x + 1 \<or> e1 = None \<or> gives_up cfg r1 e1"
      using Suc.prems by (auto simp: retryable_def o1)
    then show ?thesis
      using True Suc.prems t1
      by (auto simp: b f Let_def last_index_0 outs o1 gives_up_def)
  next
    case False
    then have n: "0 < n" "retryable cfg o1" and e1: "e1 \<noteq> None" "\<not> gives_up cfg r1 e1"
      by (auto simp: retryable_def o1)
    then have "retry_loop Background lg cfg scripted m (Suc n) a r e x w =
        retry_loop Background lg cfg scripted m n (a + 1) r1 e1 (x + 1) ?w3"
      using Suc.prems by (auto simp: b f Let_def gives_up_def)
    moreover obtain w' where
      "retry_loop Background lg cfg scripted m n (a + 1) r1 e1 (x + 1) ?w3 =
        (let k = last_index cfg n outs
         in ((fst (outs ! k), x + 1 + int k + 1, fst (snd (outs ! k))), w'))"
      and "world w' = drop (Suc (last_index cfg n outs)) outs"
      and "\<not> Jitter cfg \<Longrightarrow> now w' = now w1 + int d1 + retry_wait cfg (a + 1) r1
         + script_time cfg (a + 1) outs (last_index cfg n outs)"
      using Suc.IH[of ?w3 "x + 1" "a + 1" r1 e1] Suc.prems n(1) by (auto simp: outs)
    ultimately show ?thesis
      using t1 n by (intro exI[of _ w']) (simp add: Let_def outs last_index_Suc script_time_Suc o1)
  qed
qed

lemma withRetry_scripted:
  assumes "nat (max_attempts cfg) \<le> length (world w)"
  shows "\<exists>w'. withRetry Background lg cfg scripted w =
      (let k = last_index cfg (nat (max_attempts cfg)) (world w)
       in ((fst (world w ! k), int k + 1, fst (snd (world w ! k))), w')) \<and>
    world w' = drop (Suc (last_index cfg (nat (max_attempts cfg)) (world w))) (world w) \<and>
    (\<not> Jitter cfg \<longrightarrow> now w' = now w
       + script_time cfg 0 (world w) (last_index cfg (nat (max_attempts cfg)) (world w)))"
  using retry_loop_scripted[of "nat (max_attempts cfg)" w 0 "max_attempts cfg" lg cfg 0 zero_result None] assms
  by (simp add: withRetry_def retry_wait_def del: int_nat_eq)

section \<open>Single attempts\<close>

text \<open>The state in which the first attempt is made.\<close>

definition first_state :: "logger \<Rightarrow> retry_config \<Rightarrow> 'x runtime \<Rightarrow> 'x runtime" where
  "first_state lg cfg w = log_to lg LevelDebug ''notification target attempt''
     [(''attempt'', AInt 1), (''maxAttempts'', AInt (max_attempts cfg))] w"

lemma withRetry_done: "ctx_Err ctx w = Some e \<Longrightarrow> withRetry ctx lg cfg fn w = ((zero_result, 0, Some e), w)"
  using max_attempts_nat(2)[of cfg] by (cases "nat (max_attempts cfg)") (simp_all add: withRetry_def)

lemma withRetry_stops_at_first:
  assumes "ctx_Err ctx w = None" and "fn (first_state lg cfg w) = ((r, e), w')"
    and "e = None \<or> gives_up cfg r e"
  shows "withRetry ctx lg cfg fn w =
    ((r, 1, if e = None \<or> ctx_Err ctx w' = None then e else ctx_Err ctx w'), w')"
proof -
  obtain n where n: "nat (max_attempts cfg) = Suc n"
    using max_attempts_nat(2)[of cfg] by (cases "nat (max_attempts cfg)") simp_all
  show ?thesis
    using assms unfolding withRetry_def n first_state_def
    by (auto simp: Let_def gives_up_def split: option.splits)
qed

context safe_policy
begin

lemma permanent_stops:
  assumes "ctx_Err ctx w = None" and "fn (first_state lg cfg w) = ((r, Permanent (Some e)), w')"
    and "Policy cfg = Some policy" and "ctx_Err ctx w' = None"
  shows "withRetry ctx lg cfg fn w = ((r, 1, Permanent (Some e)), w')"
  using assms withRetry_stops_at_first[of ctx w fn lg cfg r "Permanent (Some e)" w'] marked_permanent
  by (simp add: gives_up_def)

end

end
