(* ===== verification/Delivery.thy ===== *)
theory Delivery
  imports Retry
begin

text \<open>
  \<open>notify/delivery.go\<close>: the delivery engine that sends a payload to every target of every
  receiver. A nil target makes \<open>target.Type()\<close> panic; a panic is the value \<open>None\<close>.
\<close>

text \<open>The payload and the logger of one target.\<close>

definition target_payload :: "('v, 'x) receiver \<Rightarrow> 'v payload \<Rightarrow> 'v payload" where
  "target_payload receiver payload =
     payload\<lparr>PayloadReceiver := Name receiver, PayloadCustomData := CustomData receiver\<rparr>"

definition target_logger ::
  "logger \<Rightarrow> ('v, 'x) receiver \<Rightarrow> ('v, 'x) target \<Rightarrow> 'v payload \<Rightarrow> nat \<Rightarrow> logger" where
  "target_logger lg receiver t payload index = logger_With lg
     [(''receiver'', AStr (Name receiver)), (''targetType'', AStr (Type t)),
      (''notificationID'', AStr (Payload_ID payload)), (''targetIndex'', AInt (int index))]"

text \<open>One target: the retry loop and the outcome record.\<close>

definition send_target ::
  "go_context \<Rightarrow> logger \<Rightarrow> ('v, 'x) receiver \<Rightarrow> 'v payload \<Rightarrow> nat \<Rightarrow> ('v, 'x) target \<Rightarrow> 'x runtime
     \<Rightarrow> (delivery_result \<times> int \<times> go_error option) \<times> 'x runtime" where
  "send_target ctx lg receiver payload index t w =
     (let tl = target_logger lg receiver t payload index;
          ((result, attempts, err), w1) =
            withRetry ctx tl (Retry receiver) (Send t ctx (target_payload receiver payload)) w
      in ((result, attempts, err),
          case err of
            Some e \<Rightarrow> log_to tl LevelError ''notification target failed''
              [(''attempts'', AInt attempts), (''status'', AStr (Status result)),
               (''statusCode'', AInt (StatusCode result)), (''error'', AErr e)] w1
          | None \<Rightarrow> log_to tl LevelInfo ''notification target delivered''
              [(''attempts'', AInt attempts), (''status'', AStr (Status result)),
               (''statusCode'', AInt (StatusCode result))] w1))"

text \<open>The loop of \<open>dispatchReceiver\<close> from a target index on, with the errors so far.\<close>

fun dispatch_targets ::
  "go_context \<Rightarrow> logger \<Rightarrow> ('v, 'x) receiver \<Rightarrow> 'v payload \<Rightarrow> nat \<Rightarrow> ('v, 'x) target option list
     \<Rightarrow> go_error list \<Rightarrow> 'x runtime \<Rightarrow> (go_error list \<times> 'x runtime) option" where
  "dispatch_targets ctx lg receiver payload index [] errs w = Some (errs, w)"
| "dispatch_targets ctx lg receiver payload index (None # ts) errs w = None"
| "dispatch_targets ctx lg receiver payload index (Some t # ts) errs w =
     (let ((result, attempts, err), w1) = send_target ctx lg receiver payload index t w
      in case err of
           Some e \<Rightarrow> dispatch_targets ctx lg receiver payload (Suc index) ts
             (errs @ [DeliveryError (ID receiver) (Type t) (int index) attempts result e]) w1
         | None \<Rightarrow> dispatch_targets ctx lg receiver payload (Suc index) ts errs w1)"

definition dispatchReceiver ::
  "go_context \<Rightarrow> logger \<Rightarrow> ('v, 'x) receiver \<Rightarrow> 'v payload \<Rightarrow> 'x runtime
     \<Rightarrow> (go_error option \<times> 'x runtime) option" where
  "dispatchReceiver ctx lg receiver payload w =
     (case dispatch_targets ctx lg receiver payload 0 (Targets receiver) [] w of
        None \<Rightarrow> None
      | Some (errs, w') \<Rightarrow> Some (errors_Join errs, w'))"

fun dispatch_receivers ::
  "go_context \<Rightarrow> logger \<Rightarrow> 'v payload \<Rightarrow> ('v, 'x) receiver list \<Rightarrow> go_error list \<Rightarrow> 'x runtime
     \<Rightarrow> (go_error list \<times> 'x runtime) option" where
  "dispatch_receivers ctx lg payload [] errs w = Some (errs, w)"
| "dispatch_receivers ctx lg payload (r # rs) errs w =
     (case dispatchReceiver ctx lg r payload w of
        None \<Rightarrow> None
      | Some (Some e, w') \<Rightarrow> dispatch_receivers ctx lg payload rs (errs @ [e]) w'
      | Some (None, w') \<Rightarrow> dispatch_receivers ctx lg payload rs errs w')"

definition dispatch ::
  "go_context \<Rightarrow> logger \<Rightarrow> 'v payload \<Rightarrow> ('v, 'x) receiver list \<Rightarrow> 'x runtime
     \<Rightarrow> (go_error option \<times> 'x runtime) option" where
  "dispatch ctx lg payload receivers w =
     (case dispatch_receivers ctx lg payload receivers [] w of
        None \<Rightarrow> None
      | Some (errs, w') \<Rightarrow> Some (errors_Join errs, w'))"

section \<open>What a delivery does, target by target\<close>

text \<open>
  The reference: every target in order, each started in the state the one before it left,
  whatever that one returned. \<open>failures\<close> turns the outcomes into the errors reported.
\<close>

type_synonym outcome = "delivery_result \<times> int \<times> go_error option"

fun run_targets ::
  "go_context \<Rightarrow> logger \<Rightarrow> ('v, 'x) receiver \<Rightarrow> 'v payload \<Rightarrow> nat \<Rightarrow> ('v, 'x) target list
     \<Rightarrow> 'x runtime \<Rightarrow> outcome list \<times> 'x runtime" where
  "run_targets ctx lg receiver payload index [] w = ([], w)"
| "run_targets ctx lg receiver payload index (t # ts) w =
     (let (out, w1) = send_target ctx lg receiver payload index t w;
          (outs, w2) = run_targets ctx lg receiver payload (Suc index) ts w1
      in (out # outs, w2))"

fun failures :: "('v, 'x) receiver \<Rightarrow> nat \<Rightarrow> ('v, 'x) target list \<Rightarrow> outcome list \<Rightarrow> go_error list" where
  "failures receiver index (t # ts) ((result, attempts, Some e) # outs) =
     DeliveryError (ID receiver) (Type t) (int index) attempts result e
       # failures receiver (Suc index) ts outs"
| "failures receiver index (t # ts) ((result, attempts, None) # outs) =
     failures receiver (Suc index) ts outs"
| "failures receiver index _ _ = []"

definition valid_receiver :: "('v, 'x) receiver \<Rightarrow> bool" where
  "valid_receiver r \<longleftrightarrow> Targets r \<noteq> [] \<and> None \<notin> set (Targets r)"

lemma length_run_targets [simp]:
  "length (fst (run_targets ctx lg r p i ts w)) = length ts"
  by (induction ts arbitrary: i w) (simp_all add: split_beta)

lemma dispatch_targets_run:
  "dispatch_targets ctx lg r p i (map Some ts) errs w =
     (let (outs, w') = run_targets ctx lg r p i ts w in Some (errs @ failures r i ts outs, w'))"
proof (induction ts arbitrary: i errs w)
  case Nil
  then show ?case by simp
next
  case (Cons t ts)
  obtain res att err w1 where s: "send_target ctx lg r p i t w = ((res, att, err), w1)"
    by (metis prod.collapse)
  show ?case
    by (cases err) (simp_all add: s Cons.IH split_beta Let_def)
qed

lemma valid_receiver_targets:
  assumes "valid_receiver r"
  obtains ts where "Targets r = map Some ts" and "ts \<noteq> []"
proof -
  have "\<forall>t \<in> set (Targets r). \<exists>u. t = Some u"
    using assms by (metis not_Some_eq valid_receiver_def)
  then obtain ts where "Targets r = map Some ts"
    using ex_map_conv[of "Targets r" Some] by blast
  moreover have "ts \<noteq> []"
    using assms calculation by (auto simp: valid_receiver_def)
  ultimately show ?thesis by (rule that)
qed

lemma dispatchReceiver_run:
  assumes "Targets r = map Some ts"
  shows "dispatchReceiver ctx lg r p w =
     (let (outs, w') = run_targets ctx lg r p 0 ts w in Some (errors_Join (failures r 0 ts outs), w'))"
  by (simp add: dispatchReceiver_def assms dispatch_targets_run split_beta Let_def)

lemma failures_Nil_iff:
  "length outs = length ts \<Longrightarrow> failures r i ts outs = [] \<longleftrightarrow> (\<forall>out \<in> set outs. snd (snd out) = None)"
  by (induction r i ts outs rule: failures.induct) auto

lemma dispatchReceiver_Some:
  "valid_receiver r \<Longrightarrow> \<exists>e w'. dispatchReceiver ctx lg r p w = Some (e, w')"
  by (elim valid_receiver_targets) (simp add: dispatchReceiver_run split_beta Let_def)

lemma dispatch_receivers_Some:
  "\<forall>r \<in> set rs. valid_receiver r \<Longrightarrow> \<exists>es w'. dispatch_receivers ctx lg p rs errs w = Some (es, w')"
proof (induction rs arbitrary: errs w)
  case Nil
  then show ?case by simp
next
  case (Cons r rs)
  obtain e w' where "dispatchReceiver ctx lg r p w = Some (e, w')"
    using dispatchReceiver_Some[of r ctx lg p w] Cons.prems by auto
  then show ?case using Cons by (cases e) auto
qed

lemma dispatch_Some:
  "\<forall>r \<in> set rs. valid_receiver r \<Longrightarrow> \<exists>e w'. dispatch ctx lg p rs w = Some (e, w')"
  using dispatch_receivers_Some[of rs ctx lg p "[]" w] by (auto simp: dispatch_def)

section \<open>The errors, by index\<close>

text \<open>The errors are those of the failed targets, in target order, each with its index.\<close>

fun target_failure :: "('v, 'x) receiver \<Rightarrow> ('v, 'x) target \<Rightarrow> int \<Rightarrow> outcome \<Rightarrow> go_error list" where
  "target_failure r t i (result, attempts, None) = []"
| "target_failure r t i (result, attempts, Some e) = [DeliveryError (ID r) (Type t) i attempts result e]"

lemma failures_by_index:
  "length outs = length ts \<Longrightarrow>
   failures r k ts outs = concat (map (\<lambda>i. target_failure r (ts ! i) (int k + int i) (outs ! i)) [0..<length ts])"
proof (induction ts arbitrary: k outs)
  case Nil
  then show ?case by simp
next
  case (Cons t ts)
  then obtain out outs' where outs: "outs = out # outs'" "length outs' = length ts" by (cases outs) auto
  obtain res att e where out: "out = (res, att, e)" by (metis prod_cases3)
  have up: "[0..<length (t # ts)] = 0 # map Suc [0..<length ts]" by (simp add: upt_conv_Cons map_Suc_upt del: upt_Suc)
  show ?case
    using Cons.IH[OF outs(2), of "Suc k"] unfolding up
    by (cases e) (simp_all add: outs(1) out comp_def ac_simps)
qed

text \<open>All receivers, each started where the one before it ended.\<close>

fun run_receivers ::
  "go_context \<Rightarrow> logger \<Rightarrow> 'v payload \<Rightarrow> ('v, 'x) receiver list \<Rightarrow> 'x runtime \<Rightarrow> outcome list list \<times> 'x runtime" where
  "run_receivers ctx lg payload [] w = ([], w)"
| "run_receivers ctx lg payload (r # rs) w =
     (let (outs, w1) = run_targets ctx lg r payload 0 (map the (Targets r)) w;
          (rest, w2) = run_receivers ctx lg payload rs w1
      in (outs # rest, w2))"

definition receiver_failures :: "('v, 'x) receiver \<Rightarrow> outcome list \<Rightarrow> go_error list" where
  "receiver_failures r outs = failures r 0 (map the (Targets r)) outs"

lemma dispatch_receivers_run:
  "\<forall>r \<in> set rs. valid_receiver r \<Longrightarrow> dispatch_receivers ctx lg p rs errs w =
     (let (outs, w') = run_receivers ctx lg p rs w
      in Some (errs @ List.map_filter errors_Join (map2 receiver_failures rs outs), w'))"
proof (induction rs arbitrary: errs w)
  case Nil
  then show ?case by (simp add: map_filter_def)
next
  case (Cons r rs)
  obtain ts where ts: "Targets r = map Some ts" using valid_receiver_targets[of r] Cons.prems by auto
  then have the_ts: "map the (Targets r) = ts" by (simp add: comp_def)
  obtain outs w1 where run: "run_targets ctx lg r p 0 ts w = (outs, w1)" by force
  obtain rest w2 where rest: "run_receivers ctx lg p rs w1 = (rest, w2)" by force
  have d: "dispatchReceiver ctx lg r p w = Some (errors_Join (failures r 0 ts outs), w1)"
    by (simp add: dispatchReceiver_run[OF ts] run)
  show ?case
    using Cons.IH[of _ w1] Cons.prems
    by (cases "failures r 0 ts outs")
      (simp_all add: d the_ts run rest receiver_failures_def map_filter_def split_beta)
qed

lemma length_run_receivers [simp]: "length (fst (run_receivers ctx lg p rs w)) = length rs"
  by (induction rs arbitrary: w) (simp_all add: split_beta)

lemma dispatch_run:
  "\<forall>r \<in> set rs. valid_receiver r \<Longrightarrow> dispatch ctx lg p rs w =
     (let (outs, w') = run_receivers ctx lg p rs w
      in Some (errors_Join (List.map_filter errors_Join (map2 receiver_failures rs outs)), w'))"
  by (simp add: dispatch_def dispatch_receivers_run split_beta Let_def)

lemma run_receivers_lengths:
  "(r, outs) \<in> set (zip rs (fst (run_receivers ctx lg p rs w))) \<Longrightarrow> length outs = length (Targets r)"
proof (induction rs arbitrary: w)
  case (Cons r' rs)
  obtain os w1 where os: "run_targets ctx lg r' p 0 (map the (Targets r')) w = (os, w1)" by force
  have "length os = length (Targets r')"
    using length_run_targets[of ctx lg r' p 0 "map the (Targets r')" w] os by simp
  then show ?case using Cons.IH[of w1] Cons.prems by (auto simp: os split_beta)
qed simp

lemma no_failures:
  assumes "(outs, w') = run_receivers ctx lg p rs w"
  shows "errors_Join (List.map_filter errors_Join (map2 receiver_failures rs outs)) = None \<longleftrightarrow>
    (\<forall>os \<in> set outs. \<forall>(result, attempts, e) \<in> set os. e = None)"
proof -
  have "errors_Join (List.map_filter errors_Join (map2 receiver_failures rs outs)) = None \<longleftrightarrow>
      (\<forall>(r, os) \<in> set (zip rs outs). receiver_failures r os = [])"
    by (auto simp: map_filter_def filter_empty_conv)
  also have "\<dots> \<longleftrightarrow> (\<forall>(r, os) \<in> set (zip rs outs). \<forall>out \<in> set os. snd (snd out) = None)"
  proof -
    have "receiver_failures r os = [] \<longleftrightarrow> (\<forall>out \<in> set os. snd (snd out) = None)" if "(r, os) \<in> set (zip rs outs)" for r os
    proof -
      have "length os = length (Targets r)"
        using run_receivers_lengths[of r os rs ctx lg p w] that by (metis assms fst_conv)
      then show ?thesis unfolding receiver_failures_def by (intro failures_Nil_iff) simp
    qed
    then show ?thesis by blast
  qed
  also have "\<dots> \<longleftrightarrow> (\<forall>os \<in> set outs. \<forall>out \<in> set os. snd (snd out) = None)"
  proof -
    have "length rs = length outs" using length_run_receivers[of ctx lg p rs w] by (metis assms fst_conv)
    then have "set outs = snd ` set (zip rs outs)" by (metis map_snd_zip list.set_map)
    then show ?thesis by force
  qed
  finally show ?thesis by (simp add: split_beta)
qed
end
