(* ===== verification/Receivers.thy ===== *)
theory Receivers
  imports Delivery
begin

text \<open>
  \<open>notify/send.go\<close> and \<open>notify/receiver.go\<close>: receiver construction, normalisation,
  validation, routing, and the synchronous \<open>Send\<close>.
\<close>

section \<open>Receiver construction\<close>

definition NewReceiver :: "receiver_id \<Rightarrow> ('v, 'x) target option list \<Rightarrow> ('v, 'x) receiver" where
  "NewReceiver rid targets = \<lparr>ID = rid, Name = id_string rid, Retry = zero_retry,
     Targets = targets, CustomData = None\<rparr>"

text \<open>The fluent setters; on a nil receiver they return nil.\<close>

definition WithName :: "string \<Rightarrow> ('v, 'x) receiver option \<Rightarrow> ('v, 'x) receiver option" where
  "WithName name r = (case r of None \<Rightarrow> None | Some r \<Rightarrow> Some (r\<lparr>Name := name\<rparr>))"

definition WithRetry :: "retry_config \<Rightarrow> ('v, 'x) receiver option \<Rightarrow> ('v, 'x) receiver option" where
  "WithRetry cfg r = (case r of None \<Rightarrow> None | Some r \<Rightarrow> Some (r\<lparr>Retry := cfg\<rparr>))"

definition WithTargets ::
  "('v, 'x) target option list \<Rightarrow> ('v, 'x) receiver option \<Rightarrow> ('v, 'x) receiver option" where
  "WithTargets ts r = (case r of None \<Rightarrow> None | Some r \<Rightarrow> Some (r\<lparr>Targets := Targets r @ ts\<rparr>))"

definition WithCustomData ::
  "'v custom_data \<Rightarrow> ('v, 'x) receiver option \<Rightarrow> ('v, 'x) receiver option" where
  "WithCustomData d r = (case r of None \<Rightarrow> None | Some r \<Rightarrow> Some (r\<lparr>CustomData := d\<rparr>))"

section \<open>Normalisation and validation\<close>

text \<open>
  \<open>normalizeReceivers\<close> drops nil entries, so its result maps IDs to receivers and not to
  pointers that may be nil. Copying the struct, the target slice and the top-level data
  map changes no value. The order of this loop does not matter: the keys are distinct.
\<close>

type_synonym ('v, 'x) normalized = "(receiver_id, ('v, 'x) receiver) go_map"

definition normalize_receiver :: "receiver_id \<Rightarrow> ('v, 'x) receiver \<Rightarrow> ('v, 'x) receiver" where
  "normalize_receiver rid r = r\<lparr>ID := cmp_Or (ReceiverID []) (ID r) rid,
     Name := cmp_Or [] (Name r) (id_string rid)\<rparr>"

definition normalizeReceivers :: "('v, 'x) receivers \<Rightarrow> ('v, 'x) normalized" where
  "normalizeReceivers receivers = fold (\<lambda>(rid, receiver) out. case receiver of
       None \<Rightarrow> out
     | Some r \<Rightarrow> map_set rid (normalize_receiver rid r) out) receivers []"

text \<open>A normalised map passed on as a \<open>Receivers\<close> value.\<close>

definition as_receivers :: "('v, 'x) normalized \<Rightarrow> ('v, 'x) receivers" where
  "as_receivers rs = map (\<lambda>(rid, r). (rid, Some r)) rs"

fun validate_entries :: "(receiver_id \<times> ('v, 'x) receiver) list \<Rightarrow> go_error option" where
  "validate_entries [] = None"
| "validate_entries ((rid, r) # rest) =
     (if Targets r = [] then Some (Errorf ''receiver %q has no targets'' [Quo (id_string rid)] None)
      else if None \<in> set (Targets r) then Some (Errorf ''receiver %q target is nil'' [Quo (id_string rid)] None)
      else validate_entries rest)"

text \<open>The same without comparing targets, for evaluation: functions have no equality.\<close>

lemma validate_entries_code [code]:
  "validate_entries [] = None"
  "validate_entries ((rid, r) # rest) = (case Targets r of
       [] \<Rightarrow> Some (Errorf ''receiver %q has no targets'' [Quo (id_string rid)] None)
     | _ \<Rightarrow> if list_ex Option.is_none (Targets r) then Some (Errorf ''receiver %q target is nil'' [Quo (id_string rid)] None)
           else validate_entries rest)"
  by (auto simp: list_ex_iff Option.is_none_def split: list.splits)

definition validateReceivers :: "('v, 'x) normalized \<Rightarrow> 'x runtime \<Rightarrow> go_error option \<times> 'x runtime" where
  "validateReceivers rs w = (let (entries, w') = map_range rs w in (validate_entries entries, w'))"

definition validateNotificationID :: "string \<Rightarrow> go_error option" where
  "validateNotificationID rid = (if rid = [] then Some (ErrorString ''notification ID is required'') else None)"

text \<open>\<open>NewReceivers\<close>: nil arguments are skipped and a later duplicate overwrites.\<close>

definition NewReceivers :: "('v, 'x) receiver option list \<Rightarrow> ('v, 'x) normalized" where
  "NewReceivers rs = normalizeReceivers
     (fold (\<lambda>receiver out. case receiver of None \<Rightarrow> out | Some r \<Rightarrow> map_set (ID r) (Some r) out) rs [])"

section \<open>Routing\<close>

definition receiverIDs :: "'v notification \<Rightarrow> receiver_id list" where
  "receiverIDs n = (case Router n of None \<Rightarrow> [] | Some ids \<Rightarrow> ids)"

fun resolve_ids ::
  "logger \<Rightarrow> ('v, 'x) normalized \<Rightarrow> receiver_id list \<Rightarrow> (receiver_id, bool) go_map
     \<Rightarrow> ('v, 'x) receiver list \<Rightarrow> 'x runtime \<Rightarrow> ('v, 'x) receiver list \<times> 'x runtime" where
  "resolve_ids lg rs [] seen out w = (out, w)"
| "resolve_ids lg rs (rid # ids) seen out w =
     (if map_get seen rid = Some True then resolve_ids lg rs ids seen out w
      else case map_get rs rid of
          None \<Rightarrow> resolve_ids lg rs ids (map_set rid True seen) out
            (log_to lg LevelWarn ''receiver not found'' [(''receiverID'', AStr (id_string rid))] w)
        | Some r \<Rightarrow> resolve_ids lg rs ids (map_set rid True seen) (out @ [r]) w)"

text \<open>
  \<open>slices.SortFunc\<close> need not be stable; a stable sort of every possible iteration order
  gives the same set of possible results.
\<close>

definition resolveReceivers ::
  "logger \<Rightarrow> ('v, 'x) normalized \<Rightarrow> receiver_id list \<Rightarrow> 'x runtime
     \<Rightarrow> ('v, 'x) receiver list \<times> 'x runtime" where
  "resolveReceivers lg rs ids w =
     (if ids = [] then
        let (entries, w') = map_range rs w in (sort_key ID (map snd entries), w')
      else resolve_ids lg rs ids [] [] w)"

section \<open>Synchronous delivery\<close>

text \<open>\<open>None\<close> is a panic of the delivery engine.\<close>

definition SendSync ::
  "go_context option \<Rightarrow> 'v notification option \<Rightarrow> ('v, 'x) receivers \<Rightarrow> logger option \<Rightarrow> 'x runtime
     \<Rightarrow> (go_error option \<times> 'x runtime) option" where
  "SendSync ctx notification receivers lg w =
     (case ctx of
        None \<Rightarrow> Some (Some (ErrorString ''context is nil''), w)
      | Some ctx \<Rightarrow>
     (case notification of
        None \<Rightarrow> Some (Some (ErrorString ''notification is nil''), w)
      | Some n \<Rightarrow>
     (case validateNotificationID (NotificationID n) of
        Some e \<Rightarrow> Some (Some e, w)
      | None \<Rightarrow>
     (let lg = (case lg of None \<Rightarrow> Discard | Some l \<Rightarrow> l);
          rs = normalizeReceivers receivers;
          (verr, w1) = validateReceivers rs w
      in case verr of
           Some e \<Rightarrow> Some (Some e, w1)
         | None \<Rightarrow>
             (let (resolved, w2) = resolveReceivers lg rs (receiverIDs n) w1
              in if resolved = [] then Some (Some (ErrorString ''no receivers resolved''), w2)
                 else dispatch ctx lg
                   \<lparr>Notification = Some n, PayloadReceiver = [], PayloadCustomData = None\<rparr> resolved w2)))))"

definition SendTo ::
  "go_context option \<Rightarrow> 'v notification option \<Rightarrow> ('v, 'x) receiver option list \<Rightarrow> 'x runtime
     \<Rightarrow> (go_error option \<times> 'x runtime) option" where
  "SendTo ctx n rs w = SendSync ctx n (as_receivers (NewReceivers rs)) None w"

section \<open>Lemmas: normalisation\<close>

lemma normalize_receiver_idem [simp]:
  "normalize_receiver rid (normalize_receiver rid r) = normalize_receiver rid r"
  by (simp add: normalize_receiver_def)

lemma normalize_receiver_sel [simp]:
  "Targets (normalize_receiver rid r) = Targets r"
  "Retry (normalize_receiver rid r) = Retry r"
  "CustomData (normalize_receiver rid r) = CustomData r"
  "ID (normalize_receiver rid r) = cmp_Or (ReceiverID []) (ID r) rid"
  by (simp_all add: normalize_receiver_def)

lemma normalize_fold:
  assumes "map_ok rs"
  shows "map_get (fold (\<lambda>(rid, receiver) out. case receiver of None \<Rightarrow> out
       | Some r \<Rightarrow> map_set rid (normalize_receiver rid r) out) rs out) k =
     (case map_get rs k of Some (Some r) \<Rightarrow> Some (normalize_receiver k r) | _ \<Rightarrow> map_get out k)"
  using assms
proof (induction rs arbitrary: out)
  case Nil
  then show ?case by simp
next
  case (Cons e rs)
  obtain rid r where e: "e = (rid, r)" by force
  have ok: "map_ok rs" and new: "map_get rs rid = None"
    using Cons.prems map_get_None[of rs rid] by (simp_all add: e map_ok_Cons)
  show ?case
    using Cons.IH[OF ok] new by (cases r) (auto simp: e split: option.splits)
qed

lemma map_get_normalizeReceivers:
  "map_ok rs \<Longrightarrow> map_get (normalizeReceivers rs) k =
     (case map_get rs k of Some (Some r) \<Rightarrow> Some (normalize_receiver k r) | _ \<Rightarrow> None)"
  by (simp add: normalizeReceivers_def normalize_fold split: option.splits)

lemma map_ok_normalizeReceivers [simp, intro]: "map_ok (normalizeReceivers rs)"
proof -
  have "map_ok (fold (\<lambda>(rid, receiver) out. case receiver of None \<Rightarrow> out
       | Some r \<Rightarrow> map_set rid (normalize_receiver rid r) out) rs out)" if "map_ok out" for out
    using that by (induction rs arbitrary: out) (auto split: option.splits)
  then show ?thesis by (simp add: normalizeReceivers_def)
qed

lemma as_receivers_sel [simp]:
  "map_ok (as_receivers rs) = map_ok rs"
  "map_get (as_receivers rs) k = map_option Some (map_get rs k)"
proof -
  have "map fst (as_receivers rs) = map fst rs"
    by (simp add: as_receivers_def split_beta comp_def)
  then show "map_ok (as_receivers rs) = map_ok rs"
    by (simp add: map_ok_def)
  show "map_get (as_receivers rs) k = map_option Some (map_get rs k)"
    by (induction rs) (auto simp: as_receivers_def)
qed

lemma normalize_again:
  assumes "map_ok rs"
  shows "map_get (normalizeReceivers (as_receivers (normalizeReceivers rs))) k = map_get (normalizeReceivers rs) k"
  using assms by (auto simp: map_get_normalizeReceivers split: option.splits)

section \<open>Lemmas: validation\<close>

lemma validate_entries_None: "validate_entries es = None \<longleftrightarrow> (\<forall>(rid, r) \<in> set es. valid_receiver r)"
  by (induction es rule: validate_entries.induct) (auto simp: valid_receiver_def)

lemma validate_entries_Some:
  "validate_entries es = Some e \<Longrightarrow> \<exists>(rid, r) \<in> set es. \<not> valid_receiver r \<and> Quo (id_string rid) \<in> set (error_text e)"
  by (induction es rule: validate_entries.induct) (fastforce simp: valid_receiver_def split: if_splits)+

lemma validateReceivers_None:
  "fst (validateReceivers rs w) = None \<longleftrightarrow> (\<forall>(rid, r) \<in> set rs. valid_receiver r)"
  by (simp add: validateReceivers_def split_beta validate_entries_None)

section \<open>Lemmas: routing\<close>

text \<open>The first occurrence of every ID, in order.\<close>

definition first_occurrences :: "'a list \<Rightarrow> 'a list" where
  "first_occurrences xs = rev (remdups (rev xs))"

lemma first_occurrences_snoc:
  "first_occurrences (xs @ [x]) = (if x \<in> set xs then first_occurrences xs else first_occurrences xs @ [x])"
  by (simp add: first_occurrences_def)

lemma first_occurrences_set [simp]: "set (first_occurrences xs) = set xs" "distinct (first_occurrences xs)"
  by (simp_all add: first_occurrences_def)

lemma resolve_ids_spec:
  assumes "\<And>rid. map_get seen rid = Some True \<longleftrightarrow> rid \<in> set pre"
    and "out = List.map_filter (map_get rs) (first_occurrences pre)"
  shows "fst (resolve_ids lg rs ids seen out w) = List.map_filter (map_get rs) (first_occurrences (pre @ ids))"
  using assms
proof (induction ids arbitrary: pre seen out w)
  case Nil
  then show ?case by simp
next
  case (Cons rid ids)
  have *: "pre @ rid # ids = (pre @ [rid]) @ ids" by simp
  show ?case
  proof (cases "rid \<in> set pre")
    case True
    then have "fst (resolve_ids lg rs ids seen out w) =
        List.map_filter (map_get rs) (first_occurrences ((pre @ [rid]) @ ids))"
      using Cons.prems by (intro Cons.IH) (auto simp: first_occurrences_snoc)
    then show ?thesis using True Cons.prems(1) by simp
  next
    case False
    have "fst (resolve_ids lg rs ids (map_set rid True seen) (out @ (case map_get rs rid of None \<Rightarrow> [] | Some r \<Rightarrow> [r])) v) =
        List.map_filter (map_get rs) (first_occurrences ((pre @ [rid]) @ ids))" for v
      using Cons.prems False
      by (intro Cons.IH) (auto simp: first_occurrences_snoc map_filter_def split: option.splits)
    then show ?thesis using False Cons.prems(1) by (auto split: option.splits)
  qed
qed

lemma resolveReceivers_routed:
  "ids \<noteq> [] \<Longrightarrow> fst (resolveReceivers lg rs ids w) = List.map_filter (map_get rs) (first_occurrences ids)"
  using resolve_ids_spec[of "[]" "[]" "[]" rs lg ids w]
  by (simp add: resolveReceivers_def first_occurrences_def map_filter_def)

lemma resolveReceivers_all:
  "sorted (map ID (fst (resolveReceivers lg rs [] w))) \<and>
   mset (fst (resolveReceivers lg rs [] w)) = mset (map snd rs)"
  by (simp add: resolveReceivers_def split_beta)

lemma resolveReceivers_set:
  "r \<in> set (fst (resolveReceivers lg rs ids w)) \<Longrightarrow> r \<in> snd ` set rs"
proof (cases "ids = []")
  case True
  assume "r \<in> set (fst (resolveReceivers lg rs ids w))"
  then show ?thesis using True resolveReceivers_all[of lg rs w] by (metis list.set_map mset_eq_setD)
next
  case False
  assume "r \<in> set (fst (resolveReceivers lg rs ids w))"
  then obtain rid where "map_get rs rid = Some r"
    using False by (auto simp: resolveReceivers_routed map_filter_def)
  then show ?thesis by (force simp: map_get_def dest: map_of_SomeD)
qed

text \<open>With distinct IDs the broadcast order does not depend on the runtime's choices.\<close>

lemma resolveReceivers_deterministic:
  assumes "distinct (map (ID \<circ> snd) rs)"
  shows "fst (resolveReceivers lg rs [] w) = fst (resolveReceivers lg' rs [] w')"
proof -
  let ?a = "fst (resolveReceivers lg rs [] w)" and ?b = "fst (resolveReceivers lg' rs [] w')"
  have mset: "mset ?a = mset (map snd rs)" "mset ?b = mset (map snd rs)"
    and sorted: "sorted (map ID ?a)" "sorted (map ID ?b)"
    using resolveReceivers_all by blast+
  have "inj_on ID (set (map snd rs))" and d: "distinct (map snd rs)"
    using assms by (auto simp: distinct_map inj_on_def)
  moreover have "set ?a = set (map snd rs)" "set ?b = set (map snd rs)"
    using mset mset_eq_setD by blast+
  moreover have "distinct ?a" "distinct ?b"
    using d mset mset_eq_imp_distinct_iff by blast+
  ultimately show ?thesis
    using sorted by (intro map_sorted_distinct_set_unique[of ID]) (simp_all add: distinct_map)
qed

section \<open>Lemmas: construction\<close>

lemma NewReceivers_fold:
  "map_ok out \<Longrightarrow> map_ok (fold (\<lambda>receiver out. case receiver of None \<Rightarrow> out | Some r \<Rightarrow> map_set (ID r) (Some r) out) rs out) \<and>
   map_get (fold (\<lambda>receiver out. case receiver of None \<Rightarrow> out | Some r \<Rightarrow> map_set (ID r) (Some r) out) rs out) k =
     (case List.find (\<lambda>r. ID r = k) (rev (List.map_filter id rs)) of Some r \<Rightarrow> Some (Some r) | None \<Rightarrow> map_get out k)"
proof (induction rs arbitrary: out rule: rev_induct)
  case Nil
  then show ?case by (simp add: map_filter_def)
next
  case (snoc r rs)
  then show ?case by (cases r) (auto simp: map_filter_def split: option.splits)
qed

lemma map_get_NewReceivers:
  "map_get (NewReceivers rs) k = map_option (normalize_receiver k) (List.find (\<lambda>r. ID r = k) (rev (List.map_filter id rs)))"
  using NewReceivers_fold[of "[]" rs k]
  by (auto simp: NewReceivers_def map_get_normalizeReceivers split: option.splits)

section \<open>Lemmas: Send\<close>

lemma resolved_valid:
  assumes "\<forall>(rid, r) \<in> set rs. valid_receiver r"
  shows "\<forall>r \<in> set (fst (resolveReceivers lg rs ids w)). valid_receiver r"
  using assms resolveReceivers_set[of _ lg rs ids w] by fastforce

lemma validateReceivers_frame [simp]:
  "now (snd (validateReceivers rs w)) = now w" "logs (snd (validateReceivers rs w)) = logs w"
  "world (snd (validateReceivers rs w)) = world w"
  by (simp_all add: validateReceivers_def split_beta)

lemma all_valid_normalized:
  assumes "map_ok receivers"
  shows "(\<forall>(rid, r) \<in> set (normalizeReceivers receivers). valid_receiver r) \<longleftrightarrow>
    (\<forall>rid r. map_get receivers rid = Some (Some r) \<longrightarrow> valid_receiver r)"
proof -
  have get: "(rid, r) \<in> set (normalizeReceivers receivers) \<longleftrightarrow>
      (\<exists>r0. map_get receivers rid = Some (Some r0) \<and> r = normalize_receiver rid r0)" for rid r
    using map_get_iff[OF map_ok_normalizeReceivers, of receivers rid r]
    by (auto simp: map_get_normalizeReceivers[OF assms] split: option.splits)
  have "valid_receiver (normalize_receiver rid r) = valid_receiver r" for rid and r :: "('a, 'b) receiver"
    by (simp add: valid_receiver_def)
  then show ?thesis using get by fastforce
qed

end
