(* ===== verification/Store.thy ===== *)
theory Store
  imports Receivers
begin

text \<open>
  \<open>notify/store.go\<close>: the in-memory store of queued notifications, as an interface (a
  locale with the laws its clients use) and its implementation on a Go map. The mutex of
  the store makes each operation atomic, which is what a single definition is.

  Queue IDs are UUIDv7 values, compared for equality only; they are natural numbers here.
\<close>

type_synonym uuid = nat

section \<open>The interface\<close>

locale notification_store =
  fixes new :: 's
    and put :: "uuid \<Rightarrow> 'n \<Rightarrow> 's \<Rightarrow> 's"
    and get :: "'s \<Rightarrow> uuid \<Rightarrow> 'n option"
    and delete :: "uuid \<Rightarrow> 's \<Rightarrow> 's"
    and ok :: "'s \<Rightarrow> bool"
  assumes new_ok: "ok new"
    and put_ok: "ok s \<Longrightarrow> ok (put q n s)"
    and delete_ok: "ok s \<Longrightarrow> ok (delete q s)"
    and get_new: "get new q = None"
    and get_put: "ok s \<Longrightarrow> get (put q n s) q' = (if q' = q then Some n else get s q')"
    and get_delete: "ok s \<Longrightarrow> get (delete q s) q' = (if q' = q then None else get s q')"
begin

text \<open>The IDs stored, and how the operations change them.\<close>

lemma keys_new: "{q. get new q \<noteq> None} = {}"
  by (simp add: get_new)

lemma keys_put: "ok s \<Longrightarrow> {q'. get (put q n s) q' \<noteq> None} = insert q {q'. get s q' \<noteq> None}"
  by (auto simp: get_put)

lemma keys_delete: "ok s \<Longrightarrow> {q'. get (delete q s) q' \<noteq> None} = {q'. get s q' \<noteq> None} - {q}"
  by (auto simp: get_delete)

text \<open>Storing and deleting again leaves every other entry as it was.\<close>

lemma put_delete_other: "ok s \<Longrightarrow> q' \<noteq> q \<Longrightarrow> get (delete q (put q n s)) q' = get s q'"
  by (simp add: get_put get_delete put_ok)

lemma delete_twice: "ok s \<Longrightarrow> get (delete q (delete q s)) q' = get (delete q s) q'"
  by (simp add: get_delete delete_ok)

end

section \<open>The implementation\<close>

type_synonym 'n store = "(uuid, 'n) go_map"

definition newStore :: "'n store" where
  "newStore = []"

definition store_put :: "uuid \<Rightarrow> 'n \<Rightarrow> 'n store \<Rightarrow> 'n store" where
  "store_put q n s = map_set q n s"

definition store_get :: "'n store \<Rightarrow> uuid \<Rightarrow> 'n option" where
  "store_get s q = map_get s q"

definition store_delete :: "uuid \<Rightarrow> 'n store \<Rightarrow> 'n store" where
  "store_delete q s = map_delete q s"

lemmas store_defs = newStore_def store_put_def store_get_def store_delete_def

interpretation ns: notification_store newStore store_put store_get store_delete map_ok
  by unfold_locales (simp_all add: store_defs)

lemma store_empty:
  assumes "\<And>q. store_get s q = None"
  shows "s = []"
proof (rule ccontr)
  assume "s \<noteq> []"
  then obtain q n t where "s = (q, n) # t" by (metis list.exhaust surj_pair)
  then have "store_get s q = Some n" by (simp add: store_get_def)
  with assms show False by simp
qed

end
