(* ===== verification/Dispatcher.thy ===== *)
theory Dispatcher
  imports Store
begin

text \<open>
  \<open>notify/dispatcher.go\<close>: what a worker does with one notification between taking it off
  the queue and completing it. The queue operations around it are steps of the manager's
  state machine (\<open>Manager\<close>).
\<close>

text \<open>The dependencies \<open>NewManager\<close> prepares; they never change.\<close>

record ('v, 'x) dispatcher =
  d_receivers :: "('v, 'x) normalized"
  d_logger :: logger
  d_workers :: nat
  d_onComplete :: bool

definition newDispatcher ::
  "('v, 'x) normalized \<Rightarrow> logger \<Rightarrow> nat \<Rightarrow> bool \<Rightarrow> ('v, 'x) dispatcher" where
  "newDispatcher rs lg n cb = \<lparr>d_receivers = rs, d_logger = lg, d_workers = n, d_onComplete = cb\<rparr>"

definition dispatcher_resolveReceivers ::
  "('v, 'x) dispatcher \<Rightarrow> receiver_id list \<Rightarrow> 'x runtime \<Rightarrow> ('v, 'x) receiver list \<times> 'x runtime" where
  [simp]: "dispatcher_resolveReceivers d ids w = resolveReceivers (d_logger d) (d_receivers d) ids w"

text \<open>
  The body of \<open>dispatch\<close> after \<open>onDequeue\<close>: resolve, deliver, log; the value is the
  \<open>outcome\<close> the deferred completion reports, \<open>None\<close> a panic of the delivery engine.
\<close>

definition deliver_outcome ::
  "('v, 'x) dispatcher \<Rightarrow> go_context \<Rightarrow> uuid \<Rightarrow> 'v notification \<Rightarrow> 'x runtime
     \<Rightarrow> (go_error option \<times> 'x runtime) option" where
  "deliver_outcome d ctx q n w =
     (let ids = [(''queueID'', AInt (int q)), (''notificationID'', AStr (NotificationID n))];
          (receivers, w1) = dispatcher_resolveReceivers d (receiverIDs n) w
      in if receivers = [] then
           Some (Some (ErrorString ''no receivers resolved''),
                 log_to (d_logger d) LevelWarn ''no receivers resolved'' ids w1)
         else case dispatch ctx (d_logger d)
             \<lparr>Notification = Some n, PayloadReceiver = [], PayloadCustomData = None\<rparr> receivers w1 of
           None \<Rightarrow> None
         | Some (Some e, w2) \<Rightarrow> Some (Some e,
             log_to (d_logger d) LevelError ''notification delivery failed'' (ids @ [(''error'', AErr e)]) w2)
         | Some (None, w2) \<Rightarrow> Some (None, log_to (d_logger d) LevelInfo ''notification delivered'' ids w2))"

definition valid_dispatcher :: "('v, 'x) dispatcher \<Rightarrow> bool" where
  "valid_dispatcher d \<longleftrightarrow> map_ok (d_receivers d) \<and> (\<forall>(rid, r) \<in> set (d_receivers d). valid_receiver r)
     \<and> 0 < d_workers d"

text \<open>With the receivers \<open>NewManager\<close> accepts, a delivery always returns.\<close>

lemma deliver_outcome_Some:
  assumes "valid_dispatcher d"
  shows "\<exists>err w'. deliver_outcome d ctx q n w = Some (err, w')"
proof -
  obtain rs w1 where r: "resolveReceivers (d_logger d) (d_receivers d) (receiverIDs n) w = (rs, w1)"
    by force
  have "\<forall>r \<in> set rs. valid_receiver r"
    using resolved_valid[of "d_receivers d" "d_logger d" "receiverIDs n" w] assms r
    by (simp add: valid_dispatcher_def)
  then obtain e w2 where "dispatch ctx (d_logger d)
      \<lparr>Notification = Some n, PayloadReceiver = [], PayloadCustomData = None\<rparr> rs w1 = Some (e, w2)"
    using dispatch_Some by blast
  then show ?thesis
    by (cases "rs = []"; cases e) (simp_all add: deliver_outcome_def r Let_def)
qed

end
