(* ===== verification/Go_Channel.thy ===== *)
theory Go_Channel
  imports Prelude
begin

text \<open>
  Buffered Go channels, as the manager uses them: an interface (a locale with the laws of
  a bounded first-in first-out queue that can be closed) and the model of the runtime's
  channels. A send on a closed channel and a second close panic.
\<close>

section \<open>The interface\<close>

datatype 'c send_result = Sent 'c | SendBlocks | SendPanics

datatype ('a, 'c) recv_result = Received 'a 'c | ClosedEmpty | RecvBlocks

locale bounded_channel =
  fixes make :: "nat \<Rightarrow> 'c"
    and send :: "'a \<Rightarrow> 'c \<Rightarrow> 'c send_result"
    and recv :: "'c \<Rightarrow> ('a, 'c) recv_result"
    and close :: "'c \<Rightarrow> 'c option"
    and items :: "'c \<Rightarrow> 'a list"
    and capacity :: "'c \<Rightarrow> nat"
    and closed :: "'c \<Rightarrow> bool"
  assumes make: "items (make n) = [] \<and> capacity (make n) = n \<and> \<not> closed (make n)"
    and send_closed: "closed c \<Longrightarrow> send x c = SendPanics"
    and send_full: "\<not> closed c \<Longrightarrow> capacity c \<le> length (items c) \<Longrightarrow> send x c = SendBlocks"
    and send_room: "\<not> closed c \<Longrightarrow> length (items c) < capacity c \<Longrightarrow>
      \<exists>c'. send x c = Sent c' \<and> items c' = items c @ [x] \<and> capacity c' = capacity c \<and> \<not> closed c'"
    and recv_item: "items c = x # xs \<Longrightarrow>
      \<exists>c'. recv c = Received x c' \<and> items c' = xs \<and> capacity c' = capacity c \<and> closed c' = closed c"
    and recv_closed: "items c = [] \<Longrightarrow> closed c \<Longrightarrow> recv c = ClosedEmpty"
    and recv_empty: "items c = [] \<Longrightarrow> \<not> closed c \<Longrightarrow> recv c = RecvBlocks"
    and close_open: "\<not> closed c \<Longrightarrow>
      \<exists>c'. close c = Some c' \<and> items c' = items c \<and> capacity c' = capacity c \<and> closed c'"
    and close_closed: "closed c \<Longrightarrow> close c = None"
begin

lemma sent: "send x c = Sent c' \<Longrightarrow>
   \<not> closed c \<and> length (items c) < capacity c \<and> items c' = items c @ [x] \<and>
   capacity c' = capacity c \<and> \<not> closed c'"
  using send_closed[of c x] send_full[of c x] send_room[of c x]
  by (cases "closed c"; cases "length (items c) < capacity c") auto

lemma received: "recv c = Received x c' \<Longrightarrow>
   items c = x # items c' \<and> capacity c' = capacity c \<and> closed c' = closed c"
  using recv_item[of c] recv_closed[of c] recv_empty[of c]
  by (cases "items c"; cases "closed c") auto

lemma closed_empty: "recv c = ClosedEmpty \<Longrightarrow> items c = [] \<and> closed c"
  using recv_item[of c] recv_empty[of c] by (cases "items c"; cases "closed c") auto

lemma send_panics_iff: "send x c = SendPanics \<longleftrightarrow> closed c"
  using send_closed[of c x] send_full[of c x] send_room[of c x]
  by (cases "closed c"; cases "length (items c) < capacity c") auto

lemma send_bound: "send x c = Sent c' \<Longrightarrow> length (items c') \<le> capacity c'"
  using sent by fastforce

text \<open>What was sent first is received first.\<close>

lemma send_recv: "send x c = Sent c' \<Longrightarrow> items c = y # ys \<Longrightarrow> \<exists>c''. recv c' = Received y c'' \<and> items c'' = ys @ [x]"
  using sent recv_item by fastforce

end

section \<open>The runtime's channels\<close>

record 'a channel =
  buffer :: "'a list"
  chan_cap :: nat
  chan_closed :: bool

definition make_chan :: "nat \<Rightarrow> 'a channel" where
  "make_chan n = \<lparr>buffer = [], chan_cap = n, chan_closed = False\<rparr>"

definition chan_send :: "'a \<Rightarrow> 'a channel \<Rightarrow> 'a channel send_result" where
  "chan_send x c =
     (if chan_closed c then SendPanics
      else if length (buffer c) < chan_cap c then Sent (c\<lparr>buffer := buffer c @ [x]\<rparr>)
      else SendBlocks)"

definition chan_recv :: "'a channel \<Rightarrow> ('a, 'a channel) recv_result" where
  "chan_recv c = (case buffer c of
       x # xs \<Rightarrow> Received x (c\<lparr>buffer := xs\<rparr>)
     | [] \<Rightarrow> if chan_closed c then ClosedEmpty else RecvBlocks)"

definition chan_close :: "'a channel \<Rightarrow> 'a channel option" where
  "chan_close c = (if chan_closed c then None else Some (c\<lparr>chan_closed := True\<rparr>))"

lemmas chan_defs = make_chan_def chan_send_def chan_recv_def chan_close_def

interpretation ch: bounded_channel make_chan chan_send chan_recv chan_close buffer chan_cap chan_closed
  by unfold_locales (auto simp: chan_defs)

end
