(* ===== verification/Manager.thy ===== *)
theory Manager
  imports Dispatcher Go_Channel
begin

text \<open>
  \<open>notify/manager.go\<close> with the queue side of \<open>notify/dispatcher.go\<close>: the manager's state,
  one definition per atomic action of a goroutine, and the interleaving of all of them.

  A goroutine is a program counter with the local variables that are alive at it. The
  mutex \<open>m.mu\<close> is explicit where its critical section is more than one action
  (\<open>Enqueue\<close>); \<open>Start\<close> and \<open>stop\<close> run their critical sections in one action, which
  needs the mutex to be free. Receives, sends and closes of channels, and the calls of the
  store, are single actions.
\<close>

section \<open>Configuration\<close>

record managerConfig =
  cfg_workers :: int
  cfg_capacity :: int
  cfg_onComplete :: bool

type_synonym ManagerOption = "managerConfig \<Rightarrow> managerConfig"

definition WithOnComplete :: "bool \<Rightarrow> ManagerOption" where
  "WithOnComplete fn c = c\<lparr>cfg_onComplete := fn\<rparr>"

definition WithQueueCapacity :: "int \<Rightarrow> ManagerOption" where
  "WithQueueCapacity n c = c\<lparr>cfg_capacity := n\<rparr>"

definition WithWorkers :: "int \<Rightarrow> ManagerOption" where
  "WithWorkers n c = (if 0 < n then c\<lparr>cfg_workers := n\<rparr> else c)"

definition apply_options :: "ManagerOption option list \<Rightarrow> managerConfig \<Rightarrow> managerConfig" where
  "apply_options opts cfg = fold (\<lambda>opt c. case opt of None \<Rightarrow> c | Some f \<Rightarrow> f c) opts cfg"

section \<open>Goroutines\<close>

record completion =
  QueueID :: uuid
  CompletionNotificationID :: string
  Err :: "go_error option"

text \<open>
  A call of \<open>Enqueue\<close>: at the \<open>select\<close>; with a slot, waiting for the mutex; holding the
  mutex; after \<open>store.put\<close>; returned. \<open>ctx\<close> is the error of its context once it is done.
\<close>

datatype 'v producer =
    PSelect (p_ctx: "go_error option") uuid "'v notification"
  | PLock (p_ctx: "go_error option") uuid "'v notification"
  | PCheck (p_ctx: "go_error option") uuid "'v notification"
  | PSend (p_ctx: "go_error option") uuid "'v notification"
  | PReturn uuid "go_error option"

text \<open>
  A worker: at the \<open>select\<close> of \<open>start\<close>; with a queue ID; after \<open>store.get\<close>; after
  \<open>store.delete\<close>; after \<open>onDequeue\<close>; with the outcome; finished.
\<close>

datatype 'v worker =
    WLoop
  | WGot uuid
  | WFound uuid "'v notification"
  | WDeleted uuid "'v notification"
  | WDeliver uuid "'v notification"
  | WComplete uuid "'v notification" "go_error option"
  | WExit

text \<open>The goroutine \<open>finish\<close>.\<close>

datatype 'v finisher =
    FWait
  | FStop
  | FRange
  | FGot uuid
  | FFound uuid "'v notification option"
  | FDeleted uuid "'v notification option"
  | FReleased uuid "'v notification option"
  | FDone

text \<open>
  A call of \<open>Shutdown\<close>, or of \<open>Wait\<close>, which is the part from \<open>CWait False\<close> on:
  the flag says whether the end of the context leads to \<open>stop(false)\<close>.
\<close>

datatype caller =
    CStop
  | CWait bool
  | CAbort go_error
  | CReturn "go_error option"

section \<open>The manager's state\<close>

text \<open>
  \<open>run_ctx\<close> is \<open>None\<close> while \<open>runCtx\<close> is nil and else says whether it is canceled;
  \<open>after_func\<close> is the registered \<open>context.AfterFunc\<close> that has not run. \<open>callbacks\<close> are
  the calls of \<open>onComplete\<close>. Three fields are history: \<open>admitted\<close> the notifications
  sent to the mailbox, \<open>finished\<close> the ones completed (with a flag for those \<open>finish\<close>
  discarded), \<open>panicked\<close> whether a channel operation has panicked.
\<close>

record 'v manager =
  m_store :: "'v notification store"
  mailbox :: "uuid channel"
  slots :: "unit channel"
  lock :: "nat option"
  started :: bool
  stopped :: bool
  finishing :: bool
  stopping :: "unit channel"
  m_done :: "unit channel"
  run_ctx :: "bool option"
  after_func :: bool
  producers :: "'v producer list"
  workers :: "'v worker list"
  finishers :: "'v finisher list"
  callers :: "caller list"
  next_uuid :: uuid
  callbacks :: "completion list"
  admitted :: "(uuid \<times> 'v notification) list"
  finished :: "(completion \<times> bool) list"
  panicked :: bool

definition new_manager :: "nat \<Rightarrow> 'v manager" where
  "new_manager capacity = \<lparr>m_store = newStore, mailbox = make_chan capacity, slots = make_chan capacity,
     lock = None, started = False, stopped = False, finishing = False, stopping = make_chan 0,
     m_done = make_chan 0, run_ctx = None, after_func = False, producers = [], workers = [],
     finishers = [], callers = [], next_uuid = 1, callbacks = [], admitted = [], finished = [],
     panicked = False\<rparr>"

definition NewManager ::
  "('v, 'x) receivers \<Rightarrow> logger option \<Rightarrow> ManagerOption option list \<Rightarrow> 'x runtime
     \<Rightarrow> (go_error + ('v, 'x) dispatcher \<times> 'v manager) \<times> 'x runtime" where
  "NewManager receivers lg opts w =
     (let cfg = apply_options opts \<lparr>cfg_workers = 1, cfg_capacity = 128, cfg_onComplete = False\<rparr>
      in if cfg_capacity cfg < 1 then
           (Inl (ErrorString ''queue capacity must be greater than zero''), w)
         else if cfg_workers cfg \<le> 0 then
           (Inl (ErrorString ''workers must be greater than zero''), w)
         else
           let lg = (case lg of None \<Rightarrow> Discard | Some l \<Rightarrow> l);
               rs = normalizeReceivers receivers;
               (verr, w1) = validateReceivers rs w
           in case verr of
                Some e \<Rightarrow> (Inl e, w1)
              | None \<Rightarrow> (Inr (newDispatcher rs lg (nat (cfg_workers cfg)) (cfg_onComplete cfg),
                             new_manager (nat (cfg_capacity cfg))), w1))"

text \<open>\<open>Manager.Receivers\<close>: snapshots of the receivers, sorted by ID.\<close>

definition Manager_Receivers :: "('v, 'x) dispatcher option \<Rightarrow> 'x runtime \<Rightarrow> ('v, 'x) receiver list \<times> 'x runtime" where
  "Manager_Receivers m w = (case m of None \<Rightarrow> ([], w)
     | Some d \<Rightarrow> (let (entries, w') = map_range (normalizeReceivers (as_receivers (d_receivers d))) w
                 in (sort_key ID (map snd entries), w')))"

section \<open>Argument checks\<close>

text \<open>
  The checks before the first shared access. A context argument is \<open>None\<close> for nil, else
  the error it reports at the time of the call.
\<close>

definition Enqueue_args ::
  "bool \<Rightarrow> go_error option option \<Rightarrow> 'v notification option \<Rightarrow> go_error option" where
  "Enqueue_args m_nil ctx n =
     (if m_nil then Some (ErrorString ''manager is nil'')
      else case ctx of None \<Rightarrow> Some (ErrorString ''context is nil'')
      | Some (Some e) \<Rightarrow> Some e
      | Some None \<Rightarrow>
          (case n of None \<Rightarrow> Some (ErrorString ''notification is nil'')
           | Some n \<Rightarrow> validateNotificationID (NotificationID n)))"

definition Start_args :: "bool \<Rightarrow> go_error option option \<Rightarrow> go_error option" where
  "Start_args m_nil ctx =
     (if m_nil then Some (ErrorString ''manager is nil'')
      else case ctx of None \<Rightarrow> Some (ErrorString ''context is nil'') | Some err \<Rightarrow> err)"

definition Wait_args :: "bool \<Rightarrow> bool \<Rightarrow> go_error option" where
  "Wait_args m_nil ctx_nil =
     (if m_nil then Some (ErrorString ''manager is nil'')
      else if ctx_nil then Some (ErrorString ''context is nil'') else None)"

section \<open>Actions\<close>

text \<open>An action is \<open>None\<close> where the goroutine cannot take it: it is elsewhere, or it blocks.\<close>

text \<open>\<open>Enqueue\<close>, up to the \<open>select\<close>: a rejected call returns, an accepted one gets an ID.\<close>

definition Enqueue_call ::
  "go_error option option \<Rightarrow> 'v notification option \<Rightarrow> 'v manager \<Rightarrow> 'v manager option" where
  "Enqueue_call ctx n m = (case Enqueue_args False ctx n of
       Some e \<Rightarrow> Some (m\<lparr>producers := producers m @ [PReturn 0 (Some e)]\<rparr>)
     | None \<Rightarrow> (case n of None \<Rightarrow> None
         | Some n \<Rightarrow> Some (m\<lparr>producers := producers m @ [PSelect None (next_uuid m) n],
                           next_uuid := Suc (next_uuid m)\<rparr>)))"

definition set_producer :: "nat \<Rightarrow> 'v producer \<Rightarrow> 'v manager \<Rightarrow> 'v manager" where
  "set_producer i p m = m\<lparr>producers := (producers m)[i := p]\<rparr>"

definition producer_at :: "'v manager \<Rightarrow> nat \<Rightarrow> 'v producer option" where
  "producer_at m i = (if i < length (producers m) then Some (producers m ! i) else None)"

text \<open>The context of a waiting call ends.\<close>

definition Enqueue_cancel :: "nat \<Rightarrow> go_error \<Rightarrow> 'v manager \<Rightarrow> 'v manager option" where
  "Enqueue_cancel i e m = (case producer_at m i of
       Some (PSelect None q n) \<Rightarrow> Some (set_producer i (PSelect (Some e) q n) m)
     | Some (PLock None q n) \<Rightarrow> Some (set_producer i (PLock (Some e) q n) m)
     | Some (PCheck None q n) \<Rightarrow> Some (set_producer i (PCheck (Some e) q n) m)
     | _ \<Rightarrow> None)"

text \<open>The three cases of the \<open>select\<close>.\<close>

definition Enqueue_slot :: "nat \<Rightarrow> 'v manager \<Rightarrow> 'v manager option" where
  "Enqueue_slot i m = (case producer_at m i of
       Some (PSelect c q n) \<Rightarrow> (case chan_send () (slots m) of
           Sent s \<Rightarrow> Some (set_producer i (PLock c q n) m\<lparr>slots := s\<rparr>)
         | SendBlocks \<Rightarrow> None
         | SendPanics \<Rightarrow> Some (m\<lparr>panicked := True\<rparr>))
     | _ \<Rightarrow> None)"

definition Enqueue_stopping :: "nat \<Rightarrow> 'v manager \<Rightarrow> 'v manager option" where
  "Enqueue_stopping i m = (case producer_at m i of
       Some (PSelect c q n) \<Rightarrow> (if chan_closed (stopping m)
         then Some (set_producer i (PReturn 0 (Some ErrManagerStopped)) m) else None)
     | _ \<Rightarrow> None)"

definition Enqueue_ctx_done :: "nat \<Rightarrow> 'v manager \<Rightarrow> 'v manager option" where
  "Enqueue_ctx_done i m = (case producer_at m i of
       Some (PSelect (Some e) q n) \<Rightarrow> Some (set_producer i (PReturn 0 (Some e)) m)
     | _ \<Rightarrow> None)"

text \<open>\<open>m.mu.Lock()\<close>.\<close>

definition Enqueue_lock :: "nat \<Rightarrow> 'v manager \<Rightarrow> 'v manager option" where
  "Enqueue_lock i m = (case producer_at m i of
       Some (PLock c q n) \<Rightarrow> (if lock m = None then Some (set_producer i (PCheck c q n) m\<lparr>lock := Some i\<rparr>) else None)
     | _ \<Rightarrow> None)"

text \<open>
  The two checks under the mutex, each giving the slot back and unlocking when it fails;
  else \<open>store.put\<close>.
\<close>

definition Enqueue_reject :: "nat \<Rightarrow> go_error \<Rightarrow> 'v manager \<Rightarrow> 'v manager option" where
  "Enqueue_reject i e m = (case chan_recv (slots m) of
       Received _ s \<Rightarrow> Some (set_producer i (PReturn 0 (Some e)) m\<lparr>slots := s, lock := None\<rparr>)
     | ClosedEmpty \<Rightarrow> Some (set_producer i (PReturn 0 (Some e)) m\<lparr>lock := None\<rparr>)
     | RecvBlocks \<Rightarrow> None)"

definition Enqueue_check :: "nat \<Rightarrow> 'v manager \<Rightarrow> 'v manager option" where
  "Enqueue_check i m = (case producer_at m i of
       Some (PCheck c q n) \<Rightarrow>
         (if stopped m \<or> run_ctx m = Some True then Enqueue_reject i ErrManagerStopped m
          else case c of
            Some e \<Rightarrow> Enqueue_reject i e m
          | None \<Rightarrow> Some (set_producer i (PSend c q n) m\<lparr>m_store := store_put q n (m_store m)\<rparr>))
     | _ \<Rightarrow> None)"

text \<open>\<open>m.mailbox <- id\<close>, the return and the deferred unlock.\<close>

definition Enqueue_send :: "nat \<Rightarrow> 'v manager \<Rightarrow> 'v manager option" where
  "Enqueue_send i m = (case producer_at m i of
       Some (PSend c q n) \<Rightarrow> (case chan_send q (mailbox m) of
           Sent b \<Rightarrow> Some (set_producer i (PReturn q None) m
               \<lparr>mailbox := b, lock := None, admitted := admitted m @ [(q, n)]\<rparr>)
         | SendBlocks \<Rightarrow> None
         | SendPanics \<Rightarrow> Some (m\<lparr>panicked := True\<rparr>))
     | _ \<Rightarrow> None)"

text \<open>\<open>stop(drain)\<close>.\<close>

definition close_queue :: "'v manager \<Rightarrow> 'v manager" where
  "close_queue m = (case (chan_close (stopping m), chan_close (mailbox m)) of
       (Some s, Some b) \<Rightarrow> m\<lparr>stopped := True, stopping := s, mailbox := b\<rparr>
     | _ \<Rightarrow> m\<lparr>stopped := True, panicked := True\<rparr>)"

definition stop_body :: "bool \<Rightarrow> 'v manager \<Rightarrow> 'v manager" where
  "stop_body drain m =
     (let m1 = (if \<not> stopped m then close_queue m else m);
          m2 = (if \<not> drain \<and> run_ctx m1 \<noteq> None then m1\<lparr>run_ctx := Some True\<rparr> else m1)
      in if \<not> finishing m2 then m2\<lparr>finishing := True, finishers := finishers m2 @ [FWait]\<rparr> else m2)"

definition stop :: "bool \<Rightarrow> 'v manager \<Rightarrow> 'v manager option" where
  "stop drain m = (if lock m = None then Some (stop_body drain m) else None)"

text \<open>\<open>Start\<close>: the error it returns and its effect when there is none.\<close>

definition Start_error :: "'v manager \<Rightarrow> go_error option" where
  "Start_error m = (if started m then Some ErrManagerStarted
     else if stopped m then Some ErrManagerStopped else None)"

definition Start :: "('v, 'x) dispatcher \<Rightarrow> go_error option option \<Rightarrow> 'v manager \<Rightarrow> 'v manager option" where
  "Start d ctx m =
     (if Start_args False ctx \<noteq> None then Some m
      else if lock m \<noteq> None then None
      else if Start_error m \<noteq> None then Some m
      else Some (m\<lparr>started := True, finishing := True, run_ctx := Some False, after_func := True,
             workers := replicate (d_workers d) WLoop, finishers := finishers m @ [FWait]\<rparr>))"

text \<open>The context given to \<open>Start\<close> ends; \<open>AfterFunc\<close> runs \<open>stop(false)\<close> once \<open>runCtx\<close> is done.\<close>

definition cancel_run :: "'v manager \<Rightarrow> 'v manager option" where
  "cancel_run m = (if run_ctx m = Some False then Some (m\<lparr>run_ctx := Some True\<rparr>) else None)"

definition run_after_func :: "'v manager \<Rightarrow> 'v manager option" where
  "run_after_func m = (if after_func m \<and> run_ctx m = Some True then stop False (m\<lparr>after_func := False\<rparr>) else None)"

definition set_worker :: "nat \<Rightarrow> 'v worker \<Rightarrow> 'v manager \<Rightarrow> 'v manager" where
  "set_worker i p m = m\<lparr>workers := (workers m)[i := p]\<rparr>"

definition worker_at :: "'v manager \<Rightarrow> nat \<Rightarrow> 'v worker option" where
  "worker_at m i = (if i < length (workers m) then Some (workers m ! i) else None)"

text \<open>The two cases of the \<open>select\<close> in \<open>dispatcher.start\<close>.\<close>

definition worker_ctx_done :: "nat \<Rightarrow> 'v manager \<Rightarrow> 'v manager option" where
  "worker_ctx_done i m = (case worker_at m i of
       Some WLoop \<Rightarrow> (if run_ctx m = Some True then Some (set_worker i WExit m) else None)
     | _ \<Rightarrow> None)"

definition worker_recv :: "nat \<Rightarrow> 'v manager \<Rightarrow> 'v manager option" where
  "worker_recv i m = (case worker_at m i of
       Some WLoop \<Rightarrow> (case chan_recv (mailbox m) of
           Received q b \<Rightarrow> Some (set_worker i (WGot q) m\<lparr>mailbox := b\<rparr>)
         | ClosedEmpty \<Rightarrow> Some (set_worker i WExit m)
         | RecvBlocks \<Rightarrow> None)
     | _ \<Rightarrow> None)"

text \<open>A completion: the callback, when installed.\<close>

definition complete :: "('v, 'x) dispatcher \<Rightarrow> uuid \<Rightarrow> 'v notification \<Rightarrow> go_error option \<Rightarrow> bool \<Rightarrow> 'v manager \<Rightarrow> 'v manager" where
  "complete d q n err discarded m =
     (let c = \<lparr>QueueID = q, CompletionNotificationID = NotificationID n, Err = err\<rparr>
      in m\<lparr>callbacks := callbacks m @ (if d_onComplete d then [c] else []),
           finished := finished m @ [(c, discarded)]\<rparr>)"

text \<open>
  \<open>dispatcher.dispatch\<close>, action by action: \<open>store.get\<close>, \<open>store.delete\<close>, \<open>onDequeue\<close>
  (which gives the slot back), the delivery, the deferred \<open>onComplete\<close>. The delivery runs
  in a context and a runtime state the environment chooses.
\<close>

definition worker_step :: "('v, 'x) dispatcher \<Rightarrow> go_context \<Rightarrow> 'x runtime \<Rightarrow> nat \<Rightarrow> 'v manager \<Rightarrow> 'v manager option" where
  "worker_step d ctx w i m = (case worker_at m i of
       Some (WGot q) \<Rightarrow> (case store_get (m_store m) q of
           None \<Rightarrow> Some (set_worker i WLoop m)
         | Some n \<Rightarrow> Some (set_worker i (WFound q n) m))
     | Some (WFound q n) \<Rightarrow> Some (set_worker i (WDeleted q n) m\<lparr>m_store := store_delete q (m_store m)\<rparr>)
     | Some (WDeleted q n) \<Rightarrow> (case chan_recv (slots m) of
           Received _ s \<Rightarrow> Some (set_worker i (WDeliver q n) m\<lparr>slots := s\<rparr>)
         | ClosedEmpty \<Rightarrow> Some (set_worker i (WDeliver q n) m)
         | RecvBlocks \<Rightarrow> None)
     | Some (WDeliver q n) \<Rightarrow> (case deliver_outcome d ctx q n w of
           None \<Rightarrow> Some (m\<lparr>panicked := True\<rparr>)
         | Some (err, _) \<Rightarrow> Some (set_worker i (WComplete q n err) m))
     | Some (WComplete q n err) \<Rightarrow> Some (set_worker i WLoop (complete d q n err False m))
     | _ \<Rightarrow> None)"

definition set_finisher :: "nat \<Rightarrow> 'v finisher \<Rightarrow> 'v manager \<Rightarrow> 'v manager" where
  "set_finisher j p m = m\<lparr>finishers := (finishers m)[j := p]\<rparr>"

definition finisher_at :: "'v manager \<Rightarrow> nat \<Rightarrow> 'v finisher option" where
  "finisher_at m j = (if j < length (finishers m) then Some (finishers m ! j) else None)"

fun exited :: "'v worker \<Rightarrow> bool" where
  "exited WExit = True"
| "exited _ = False"

lemma exited_iff [simp]: "exited p \<longleftrightarrow> p = WExit"
  by (cases p) simp_all

text \<open>\<open>finish\<close>: wait for the workers, \<open>stop(false)\<close>, empty the mailbox, close \<open>done\<close>.\<close>

definition finisher_step :: "('v, 'x) dispatcher \<Rightarrow> nat \<Rightarrow> 'v manager \<Rightarrow> 'v manager option" where
  "finisher_step d j m = (case finisher_at m j of
       Some FWait \<Rightarrow> (if list_all exited (workers m) then Some (set_finisher j FStop m) else None)
     | Some FStop \<Rightarrow> stop False (set_finisher j FRange m)
     | Some FRange \<Rightarrow> (case chan_recv (mailbox m) of
           Received q b \<Rightarrow> Some (set_finisher j (FGot q) m\<lparr>mailbox := b\<rparr>)
         | ClosedEmpty \<Rightarrow> (case chan_close (m_done m) of
               None \<Rightarrow> Some (m\<lparr>panicked := True\<rparr>)
             | Some c \<Rightarrow> Some (set_finisher j FDone m\<lparr>m_done := c\<rparr>))
         | RecvBlocks \<Rightarrow> None)
     | Some (FGot q) \<Rightarrow> Some (set_finisher j (FFound q (store_get (m_store m) q)) m)
     | Some (FFound q n) \<Rightarrow> Some (set_finisher j (FDeleted q n) m\<lparr>m_store := store_delete q (m_store m)\<rparr>)
     | Some (FDeleted q n) \<Rightarrow> (case chan_recv (slots m) of
           Received _ s \<Rightarrow> Some (set_finisher j (FReleased q n) m\<lparr>slots := s\<rparr>)
         | ClosedEmpty \<Rightarrow> Some (set_finisher j (FReleased q n) m)
         | RecvBlocks \<Rightarrow> None)
     | Some (FReleased q None) \<Rightarrow> Some (set_finisher j FRange m)
     | Some (FReleased q (Some n)) \<Rightarrow>
         Some (set_finisher j FRange (complete d q n (Some ErrManagerStopped) True m))
     | _ \<Rightarrow> None)"

text \<open>\<open>Shutdown\<close> and \<open>Wait\<close>.\<close>

definition Shutdown_call :: "bool \<Rightarrow> 'v manager \<Rightarrow> 'v manager option" where
  "Shutdown_call ctx_nil m = (case Wait_args False ctx_nil of
       Some e \<Rightarrow> Some (m\<lparr>callers := callers m @ [CReturn (Some e)]\<rparr>)
     | None \<Rightarrow> Some (m\<lparr>callers := callers m @ [CStop]\<rparr>))"

definition Wait_call :: "bool \<Rightarrow> 'v manager \<Rightarrow> 'v manager option" where
  "Wait_call ctx_nil m = (case Wait_args False ctx_nil of
       Some e \<Rightarrow> Some (m\<lparr>callers := callers m @ [CReturn (Some e)]\<rparr>)
     | None \<Rightarrow> Some (m\<lparr>callers := callers m @ [CWait False]\<rparr>))"

definition set_caller :: "nat \<Rightarrow> caller \<Rightarrow> 'v manager \<Rightarrow> 'v manager" where
  "set_caller k c m = m\<lparr>callers := (callers m)[k := c]\<rparr>"

definition caller_at :: "'v manager \<Rightarrow> nat \<Rightarrow> caller option" where
  "caller_at m k = (if k < length (callers m) then Some (callers m ! k) else None)"

text \<open>\<open>stop(true)\<close>; \<open><-m.done\<close>; and \<open>stop(false)\<close> after the context has ended.\<close>

definition caller_step :: "nat \<Rightarrow> 'v manager \<Rightarrow> 'v manager option" where
  "caller_step k m = (case caller_at m k of
       Some CStop \<Rightarrow> stop True (set_caller k (CWait True) m)
     | Some (CWait a) \<Rightarrow> (if chan_closed (m_done m) then Some (set_caller k (CReturn None) m) else None)
     | Some (CAbort e) \<Rightarrow> stop False (set_caller k (CReturn (Some e)) m)
     | _ \<Rightarrow> None)"

text \<open>The context of a caller ends while it waits.\<close>

definition caller_ctx_done :: "nat \<Rightarrow> go_error \<Rightarrow> 'v manager \<Rightarrow> 'v manager option" where
  "caller_ctx_done k e m = (case caller_at m k of
       Some (CWait a) \<Rightarrow> Some (set_caller k (if a then CAbort e else CReturn (Some e)) m)
     | _ \<Rightarrow> None)"

section \<open>Interleaving\<close>

text \<open>
  Calls from the application, ends of contexts, and actions of the manager's goroutines.
\<close>

datatype ('v, 'x) event =
    EvEnqueue "go_error option option" "'v notification option"
  | EvEnqueueCancel nat go_error
  | EvSlot nat
  | EvStopping nat
  | EvCtxDone nat
  | EvLock nat
  | EvCheck nat
  | EvSend nat
  | EvStart "go_error option option"
  | EvCancelRun
  | EvAfterFunc
  | EvWorkerCtx nat
  | EvWorkerRecv nat
  | EvWorker go_context "'x runtime" nat
  | EvFinish nat
  | EvShutdown bool
  | EvWait bool
  | EvCaller nat
  | EvCallerCtx nat go_error

fun mstep :: "('v, 'x) dispatcher \<Rightarrow> ('v, 'x) event \<Rightarrow> 'v manager \<Rightarrow> 'v manager option" where
  "mstep d (EvEnqueue ctx n) m = Enqueue_call ctx n m"
| "mstep d (EvEnqueueCancel i e) m = Enqueue_cancel i e m"
| "mstep d (EvSlot i) m = Enqueue_slot i m"
| "mstep d (EvStopping i) m = Enqueue_stopping i m"
| "mstep d (EvCtxDone i) m = Enqueue_ctx_done i m"
| "mstep d (EvLock i) m = Enqueue_lock i m"
| "mstep d (EvCheck i) m = Enqueue_check i m"
| "mstep d (EvSend i) m = Enqueue_send i m"
| "mstep d (EvStart ctx) m = Start d ctx m"
| "mstep d EvCancelRun m = cancel_run m"
| "mstep d EvAfterFunc m = run_after_func m"
| "mstep d (EvWorkerCtx i) m = worker_ctx_done i m"
| "mstep d (EvWorkerRecv i) m = worker_recv i m"
| "mstep d (EvWorker ctx w i) m = worker_step d ctx w i m"
| "mstep d (EvFinish j) m = finisher_step d j m"
| "mstep d (EvShutdown ctx_nil) m = Shutdown_call ctx_nil m"
| "mstep d (EvWait ctx_nil) m = Wait_call ctx_nil m"
| "mstep d (EvCaller k) m = caller_step k m"
| "mstep d (EvCallerCtx k e) m = caller_ctx_done k e m"

fun mrun :: "('v, 'x) dispatcher \<Rightarrow> ('v, 'x) event list \<Rightarrow> 'v manager \<Rightarrow> 'v manager option" where
  "mrun d [] m = Some m"
| "mrun d (ev # evs) m = (case mstep d ev m of None \<Rightarrow> None | Some m' \<Rightarrow> mrun d evs m')"

text \<open>
  The reachable states of a manager with dependencies \<open>d\<close> and queue capacity \<open>cap\<close>, by
  steps whose events satisfy \<open>P\<close>; \<open>reachable\<close> allows every event.
\<close>

inductive reachable_by ::
  "(('v, 'x) event \<Rightarrow> bool) \<Rightarrow> ('v, 'x) dispatcher \<Rightarrow> nat \<Rightarrow> 'v manager \<Rightarrow> bool"
  for P d cap where
  init: "reachable_by P d cap (new_manager cap)"
| step: "reachable_by P d cap m \<Longrightarrow> P ev \<Longrightarrow> mstep d ev m = Some m' \<Longrightarrow> reachable_by P d cap m'"

abbreviation reachable :: "('v, 'x) dispatcher \<Rightarrow> nat \<Rightarrow> 'v manager \<Rightarrow> bool" where
  "reachable \<equiv> reachable_by (\<lambda>_. True)"

lemma reachable_by_mono: "reachable_by P d cap m \<Longrightarrow> reachable d cap m"
  by (induction rule: reachable_by.induct) (auto intro: reachable_by.intros)

lemma reachable_by_run:
  "reachable_by P d cap m \<Longrightarrow> list_all P evs \<Longrightarrow> mrun d evs m = Some m' \<Longrightarrow> reachable_by P d cap m'"
  by (induction evs arbitrary: m) (auto split: option.splits intro: reachable_by.step)

lemma mrun_append: "mrun d (xs @ ys) m = (case mrun d xs m of None \<Rightarrow> None | Some m' \<Rightarrow> mrun d ys m')"
  by (induction xs arbitrary: m) (auto split: option.splits)

end
