(* ===== verification/Manager_Trans.thy ===== *)
theory Manager_Trans
  imports Manager
begin

text \<open>
  The step function of the manager as an inductive relation with one explicit rule per
  branch of an action. Every step is one of these transitions (\<open>mstep_mtrans\<close>), so the
  invariants are proved by induction over the rules.
\<close>

section \<open>What stop does\<close>

definition queue_ok :: "'v manager \<Rightarrow> bool" where
  "queue_ok m \<longleftrightarrow> chan_closed (stopping m) = stopped m \<and> chan_closed (mailbox m) = stopped m"

lemma stop_body_frame [simp]:
  "m_store (stop_body b m) = m_store m" "slots (stop_body b m) = slots m"
  "lock (stop_body b m) = lock m" "started (stop_body b m) = started m"
  "m_done (stop_body b m) = m_done m" "after_func (stop_body b m) = after_func m"
  "producers (stop_body b m) = producers m" "workers (stop_body b m) = workers m"
  "callers (stop_body b m) = callers m" "next_uuid (stop_body b m) = next_uuid m"
  "callbacks (stop_body b m) = callbacks m" "admitted (stop_body b m) = admitted m"
  "finished (stop_body b m) = finished m"
  by (simp_all add: stop_body_def close_queue_def Let_def split: option.splits)

lemma stop_body_mailbox [simp]:
  "buffer (mailbox (stop_body b m)) = buffer (mailbox m)"
  "chan_cap (mailbox (stop_body b m)) = chan_cap (mailbox m)"
  by (auto simp: stop_body_def close_queue_def chan_close_def Let_def split: option.splits if_splits)

lemma stop_body_flags [simp]:
  "stopped (stop_body b m) = True" "finishing (stop_body b m) = True"
  "finishers (stop_body b m) = (if finishing m then finishers m else finishers m @ [FWait])"
  "run_ctx (stop_body b m) = (if \<not> b \<and> run_ctx m \<noteq> None then Some True else run_ctx m)"
  by (simp_all add: stop_body_def close_queue_def Let_def split: option.splits)

lemma stop_body_queue_ok:
  "queue_ok m \<Longrightarrow> queue_ok (stop_body b m) \<and> panicked (stop_body b m) = panicked m \<and>
     chan_closed (mailbox (stop_body b m)) \<and> chan_closed (stopping (stop_body b m))"
  by (auto simp: queue_ok_def stop_body_def close_queue_def chan_close_def Let_def split: option.splits)

section \<open>The transitions\<close>

inductive mtrans :: "('v, 'x) dispatcher \<Rightarrow> 'v manager \<Rightarrow> 'v manager \<Rightarrow> bool" for d where
  refused: "mtrans d m m"
| call_rejected: "mtrans d m (m\<lparr>producers := producers m @ [PReturn 0 (Some e)]\<rparr>)"
| call: "NotificationID n \<noteq> [] \<Longrightarrow>
    mtrans d m (m\<lparr>producers := producers m @ [PSelect None (next_uuid m) n], next_uuid := Suc (next_uuid m)\<rparr>)"
| cancel_select: "i < length (producers m) \<Longrightarrow> producers m ! i = PSelect None q n \<Longrightarrow>
    mtrans d m (set_producer i (PSelect (Some e) q n) m)"
| cancel_lock: "i < length (producers m) \<Longrightarrow> producers m ! i = PLock None q n \<Longrightarrow>
    mtrans d m (set_producer i (PLock (Some e) q n) m)"
| cancel_check: "i < length (producers m) \<Longrightarrow> producers m ! i = PCheck None q n \<Longrightarrow>
    mtrans d m (set_producer i (PCheck (Some e) q n) m)"
| slot: "i < length (producers m) \<Longrightarrow> producers m ! i = PSelect c q n \<Longrightarrow>
    length (buffer (slots m)) < chan_cap (slots m) \<Longrightarrow> \<not> chan_closed (slots m) \<Longrightarrow>
    mtrans d m (set_producer i (PLock c q n) m\<lparr>slots := slots m\<lparr>buffer := buffer (slots m) @ [()]\<rparr>\<rparr>)"
| slot_panic: "chan_closed (slots m) \<Longrightarrow> mtrans d m (m\<lparr>panicked := True\<rparr>)"
| leave: "i < length (producers m) \<Longrightarrow> producers m ! i = PSelect c q n \<Longrightarrow>
    mtrans d m (set_producer i (PReturn 0 (Some e)) m)"
| lock: "i < length (producers m) \<Longrightarrow> producers m ! i = PLock c q n \<Longrightarrow> lock m = None \<Longrightarrow>
    mtrans d m (set_producer i (PCheck c q n) m\<lparr>lock := Some i\<rparr>)"
| reject: "i < length (producers m) \<Longrightarrow> producers m ! i = PCheck c q n \<Longrightarrow>
    buffer (slots m) = u # us \<Longrightarrow>
    mtrans d m (set_producer i (PReturn 0 (Some e)) m\<lparr>slots := slots m\<lparr>buffer := us\<rparr>, lock := None\<rparr>)"
| reject_closed: "chan_closed (slots m) \<Longrightarrow> mtrans d m (set_producer i (PReturn 0 (Some e)) m\<lparr>lock := None\<rparr>)"
| put: "i < length (producers m) \<Longrightarrow> producers m ! i = PCheck None q n \<Longrightarrow> \<not> stopped m \<Longrightarrow>
    run_ctx m \<noteq> Some True \<Longrightarrow>
    mtrans d m (set_producer i (PSend None q n) m\<lparr>m_store := store_put q n (m_store m)\<rparr>)"
| send: "i < length (producers m) \<Longrightarrow> producers m ! i = PSend c q n \<Longrightarrow>
    length (buffer (mailbox m)) < chan_cap (mailbox m) \<Longrightarrow> \<not> chan_closed (mailbox m) \<Longrightarrow>
    mtrans d m (set_producer i (PReturn q None) m
      \<lparr>mailbox := mailbox m\<lparr>buffer := buffer (mailbox m) @ [q]\<rparr>, lock := None,
       admitted := admitted m @ [(q, n)]\<rparr>)"
| send_panic: "i < length (producers m) \<Longrightarrow> producers m ! i = PSend c q n \<Longrightarrow> chan_closed (mailbox m) \<Longrightarrow>
    mtrans d m (m\<lparr>panicked := True\<rparr>)"
| start: "lock m = None \<Longrightarrow> \<not> started m \<Longrightarrow> \<not> stopped m \<Longrightarrow>
    mtrans d m (m\<lparr>started := True, finishing := True, run_ctx := Some False, after_func := True,
      workers := replicate (d_workers d) WLoop, finishers := finishers m @ [FWait]\<rparr>)"
| cancel: "run_ctx m = Some False \<Longrightarrow> mtrans d m (m\<lparr>run_ctx := Some True\<rparr>)"
| after: "lock m = None \<Longrightarrow> run_ctx m = Some True \<Longrightarrow> mtrans d m (stop_body False (m\<lparr>after_func := False\<rparr>))"
| worker_exit: "i < length (workers m) \<Longrightarrow> workers m ! i = WLoop \<Longrightarrow>
    run_ctx m = Some True \<or> buffer (mailbox m) = [] \<and> chan_closed (mailbox m) \<Longrightarrow>
    mtrans d m (set_worker i WExit m)"
| worker_recv: "i < length (workers m) \<Longrightarrow> workers m ! i = WLoop \<Longrightarrow> buffer (mailbox m) = q # qs \<Longrightarrow>
    mtrans d m (set_worker i (WGot q) m\<lparr>mailbox := mailbox m\<lparr>buffer := qs\<rparr>\<rparr>)"
| worker_missing: "i < length (workers m) \<Longrightarrow> workers m ! i = WGot q \<Longrightarrow> store_get (m_store m) q = None \<Longrightarrow>
    mtrans d m (set_worker i WLoop m)"
| worker_found: "i < length (workers m) \<Longrightarrow> workers m ! i = WGot q \<Longrightarrow> store_get (m_store m) q = Some n \<Longrightarrow>
    mtrans d m (set_worker i (WFound q n) m)"
| worker_delete: "i < length (workers m) \<Longrightarrow> workers m ! i = WFound q n \<Longrightarrow>
    mtrans d m (set_worker i (WDeleted q n) m\<lparr>m_store := store_delete q (m_store m)\<rparr>)"
| worker_release: "i < length (workers m) \<Longrightarrow> workers m ! i = WDeleted q n \<Longrightarrow> buffer (slots m) = u # us \<Longrightarrow>
    mtrans d m (set_worker i (WDeliver q n) m\<lparr>slots := slots m\<lparr>buffer := us\<rparr>\<rparr>)"
| worker_release_closed: "chan_closed (slots m) \<Longrightarrow> mtrans d m (set_worker i (WDeliver q n) m)"
| worker_deliver: "i < length (workers m) \<Longrightarrow> workers m ! i = WDeliver q n \<Longrightarrow>
    deliver_outcome d ctx q n w = Some (err, w') \<Longrightarrow> mtrans d m (set_worker i (WComplete q n err) m)"
| worker_panic: "deliver_outcome d ctx q n w = None \<Longrightarrow> mtrans d m (m\<lparr>panicked := True\<rparr>)"
| worker_complete: "i < length (workers m) \<Longrightarrow> workers m ! i = WComplete q n err \<Longrightarrow>
    mtrans d m (set_worker i WLoop (complete d q n err False m))"
| finish_wait: "j < length (finishers m) \<Longrightarrow> finishers m ! j = FWait \<Longrightarrow> \<forall>p \<in> set (workers m). p = WExit \<Longrightarrow>
    mtrans d m (set_finisher j FStop m)"
| finish_stop: "j < length (finishers m) \<Longrightarrow> finishers m ! j = FStop \<Longrightarrow> lock m = None \<Longrightarrow>
    mtrans d m (stop_body False (set_finisher j FRange m))"
| finish_recv: "j < length (finishers m) \<Longrightarrow> finishers m ! j = FRange \<Longrightarrow> buffer (mailbox m) = q # qs \<Longrightarrow>
    mtrans d m (set_finisher j (FGot q) m\<lparr>mailbox := mailbox m\<lparr>buffer := qs\<rparr>\<rparr>)"
| finish_done: "j < length (finishers m) \<Longrightarrow> finishers m ! j = FRange \<Longrightarrow> buffer (mailbox m) = [] \<Longrightarrow>
    chan_closed (mailbox m) \<Longrightarrow> \<not> chan_closed (m_done m) \<Longrightarrow>
    mtrans d m (set_finisher j FDone m\<lparr>m_done := m_done m\<lparr>chan_closed := True\<rparr>\<rparr>)"
| finish_panic: "j < length (finishers m) \<Longrightarrow> finishers m ! j = FRange \<Longrightarrow> chan_closed (m_done m) \<Longrightarrow>
    mtrans d m (m\<lparr>panicked := True\<rparr>)"
| finish_get: "j < length (finishers m) \<Longrightarrow> finishers m ! j = FGot q \<Longrightarrow>
    mtrans d m (set_finisher j (FFound q (store_get (m_store m) q)) m)"
| finish_delete: "j < length (finishers m) \<Longrightarrow> finishers m ! j = FFound q nn \<Longrightarrow>
    mtrans d m (set_finisher j (FDeleted q nn) m\<lparr>m_store := store_delete q (m_store m)\<rparr>)"
| finish_release: "j < length (finishers m) \<Longrightarrow> finishers m ! j = FDeleted q nn \<Longrightarrow> buffer (slots m) = u # us \<Longrightarrow>
    mtrans d m (set_finisher j (FReleased q nn) m\<lparr>slots := slots m\<lparr>buffer := us\<rparr>\<rparr>)"
| finish_release_closed: "chan_closed (slots m) \<Longrightarrow> mtrans d m (set_finisher j (FReleased q nn) m)"
| finish_skip: "j < length (finishers m) \<Longrightarrow> finishers m ! j = FReleased q None \<Longrightarrow>
    mtrans d m (set_finisher j FRange m)"
| finish_complete: "j < length (finishers m) \<Longrightarrow> finishers m ! j = FReleased q (Some n) \<Longrightarrow>
    mtrans d m (set_finisher j FRange (complete d q n (Some ErrManagerStopped) True m))"
| caller: "mtrans d m (m\<lparr>callers := cs\<rparr>)"
| caller_stop: "lock m = None \<Longrightarrow> mtrans d m (stop_body b (m\<lparr>callers := cs\<rparr>))"

lemma producer_at_Some: "producer_at m i = Some p \<longleftrightarrow> i < length (producers m) \<and> producers m ! i = p"
  by (auto simp: producer_at_def)

lemma worker_at_Some: "worker_at m i = Some p \<longleftrightarrow> i < length (workers m) \<and> workers m ! i = p"
  by (auto simp: worker_at_def)

lemma finisher_at_Some: "finisher_at m j = Some p \<longleftrightarrow> j < length (finishers m) \<and> finishers m ! j = p"
  by (auto simp: finisher_at_def)

lemma set_frame [simp]:
  "producers (set_producer i p m) = (producers m)[i := p]" "workers (set_worker i w m) = (workers m)[i := w]"
  "finishers (set_finisher j f m) = (finishers m)[j := f]"
  "lock (set_finisher j f m) = lock m" "lock (set_caller k c m) = lock m"
  by (simp_all add: set_producer_def set_worker_def set_finisher_def set_caller_def)

lemmas at_Some = producer_at_Some worker_at_Some finisher_at_Some

section \<open>Every step is a transition\<close>

lemma Enqueue_call_trans: "Enqueue_call ctx n m = Some m' \<Longrightarrow> mtrans d m m'"
  by (auto simp: Enqueue_call_def Enqueue_args_def validateNotificationID_def
      split: option.splits if_splits intro: mtrans.intros)

lemma Enqueue_trans:
  "Enqueue_cancel i e m = Some m' \<Longrightarrow> mtrans d m m'"
  "Enqueue_slot i m = Some m' \<Longrightarrow> mtrans d m m'"
  "Enqueue_stopping i m = Some m' \<Longrightarrow> mtrans d m m'"
  "Enqueue_ctx_done i m = Some m' \<Longrightarrow> mtrans d m m'"
  "Enqueue_lock i m = Some m' \<Longrightarrow> mtrans d m m'"
  subgoal by (auto simp: Enqueue_cancel_def at_Some split: option.splits producer.splits intro: mtrans.intros)
  subgoal by (auto simp: Enqueue_slot_def chan_send_def at_Some
        split: option.splits producer.splits if_splits intro: mtrans.intros)
  subgoal by (auto simp: Enqueue_stopping_def at_Some split: option.splits producer.splits if_splits intro: mtrans.intros)
  subgoal by (auto simp: Enqueue_ctx_done_def at_Some split: option.splits producer.splits intro: mtrans.intros)
  subgoal by (auto simp: Enqueue_lock_def at_Some split: option.splits producer.splits if_splits intro: mtrans.intros)
  done

lemma Enqueue_check_trans: "Enqueue_check i m = Some m' \<Longrightarrow> mtrans d m m'"
  by (auto simp: Enqueue_check_def Enqueue_reject_def chan_recv_def at_Some
      split: option.splits producer.splits if_splits list.splits intro: mtrans.intros)

lemma Enqueue_send_trans: "Enqueue_send i m = Some m' \<Longrightarrow> mtrans d m m'"
  by (auto simp: Enqueue_send_def chan_send_def at_Some
      split: option.splits producer.splits if_splits intro: mtrans.intros)

lemma lifecycle_trans:
  "Start d ctx m = Some m' \<Longrightarrow> mtrans d m m'"
  "cancel_run m = Some m' \<Longrightarrow> mtrans d m m'"
  "run_after_func m = Some m' \<Longrightarrow> mtrans d m m'"
  subgoal by (auto simp: Start_def Start_error_def split: if_splits intro: mtrans.intros)
  subgoal by (auto simp: cancel_run_def split: if_splits intro: mtrans.intros)
  subgoal by (auto simp: run_after_func_def stop_def split: if_splits intro: mtrans.intros)
  done

lemma worker_trans:
  "worker_ctx_done i m = Some m' \<Longrightarrow> mtrans d m m'"
  "Manager.worker_recv i m = Some m' \<Longrightarrow> mtrans d m m'"
  "worker_step d ctx w i m = Some m' \<Longrightarrow> mtrans d m m'"
  subgoal by (auto simp: worker_ctx_done_def at_Some split: option.splits worker.splits if_splits intro: mtrans.intros)
  subgoal by (auto simp: Manager.worker_recv_def chan_recv_def at_Some
        split: option.splits worker.splits list.splits if_splits intro: mtrans.intros)
  subgoal by (auto simp: worker_step_def chan_recv_def at_Some
        split: option.splits worker.splits list.splits if_splits intro: mtrans.intros)
  done

lemma finisher_trans: "finisher_step d j m = Some m' \<Longrightarrow> mtrans d m m'"
  by (auto simp: finisher_step_def list_all_iff chan_recv_def chan_close_def stop_def at_Some
      split: option.splits finisher.splits list.splits if_splits intro: mtrans.intros)

lemma caller_trans:
  "Shutdown_call b m = Some m' \<Longrightarrow> mtrans d m m'"
  "Wait_call b m = Some m' \<Longrightarrow> mtrans d m m'"
  "caller_step k m = Some m' \<Longrightarrow> mtrans d m m'"
  "caller_ctx_done k e m = Some m' \<Longrightarrow> mtrans d m m'"
  by (auto simp: Shutdown_call_def Wait_call_def caller_step_def caller_ctx_done_def set_caller_def stop_def
      split: option.splits caller.splits if_splits intro: mtrans.intros)

lemma mstep_mtrans: "mstep d ev m = Some m' \<Longrightarrow> mtrans d m m'"
  by (cases ev) (simp_all add: Enqueue_call_trans Enqueue_trans Enqueue_check_trans Enqueue_send_trans
      lifecycle_trans worker_trans finisher_trans caller_trans)

end
