(* ===== verification/Manager_Invariant.thy ===== *)
theory Manager_Invariant
  imports Manager_Trans
begin

text \<open>
  The invariant of the manager: how the channels, the store, the mutex, the flags and the
  program counters agree in every reachable state. It is a conjunction of six parts, each
  proved over the transitions of \<open>Manager_Trans\<close>.
\<close>

section \<open>What a goroutine holds\<close>

text \<open>Slots taken and not given back.\<close>

fun p_slot :: "'v producer \<Rightarrow> int" where
  "p_slot (PLock _ _ _) = 1" | "p_slot (PCheck _ _ _) = 1" | "p_slot (PSend _ _ _) = 1"
| "p_slot _ = 0"

fun w_slot :: "'v worker \<Rightarrow> int" where
  "w_slot (WGot _) = 1" | "w_slot (WFound _ _) = 1" | "w_slot (WDeleted _ _) = 1"
| "w_slot _ = 0"

fun f_slot :: "'v finisher \<Rightarrow> int" where
  "f_slot (FGot _) = 1" | "f_slot (FFound _ _) = 1" | "f_slot (FDeleted _ _) = 1"
| "f_slot _ = 0"

text \<open>IDs not yet admitted, and IDs taken off the mailbox and not yet completed.\<close>

fun p_ids :: "'v producer \<Rightarrow> uuid list" where
  "p_ids (PSelect _ q _) = [q]" | "p_ids (PLock _ q _) = [q]" | "p_ids (PCheck _ q _) = [q]"
| "p_ids (PSend _ q _) = [q]" | "p_ids (PReturn _ _) = []"

fun w_ids :: "'v worker \<Rightarrow> uuid list" where
  "w_ids (WGot q) = [q]" | "w_ids (WFound q _) = [q]" | "w_ids (WDeleted q _) = [q]"
| "w_ids (WDeliver q _) = [q]" | "w_ids (WComplete q _ _) = [q]" | "w_ids _ = []"

fun f_ids :: "'v finisher \<Rightarrow> uuid list" where
  "f_ids (FGot q) = [q]" | "f_ids (FFound q _) = [q]" | "f_ids (FDeleted q _) = [q]"
| "f_ids (FReleased q _) = [q]" | "f_ids _ = []"

text \<open>IDs that must have an entry in the store.\<close>

fun p_live :: "'v producer \<Rightarrow> uuid list" where
  "p_live (PSend _ q _) = [q]" | "p_live _ = []"

fun w_live :: "'v worker \<Rightarrow> uuid list" where
  "w_live (WGot q) = [q]" | "w_live (WFound q _) = [q]" | "w_live _ = []"

fun f_live :: "'v finisher \<Rightarrow> uuid list" where
  "f_live (FGot q) = [q]" | "f_live (FFound q _) = [q]" | "f_live _ = []"

fun critical :: "'v producer \<Rightarrow> bool" where
  "critical (PCheck _ _ _) = True" | "critical (PSend _ _ _) = True" | "critical _ = False"

text \<open>How many goroutines of a list hold the ID \<open>q\<close>.\<close>

abbreviation holders :: "('g \<Rightarrow> uuid list) \<Rightarrow> uuid \<Rightarrow> 'g list \<Rightarrow> int" where
  "holders ids q gs \<equiv> sum_list (map (\<lambda>g. occ q (ids g)) gs)"

definition finished_ids :: "'v manager \<Rightarrow> uuid list" where
  "finished_ids m = map (\<lambda>(c, b). QueueID c) (finished m)"

definition in_flight :: "'v manager \<Rightarrow> uuid \<Rightarrow> int" where
  "in_flight m q = occ q (buffer (mailbox m)) + holders w_ids q (workers m) + holders f_ids q (finishers m)"

definition live :: "'v manager \<Rightarrow> uuid \<Rightarrow> int" where
  "live m q = occ q (buffer (mailbox m)) + holders p_live q (producers m)
     + holders w_live q (workers m) + holders f_live q (finishers m)"

lemma critical_live: "\<not> critical p \<Longrightarrow> p_live p = []"
  by (cases p) simp_all

section \<open>The parts of the invariant\<close>

definition inv_slots :: "nat \<Rightarrow> 'v manager \<Rightarrow> bool" where
  "inv_slots cap m \<longleftrightarrow>
     chan_cap (slots m) = cap \<and> chan_cap (mailbox m) = cap \<and> \<not> chan_closed (slots m) \<and>
     length (buffer (slots m)) \<le> cap \<and>
     int (length (buffer (slots m))) = int (length (buffer (mailbox m))) + sum_list (map p_slot (producers m))
       + sum_list (map w_slot (workers m)) + sum_list (map f_slot (finishers m))"

definition inv_lock :: "'v manager \<Rightarrow> bool" where
  "inv_lock m \<longleftrightarrow>
     (\<forall>i < length (producers m). critical (producers m ! i) \<longleftrightarrow> lock m = Some i) \<and>
     (\<forall>i. lock m = Some i \<longrightarrow> i < length (producers m)) \<and>
     (stopped m \<longrightarrow> (\<forall>p \<in> set (producers m). p_live p = []))"

text \<open>How far \<open>finish\<close> has come.\<close>

definition past_wait :: "'v finisher \<Rightarrow> bool" where
  "past_wait f \<longleftrightarrow> f \<noteq> FWait"

definition past_stop :: "'v finisher \<Rightarrow> bool" where
  "past_stop f \<longleftrightarrow> f \<noteq> FWait \<and> f \<noteq> FStop"

definition inv_flags :: "('v, 'x) dispatcher \<Rightarrow> 'v manager \<Rightarrow> bool" where
  "inv_flags d m \<longleftrightarrow>
     queue_ok m \<and> \<not> panicked m \<and>
     (run_ctx m \<noteq> None) = started m \<and>
     length (workers m) = (if started m then d_workers d else 0) \<and>
     length (finishers m) = (if finishing m then 1 else 0) \<and>
     (started m \<longrightarrow> finishing m) \<and> (stopped m \<longrightarrow> finishing m) \<and>
     (\<forall>f \<in> set (finishers m).
        (past_wait f \<longrightarrow> (\<forall>p \<in> set (workers m). p = WExit)) \<and>
        (past_wait f \<longrightarrow> started m \<or> stopped m) \<and>
        (past_stop f \<longrightarrow> stopped m \<and> run_ctx m \<noteq> Some False) \<and>
        (chan_closed (m_done m) = (f = FDone)) \<and>
        (f = FDone \<longrightarrow> buffer (mailbox m) = [])) \<and>
     (chan_closed (m_done m) \<longrightarrow> finishing m) \<and>
     (finishing m \<longrightarrow> started m \<or> stopped m) \<and>
     (WExit \<in> set (workers m) \<longrightarrow> run_ctx m = Some True \<or> stopped m \<and> buffer (mailbox m) = [])"

text \<open>
  The IDs sent to the mailbox against those still under way or completed, and the IDs
  handed out that are still to be sent or have been sent.
\<close>

definition balance :: "'v manager \<Rightarrow> uuid \<Rightarrow> int" where
  "balance m q = in_flight m q + occ q (finished_ids m) - occ q (map fst (admitted m))"

definition issued :: "'v manager \<Rightarrow> uuid \<Rightarrow> int" where
  "issued m q = occ q (map fst (admitted m)) + holders p_ids q (producers m)"

definition inv_ids :: "'v manager \<Rightarrow> bool" where
  "inv_ids m \<longleftrightarrow> (\<forall>q. balance m q = 0) \<and> 0 < next_uuid m \<and>
     (\<forall>q. issued m q \<le> (if 0 < q \<and> q < next_uuid m then 1 else 0))"

definition inv_store :: "'v manager \<Rightarrow> bool" where
  "inv_store m \<longleftrightarrow>
     map_ok (m_store m) \<and>
     (\<forall>q. live m q = (if store_get (m_store m) q = None then 0 else 1)) \<and>
     (\<forall>c q n. PSend c q n \<in> set (producers m) \<longrightarrow> store_get (m_store m) q = Some n) \<and>
     (\<forall>q n n'. (q, n) \<in> set (admitted m) \<longrightarrow> store_get (m_store m) q = Some n' \<longrightarrow> n' = n)"

text \<open>
  Every goroutine that carries a notification carries the one admitted under its ID, and
  every completion reports the outcome of a delivery of it, or that it was discarded.
\<close>

definition delivered :: "('v, 'x) dispatcher \<Rightarrow> uuid \<Rightarrow> 'v notification \<Rightarrow> go_error option \<Rightarrow> bool" where
  "delivered d q n err \<longleftrightarrow> (\<exists>ctx w w'. deliver_outcome d ctx q n w = Some (err, w'))"

fun w_data :: "('v, 'x) dispatcher \<Rightarrow> (uuid \<times> 'v notification) set \<Rightarrow> 'v worker \<Rightarrow> bool" where
  "w_data d A (WFound q n) = ((q, n) \<in> A)" | "w_data d A (WDeleted q n) = ((q, n) \<in> A)"
| "w_data d A (WDeliver q n) = ((q, n) \<in> A)"
| "w_data d A (WComplete q n err) = ((q, n) \<in> A \<and> delivered d q n err)"
| "w_data d A _ = True"

fun f_data :: "(uuid \<times> 'v notification) set \<Rightarrow> 'v finisher \<Rightarrow> bool" where
  "f_data A (FFound q nn) = (\<exists>n. nn = Some n \<and> (q, n) \<in> A)"
| "f_data A (FDeleted q nn) = (\<exists>n. nn = Some n \<and> (q, n) \<in> A)"
| "f_data A (FReleased q nn) = (\<exists>n. nn = Some n \<and> (q, n) \<in> A)"
| "f_data A _ = True"

definition completion_of ::
  "('v, 'x) dispatcher \<Rightarrow> (uuid \<times> 'v notification) set \<Rightarrow> completion \<Rightarrow> bool \<Rightarrow> bool" where
  "completion_of d A c discarded \<longleftrightarrow> (\<exists>n. (QueueID c, n) \<in> A \<and> CompletionNotificationID c = NotificationID n \<and>
     (if discarded then Err c = Some ErrManagerStopped else delivered d (QueueID c) n (Err c)))"

definition inv_data :: "('v, 'x) dispatcher \<Rightarrow> 'v manager \<Rightarrow> bool" where
  "inv_data d m \<longleftrightarrow>
     (\<forall>p \<in> set (workers m). w_data d (set (admitted m)) p) \<and>
     (\<forall>f \<in> set (finishers m). f_data (set (admitted m)) f) \<and>
     (\<forall>(c, b) \<in> set (finished m). completion_of d (set (admitted m)) c b) \<and>
     callbacks m = (if d_onComplete d then map fst (finished m) else [])"

section \<open>Slots\<close>

lemma inv_slots_init: "inv_slots cap (new_manager cap)"
  by (simp add: inv_slots_def new_manager_def make_chan_def)

lemma set_defs: "set_producer i p m = m\<lparr>producers := (producers m)[i := p]\<rparr>"
  "set_worker i w m = m\<lparr>workers := (workers m)[i := w]\<rparr>"
  "set_finisher j f m = m\<lparr>finishers := (finishers m)[j := f]\<rparr>"
  by (simp_all add: set_producer_def set_worker_def set_finisher_def)

lemma complete_frame [simp]:
  "m_store (complete d q n e b m) = m_store m" "mailbox (complete d q n e b m) = mailbox m"
  "slots (complete d q n e b m) = slots m" "lock (complete d q n e b m) = lock m"
  "started (complete d q n e b m) = started m" "stopped (complete d q n e b m) = stopped m"
  "finishing (complete d q n e b m) = finishing m" "stopping (complete d q n e b m) = stopping m"
  "m_done (complete d q n e b m) = m_done m" "run_ctx (complete d q n e b m) = run_ctx m"
  "after_func (complete d q n e b m) = after_func m" "producers (complete d q n e b m) = producers m"
  "workers (complete d q n e b m) = workers m" "finishers (complete d q n e b m) = finishers m"
  "next_uuid (complete d q n e b m) = next_uuid m" "admitted (complete d q n e b m) = admitted m"
  "panicked (complete d q n e b m) = panicked m"
  by (simp_all add: complete_def Let_def)

text \<open>A worker that finds no notification for its ID returns without giving the slot back.\<close>

definition all_found :: "'v manager \<Rightarrow> bool" where
  "all_found m \<longleftrightarrow> (\<forall>i < length (workers m). \<forall>q. workers m ! i = WGot q \<longrightarrow> store_get (m_store m) q \<noteq> None)"

lemma inv_slots_trans:
  assumes "mtrans d m m'" and "inv_slots cap m" and "started m \<or> workers m = []" and "all_found m"
  shows "inv_slots cap m'"
  using assms
  by (induction rule: mtrans.induct) (auto simp: inv_slots_def set_defs sum_list_replicate all_found_def)

section \<open>The mutex\<close>

lemma inv_lock_init: "inv_lock (new_manager cap)"
  by (simp add: inv_lock_def new_manager_def)

lemma inv_lock_free: "inv_lock m \<Longrightarrow> lock m = None \<Longrightarrow> p \<in> set (producers m) \<Longrightarrow> p_live p = []"
  by (auto simp: inv_lock_def in_set_conv_nth critical_live)

lemma inv_lock_stop:
  assumes "inv_lock m" and "lock m = None" and "producers m' = producers m" and "lock m' = lock m"
  shows "inv_lock (stop_body b m')"
  using assms inv_lock_free[of m] by (simp add: inv_lock_def)

lemma inv_lock_trans:
  assumes "mtrans d m m'" and "inv_lock m" and "\<not> chan_closed (slots m)"
  shows "inv_lock m'"
  using assms
proof (induction rule: mtrans.induct)
  case (call_rejected m e)
  then show ?case by (auto simp: inv_lock_def nth_append less_Suc_eq)
next
  case (call n m)
  then show ?case by (auto simp: inv_lock_def nth_append less_Suc_eq)
qed (auto simp: set_defs intro: inv_lock_stop
      | auto simp: inv_lock_def set_defs nth_list_update dest!: set_update_subset_insert[THEN subsetD])+

section \<open>The life cycle\<close>

lemma inv_flags_init: "inv_flags d (new_manager cap)"
  by (simp add: inv_flags_def new_manager_def queue_ok_def make_chan_def)

lemma inv_flags_frame [simp]:
  "inv_flags d (m\<lparr>m_store := s\<rparr>) = inv_flags d m"
  "inv_flags d (m\<lparr>slots := c\<rparr>) = inv_flags d m"
  "inv_flags d (m\<lparr>lock := l\<rparr>) = inv_flags d m"
  "inv_flags d (m\<lparr>producers := ps\<rparr>) = inv_flags d m"
  "inv_flags d (m\<lparr>callers := cs\<rparr>) = inv_flags d m"
  "inv_flags d (m\<lparr>next_uuid := q\<rparr>) = inv_flags d m"
  "inv_flags d (m\<lparr>admitted := a\<rparr>) = inv_flags d m"
  "inv_flags d (m\<lparr>after_func := af\<rparr>) = inv_flags d m"
  "inv_flags d (complete d' q n e b m) = inv_flags d m"
  by (simp_all add: inv_flags_def queue_ok_def)

lemma single:
  assumes "length xs = (if b then 1 else 0)" and "j < length xs"
  shows "xs = [xs ! j] \<and> j = 0"
  using assms by (cases xs) (auto split: if_splits)

lemma replicate_no_exit [simp]: "WExit \<notin> set (replicate n WLoop)"
  by simp

lemma inv_flags_worker:
  assumes "inv_flags d m" and "i < length (workers m)" and "workers m ! i \<noteq> WExit" and "p \<noteq> WExit"
  shows "inv_flags d (set_worker i p m)"
proof -
  have "workers m ! i \<in> set (workers m)" using assms(2) by simp
  then have "\<forall>f \<in> set (finishers m). \<not> past_wait f" using assms(1,3) by (fastforce simp: inv_flags_def)
  moreover have "WExit \<in> set ((workers m)[i := p]) \<Longrightarrow> WExit \<in> set (workers m)"
    using assms(4) set_update_subset_insert[of "workers m" i p] by auto
  ultimately show ?thesis using assms(1) by (auto simp: inv_flags_def set_defs queue_ok_def)
qed

lemma the_finisher:
  assumes "inv_flags d m" and "j < length (finishers m)" and "finishers m ! j = f"
  shows "finishers m = [f]" and "j = 0" and "finishing m"
proof -
  have "length (finishers m) = (if finishing m then 1 else 0)" using assms(1) by (simp add: inv_flags_def)
  then show "finishers m = [f]" and "j = 0" and "finishing m"
    using single[of "finishers m" "finishing m" j] assms(2,3) by (auto split: if_splits)
qed

lemma inv_flags_finisher:
  assumes "inv_flags d m" and "j < length (finishers m)"
    and "past_wait f \<longrightarrow> (\<forall>p \<in> set (workers m). p = WExit)"
    and "past_stop f \<longrightarrow> stopped m \<and> run_ctx m \<noteq> Some False"
    and "finishers m ! j \<noteq> FDone" and "f \<noteq> FDone"
  shows "inv_flags d (set_finisher j f m)"
proof -
  note fs = the_finisher[OF assms(1,2) refl]
  obtain g where g: "finishers m ! j = g" "finishers m = [g]" "j = 0" using fs by metis
  then show ?thesis using assms by (auto simp: inv_flags_def set_defs queue_ok_def)
qed

text \<open>Moving on within the loop of \<open>finish\<close>.\<close>

lemma inv_flags_draining:
  assumes "inv_flags d m" and "j < length (finishers m)" and "past_stop (finishers m ! j)"
    and "finishers m ! j \<noteq> FDone" and "past_stop f" and "f \<noteq> FDone"
  shows "inv_flags d (set_finisher j f m)"
proof -
  have "finishers m ! j \<in> set (finishers m)" using assms(2) by simp
  then have "\<forall>p \<in> set (workers m). p = WExit" "stopped m" "run_ctx m \<noteq> Some False"
    using assms(1,3) unfolding inv_flags_def past_wait_def past_stop_def by blast+
  then show ?thesis using assms by (intro inv_flags_finisher) simp_all
qed

lemma inv_flags_stop:
  assumes "inv_flags d m"
  shows "inv_flags d (stop_body b m)"
proof -
  have "queue_ok m" using assms by (simp add: inv_flags_def)
  note q = stop_body_queue_ok[OF this, of b]
  show ?thesis
  proof (cases "finishing m")
    case True
    then show ?thesis using assms q by (auto simp: inv_flags_def)
  next
    case False
    then have "finishers m = []" and "\<not> started m" and "workers m = []" and "run_ctx m = None"
      using assms by (auto simp: inv_flags_def)
    then show ?thesis using assms q False by (auto simp: inv_flags_def past_wait_def past_stop_def)
  qed
qed

lemma stop_body_set_finisher:
  "finishing m \<Longrightarrow> stop_body b (set_finisher j f m) = set_finisher j f (stop_body b m)"
proof -
  have "close_queue (m\<lparr>finishers := fs\<rparr>) = close_queue m\<lparr>finishers := fs\<rparr>" for fs :: "'a finisher list"
    by (simp add: close_queue_def split: option.splits)
  moreover have "finishers (close_queue m) = finishers m" "finishing (close_queue m) = finishing m"
    by (simp_all add: close_queue_def split: option.splits)
  moreover assume "finishing m"
  ultimately show ?thesis
    by (cases "stopped m"; cases b) (simp_all add: stop_body_def set_finisher_def Let_def)
qed

text \<open>What holds once the finisher drains the mailbox.\<close>

lemma draining_facts:
  assumes "inv_flags d m" and "j < length (finishers m)" "finishers m ! j = FRange"
  shows "finishers m = [FRange]" "j = 0" "finishing m" "stopped m" "run_ctx m \<noteq> Some False"
    "\<forall>p \<in> set (workers m). p = WExit" "started m \<or> stopped m"
proof -
  show fs: "finishers m = [FRange]" "j = 0" "finishing m" using assms by (auto dest: the_finisher)
  show "stopped m" "run_ctx m \<noteq> Some False" "\<forall>p \<in> set (workers m). p = WExit" "started m \<or> stopped m"
    using assms(1) by (simp_all add: inv_flags_def fs(1) past_wait_def past_stop_def)
qed

lemma inv_flags_finish_stop:
  assumes inv: "inv_flags d m" and j: "j < length (finishers m)" "finishers m ! j = FStop"
  shows "inv_flags d (stop_body False (set_finisher j FRange m))"
proof -
  have f: "finishing m" using inv j by (auto simp: inv_flags_def split: if_splits)
  have "FStop \<in> set (finishers m)" using j by (metis nth_mem)
  then have "\<forall>p \<in> set (workers m). p = WExit"
    using inv unfolding inv_flags_def past_wait_def by blast
  moreover have "inv_flags d (stop_body False m)" using inv by (rule inv_flags_stop)
  ultimately have "inv_flags d (set_finisher j FRange (stop_body False m))"
    using j f by (intro inv_flags_finisher) simp_all
  then show ?thesis by (simp add: stop_body_set_finisher f)
qed

lemma inv_flags_trans:
  assumes "mtrans d m m'" and "inv_flags d m" and "inv_lock m" and "\<not> chan_closed (slots m)"
    and "valid_dispatcher d"
  shows "inv_flags d m'"
  using assms
proof (induction rule: mtrans.induct)
  case (send_panic i m c q n)
  then have "stopped m" by (simp add: inv_flags_def queue_ok_def)
  moreover have "PSend c q n \<in> set (producers m)" using send_panic by (metis nth_mem)
  ultimately show ?case using send_panic.prems by (fastforce simp: inv_lock_def)
next
  case (after m)
  then have "inv_flags d (m\<lparr>after_func := False\<rparr>)" by simp
  then show ?case by (rule inv_flags_stop)
next
  case (caller_stop m b cs)
  then have "inv_flags d (m\<lparr>callers := cs\<rparr>)" by simp
  then show ?case by (rule inv_flags_stop)
next
  case (start m)
  then have "\<not> finishing m" and "finishers m = []" by (auto simp: inv_flags_def)
  then show ?case using start by (auto simp: inv_flags_def queue_ok_def past_wait_def past_stop_def)
next
  case (worker_exit i m)
  then have "\<forall>p \<in> set ((workers m)[i := WExit]). p = WExit" if "\<forall>p \<in> set (workers m). p = WExit"
    using that by (intro Ball_update) simp_all
  then show ?case using worker_exit by (auto simp: inv_flags_def set_defs queue_ok_def)
next
  case (worker_recv i m q qs)
  then have "inv_flags d (set_worker i (WGot q) m)" by (intro inv_flags_worker) simp_all
  moreover have "WLoop \<in> set (workers m)" using worker_recv by (metis nth_mem)
  ultimately show ?case using worker_recv by (fastforce simp: inv_flags_def set_defs queue_ok_def past_wait_def)
next
  case (worker_complete i m q n err)
  then show ?case by (intro inv_flags_worker) simp_all
next
  case (worker_panic ctx q n w m)
  then show ?case using deliver_outcome_Some[of d ctx q n w] by simp
next
  case (finish_stop j m)
  then show ?case using inv_flags_finish_stop[of d m j] by simp
next
  case (finish_done j m)
  note facts = draining_facts[OF finish_done.prems(1) finish_done.hyps(1,2)]
  show ?case using finish_done.prems(1) finish_done.hyps facts by (simp add: inv_flags_def set_defs queue_ok_def)
next
  case (finish_panic j m)
  then have "FRange \<in> set (finishers m)" by (metis nth_mem)
  then show ?case using finish_panic by (fastforce simp: inv_flags_def)
next
  case (finish_recv j m q qs)
  note facts = draining_facts[OF finish_recv.prems(1) finish_recv.hyps(1,2)]
  show ?case using finish_recv.prems(1) finish_recv.hyps facts by (auto simp add: inv_flags_def set_defs queue_ok_def)
next
  case (send i m c q n)
  then have "\<not> stopped m" by (simp add: inv_flags_def queue_ok_def)
  then have "WExit \<in> set (workers m) \<Longrightarrow> run_ctx m = Some True" and "\<forall>f \<in> set (finishers m). f \<noteq> FDone"
    using send.prems(1) unfolding inv_flags_def past_stop_def by blast+
  then show ?case using send.prems(1) by (simp add: inv_flags_def queue_ok_def set_producer_def)
next
  case (cancel m)
  then show ?case by (simp add: inv_flags_def queue_ok_def)
next
  case (finish_wait j m)
  then show ?case by (intro inv_flags_finisher) (simp_all add: past_stop_def)
next
  case (finish_delete j m q nn)
  then show ?case using inv_flags_draining[of d m j "FDeleted q nn"] by (simp add: past_stop_def)
next
  case (finish_release j m q nn u us)
  then show ?case using inv_flags_draining[of d m j "FReleased q nn"] by (simp add: past_stop_def)
qed (simp_all add: inv_flags_worker inv_flags_draining past_stop_def set_producer_def)

section \<open>Identifiers\<close>

lemma inv_ids_init: "inv_ids (new_manager cap)"
  by (simp add: inv_ids_def balance_def issued_def in_flight_def finished_ids_def new_manager_def make_chan_def)

lemma finished_ids_complete: "finished_ids (complete d q n e b m) = finished_ids m @ [q]"
  by (simp add: finished_ids_def complete_def Let_def)

lemma inv_ids_bound: "inv_ids m \<Longrightarrow> issued m q \<le> (if 0 < q \<and> q < next_uuid m then 1 else 0)"
  unfolding inv_ids_def by blast

lemma inv_ids_step:
  assumes "inv_ids m" and "\<And>q. balance m' q = balance m q" and "\<And>q. issued m' q \<le> issued m q"
    and "next_uuid m' = next_uuid m"
  shows "inv_ids m'"
  unfolding inv_ids_def
proof (intro conjI allI)
  fix q
  show "balance m' q = 0" using assms(1,2) by (simp add: inv_ids_def)
  show "issued m' q \<le> (if 0 < q \<and> q < next_uuid m' then 1 else 0)"
    unfolding assms(4) using assms(3)[of q] inv_ids_bound[OF assms(1), of q] by (rule order_trans)
qed (use assms(1,4) in \<open>simp add: inv_ids_def\<close>)

lemmas id_defs = balance_def issued_def in_flight_def finished_ids_def

lemma inv_ids_trans:
  assumes "mtrans d m m'" and "inv_ids m" and "\<not> chan_closed (slots m)" and "all_found m"
    and "started m \<or> workers m = []" and "\<forall>f \<in> set (finishers m). f_data A f"
  shows "inv_ids m'"
  using assms
proof (induction rule: mtrans.induct)
  case (call n m)
  let ?m = "m\<lparr>producers := producers m @ [PSelect None (next_uuid m) n], next_uuid := Suc (next_uuid m)\<rparr>"
  have "issued ?m q \<le> (if 0 < q \<and> q < Suc (next_uuid m) then 1 else 0)" for q
  proof -
    have "issued ?m q = issued m q + (if next_uuid m = q then 1 else 0)" by (simp add: issued_def)
    then show ?thesis
      using inv_ids_bound[OF call.prems(1), of q] call.prems(1)
      by (auto simp: inv_ids_def less_Suc_eq split: if_splits)
  qed
  moreover have "balance ?m q = balance m q" for q by (simp add: id_defs)
  ultimately show ?case using call.prems(1) by (simp add: inv_ids_def)
next
  case (finish_skip j m q)
  have "FReleased q None \<in> set (finishers m)" using finish_skip.hyps by (metis nth_mem)
  then show ?case using finish_skip.prems by fastforce
next
  case (worker_missing i m q)
  then have False unfolding all_found_def by blast
  then show ?case ..
next
  case (start m)
  then have "workers m = []" by simp
  then show ?case by (intro inv_ids_step[OF start.prems(1)]) (simp_all add: id_defs sum_list_replicate)
next
  case (worker_complete i m q n err)
  then show ?case
    by (intro inv_ids_step[OF worker_complete.prems(1)]) (simp_all add: id_defs set_worker_def complete_def Let_def)
next
  case (finish_complete j m q n)
  then show ?case
    by (intro inv_ids_step[OF finish_complete.prems(1)]) (simp_all add: id_defs set_finisher_def complete_def Let_def)
qed (erule inv_ids_step; simp add: id_defs set_defs all_found_def)+

section \<open>The store\<close>

lemma live_le_ids: "occ q (p_live p) \<le> occ q (p_ids p)" "occ q (w_live w) \<le> occ q (w_ids w)"
  "occ q (f_live f) \<le> occ q (f_ids f)"
  subgoal by (cases p) simp_all
  subgoal by (cases w) simp_all
  subgoal by (cases f) simp_all
  done

lemma holders_nonneg [simp]: "0 \<le> holders ids q gs"
  by (intro sum_list_nonneg) auto

lemma live_parts:
  shows "occ q (buffer (mailbox m)) \<le> live m q" and "holders p_live q (producers m) \<le> live m q"
    and "holders w_live q (workers m) \<le> live m q" and "holders f_live q (finishers m) \<le> live m q"
  unfolding live_def by (simp_all add: add_increasing add_increasing2)

lemma live_nonneg: "0 \<le> live m q"
  by (simp add: live_def)

lemma live_at_most_one: "inv_store m \<Longrightarrow> live m q \<le> 1"
  unfolding inv_store_def by (metis order_refl zero_le_one)

lemma live_stored: "inv_store m \<Longrightarrow> 0 < live m q \<Longrightarrow> \<exists>n. store_get (m_store m) q = Some n"
  unfolding inv_store_def by (metis less_irrefl option.exhaust)

lemma one_holder: "x \<in> set gs \<Longrightarrow> q \<in> set (ids x) \<Longrightarrow> 0 < holders ids q gs"
  using member_le_sum_list_map[where f = "\<lambda>g. occ q (ids g)" and x = x and xs = gs]
  by (metis less_le_trans occ_nonneg occ_pos_iff)

lemma send_live: "PSend c q n \<in> set (producers m) \<Longrightarrow> 0 < live m q"
  using one_holder[of "PSend c q n" "producers m" q p_live] live_parts(2)[where m = m and q = q] by simp

lemma got_live: "WGot q \<in> set (workers m) \<Longrightarrow> 0 < live m q"
  using one_holder[of "WGot q" "workers m" q w_live] live_parts(3)[where m = m and q = q] by simp

lemma inv_store_all_found: "inv_store m \<Longrightarrow> all_found m"
  unfolding all_found_def by (metis got_live live_stored nth_mem option.distinct(1))

lemma inv_store_init: "inv_store (new_manager cap)"
  by (simp add: inv_store_def live_def new_manager_def make_chan_def store_defs)

lemma inv_store_step:
  assumes "inv_store m" and "m_store m' = m_store m" and "\<And>q. live m' q = live m q"
    and "\<And>c q n. PSend c q n \<in> set (producers m') \<Longrightarrow> PSend c q n \<in> set (producers m)"
    and "admitted m' = admitted m"
  shows "inv_store m'"
  using assms(1) unfolding inv_store_def assms(2,3,5) using assms(4) by blast

lemma update_keeps: "x \<in> set (xs[i := y]) \<Longrightarrow> x \<noteq> y \<Longrightarrow> x \<in> set xs"
  using set_update_subset_insert[of xs i y] by auto

lemma in_update: "x \<in> set (xs[i := y]) \<Longrightarrow> x = y \<or> x \<in> set xs"
  using set_update_subset_insert[of xs i y] by auto

text \<open>An ID that a producer has not put in the store yet is nowhere else.\<close>

lemma check_fresh:
  assumes "inv_ids m" and "i < length (producers m)" and "producers m ! i = PCheck c q n"
  shows "live m q = 0" and "occ q (map fst (admitted m)) = 0"
proof -
  have "PCheck c q n \<in> set (producers m)" using assms(2,3) by (metis nth_mem)
  from sum_list_map_mono_gap[where f = "\<lambda>p. occ q (p_live p)" and g = "\<lambda>p. occ q (p_ids p)", OF live_le_ids(1) this]
  have p: "holders p_live q (producers m) + 1 \<le> holders p_ids q (producers m)"
    by simp
  have "issued m q \<le> 1" using inv_ids_bound[OF assms(1), of q] by (auto split: if_splits)
  moreover have a: "0 \<le> occ q (map fst (admitted m))" "0 \<le> holders p_live q (producers m)" by simp_all
  ultimately show adm: "occ q (map fst (admitted m)) = 0" using p unfolding issued_def by linarith
  have "holders p_live q (producers m) = 0"
    using \<open>issued m q \<le> 1\<close> p a unfolding issued_def by linarith
  moreover have "balance m q = 0" using assms(1) by (simp add: inv_ids_def)
  then have "in_flight m q + occ q (finished_ids m) = 0" by (simp add: balance_def adm)
  moreover have "0 \<le> occ q (finished_ids m)" "0 \<le> holders w_ids q (workers m)" "0 \<le> holders f_ids q (finishers m)"
    "0 \<le> occ q (buffer (mailbox m))" by simp_all
  moreover have "holders w_live q (workers m) \<le> holders w_ids q (workers m)"
    "holders f_live q (finishers m) \<le> holders f_ids q (finishers m)"
    by (intro sum_list_map_le live_le_ids)+
  ultimately have "live m q \<le> 0" unfolding live_def in_flight_def by linarith
  moreover have "0 \<le> live m q" by (simp add: live_def)
  ultimately show "live m q = 0" by simp
qed

lemma admitted_in_flight:
  assumes "inv_ids m" and "0 < in_flight m q"
  shows "\<exists>n. (q, n) \<in> set (admitted m)"
proof -
  have "balance m q = 0" using assms(1) by (simp add: inv_ids_def)
  moreover have "0 \<le> occ q (finished_ids m)" by simp
  ultimately have "0 < occ q (map fst (admitted m))" using assms(2) unfolding balance_def by linarith
  then show ?thesis by auto
qed

text \<open>Deleting the entry of an ID that one goroutine alone is responsible for.\<close>

lemma inv_store_delete:
  assumes "inv_store m" and "m_store m' = store_delete q (m_store m)" and "admitted m' = admitted m"
    and "producers m' = producers m" and "\<And>q'. live m' q' = live m q' - (if q' = q then 1 else 0)"
  shows "inv_store m'"
proof -
  have l: "live m q = 1" using live_at_most_one[OF assms(1), of q] assms(5)[of q] live_nonneg[of m' q] by simp
  then have "live m' q = 0" using assms(5)[of q] by simp
  then have "holders p_live q (producers m) \<le> 0" using live_parts(2)[of q m'] assms(4) by simp
  then have "PSend c q n \<notin> set (producers m)" for c n
    using one_holder[of "PSend c q n" "producers m" q p_live] by auto
  moreover have "map_ok (m_store m)" using assms(1) by (simp add: inv_store_def)
  moreover have "live m' q' = (if store_get (m_store m') q' = None then 0 else 1)" for q'
    using assms(1,2) assms(5)[of q'] \<open>map_ok (m_store m)\<close> \<open>live m' q = 0\<close>
    by (auto simp: inv_store_def ns.get_delete)
  ultimately show ?thesis
    using assms(1-4) unfolding inv_store_def by (auto simp: ns.get_delete ns.delete_ok)
qed

text \<open>Admission puts the notification of a fresh ID into the store.\<close>

lemma inv_store_put:
  assumes inv: "inv_store m" and fresh: "live m q = 0" "q \<notin> set (map fst (admitted m))"
    and live: "\<And>q'. live (set_producer i (PSend None q n) m) q' = live m q' + (if q = q' then 1 else 0)"
  shows "inv_store (set_producer i (PSend None q n) m\<lparr>m_store := store_put q n (m_store m)\<rparr>)"
proof -
  have ok: "map_ok (m_store m)" using inv by (simp add: inv_store_def)
  let ?m = "set_producer i (PSend None q n) m\<lparr>m_store := store_put q n (m_store m)\<rparr>"
  have "live ?m q' = live m q' + (if q = q' then 1 else 0)" for q'
    using live[of q'] by (simp add: live_def set_producer_def)
  then have "live ?m q' = (if store_get (m_store ?m) q' = None then 0 else 1)" for q'
    using inv fresh ok by (simp add: inv_store_def ns.get_put)
  moreover have "p \<in> set (producers ?m) \<Longrightarrow> p = PSend c q' n' \<Longrightarrow> store_get (m_store ?m) q' = Some n'" for p c q' n'
  proof -
    assume "p \<in> set (producers ?m)" "p = PSend c q' n'"
    then have "q' = q \<and> n' = n \<or> PSend c q' n' \<in> set (producers m)"
      using update_keeps[of p "producers m" i "PSend None q n"] by (auto simp: set_producer_def)
    then show ?thesis
      using send_live[of c q' n' m] fresh ok inv by (auto simp: inv_store_def ns.get_put)
  qed
  moreover have "n'' = n'" if "(q', n') \<in> set (admitted ?m)" "store_get (m_store ?m) q' = Some n''" for q' n' n''
  proof -
    have "q' \<noteq> q" using that(1) fresh(2) by (force simp: set_producer_def)
    then show ?thesis using that inv ok by (auto simp: inv_store_def ns.get_put set_producer_def)
  qed
  ultimately show ?thesis using ok unfolding inv_store_def by (auto simp: ns.put_ok)
qed

lemma inv_store_trans:
  assumes "mtrans d m m'" and "inv_store m" and "inv_ids m" and "\<not> chan_closed (slots m)"
    and "started m \<or> workers m = []"
  shows "inv_store m'"
  using assms
proof (induction rule: mtrans.induct)
  case (put i m q n)
  have fresh: "live m q = 0" "q \<notin> set (map fst (admitted m))"
    using check_fresh[OF put.prems(2) put.hyps(1,2)] by (simp_all add: occ_zero_iff del: set_map)
  then show ?case
    using put.hyps by (intro inv_store_put[OF put.prems(1)]) (simp_all add: live_def set_producer_def)
next
  case (send i m c q n)
  let ?m = "set_producer i (PReturn q None) m
      \<lparr>mailbox := mailbox m\<lparr>buffer := buffer (mailbox m) @ [q]\<rparr>, lock := None, admitted := admitted m @ [(q, n)]\<rparr>"
  have "PSend c q n \<in> set (producers m)" using send.hyps by (metis nth_mem)
  then have "store_get (m_store m) q = Some n" using send.prems(1) unfolding inv_store_def by blast
  moreover have "live ?m q' = live m q'" for q'
    using send.hyps by (simp add: live_def set_producer_def)
  moreover have "PSend c' q' n' \<in> set (producers ?m) \<Longrightarrow> store_get (m_store m) q' = Some n'" for c' q' n'
    using send.prems(1) update_keeps[of "PSend c' q' n'" "producers m" i "PReturn q None"]
    by (auto simp: inv_store_def set_producer_def)
  ultimately show ?case
    using send.prems(1) unfolding inv_store_def by (auto simp: set_producer_def)
next
  case (worker_delete i m q n)
  then show ?case
    by (intro inv_store_delete[OF worker_delete.prems(1), of _ q]) (simp_all add: live_def set_worker_def)
next
  case (finish_delete j m q nn)
  then show ?case
    by (intro inv_store_delete[OF finish_delete.prems(1), of _ q]) (simp_all add: live_def set_finisher_def)
next
  case (worker_missing i m q)
  then have False using inv_store_all_found[of m] unfolding all_found_def by blast
  then show ?case ..
next
  case (start m)
  then have "workers m = []" by simp
  then show ?case by (intro inv_store_step[OF start.prems(1)]) (simp_all add: live_def sum_list_replicate)
next
  case (call_rejected m e)
  then show ?case by (intro inv_store_step[OF call_rejected.prems(1)]) (auto simp: live_def)
next
  case (call n m)
  then show ?case by (intro inv_store_step[OF call.prems(1)]) (auto simp: live_def)
qed (erule inv_store_step; auto simp: live_def set_defs dest: update_keeps)+

section \<open>The notifications under way\<close>

lemma inv_data_init: "inv_data d (new_manager cap)"
  by (simp add: inv_data_def new_manager_def)

lemma w_data_mono: "w_data d A w \<Longrightarrow> A \<subseteq> B \<Longrightarrow> w_data d B w"
  by (cases w) auto

lemma f_data_mono: "f_data A f \<Longrightarrow> A \<subseteq> B \<Longrightarrow> f_data B f"
  by (cases f) auto

lemma completion_of_mono: "completion_of d A c b \<Longrightarrow> A \<subseteq> B \<Longrightarrow> completion_of d B c b"
  unfolding completion_of_def by blast

lemma inv_data_nth:
  assumes "inv_data d m"
  shows "i < length (workers m) \<Longrightarrow> w_data d (set (admitted m)) (workers m ! i)"
    and "j < length (finishers m) \<Longrightarrow> f_data (set (admitted m)) (finishers m ! j)"
  using assms by (simp_all add: inv_data_def)

text \<open>What is stored under an ID that has left the mailbox is what was admitted.\<close>

lemma stored_admitted:
  assumes "inv_ids m" and "inv_store m" and "0 < in_flight m q" and "store_get (m_store m) q = Some n"
  shows "(q, n) \<in> set (admitted m)"
  using admitted_in_flight[OF assms(1,3)] assms(2,4) unfolding inv_store_def by blast

lemma got_in_flight:
  "WGot q \<in> set (workers m) \<Longrightarrow> 0 < in_flight m q" "FGot q \<in> set (finishers m) \<Longrightarrow> 0 < in_flight m q"
proof -
  have nn: "0 \<le> occ q (buffer (mailbox m))" "0 \<le> holders w_ids q (workers m)" "0 \<le> holders f_ids q (finishers m)"
    by simp_all
  show "0 < in_flight m q" if "WGot q \<in> set (workers m)"
  proof -
    have "0 < holders w_ids q (workers m)" using one_holder[OF that, of q w_ids] by simp
    then show ?thesis using nn unfolding in_flight_def by linarith
  qed
  show "0 < in_flight m q" if "FGot q \<in> set (finishers m)"
  proof -
    have "0 < holders f_ids q (finishers m)" using one_holder[OF that, of q f_ids] by simp
    then show ?thesis using nn unfolding in_flight_def by linarith
  qed
qed

lemma finish_got_live: "FGot q \<in> set (finishers m) \<Longrightarrow> 0 < live m q"
  using one_holder[of "FGot q" "finishers m" q f_live] live_parts(4)[where m = m and q = q] by simp

lemma inv_data_step:
  assumes "inv_data d m" and "set (admitted m) \<subseteq> set (admitted m')"
    and "\<And>w. w \<in> set (workers m') \<Longrightarrow> w \<in> set (workers m) \<or> w_data d (set (admitted m)) w"
    and "\<And>f. f \<in> set (finishers m') \<Longrightarrow> f \<in> set (finishers m) \<or> f_data (set (admitted m)) f"
    and "finished m' = finished m" and "callbacks m' = callbacks m"
  shows "inv_data d m'"
  unfolding inv_data_def
proof (intro conjI ballI)
  fix w assume "w \<in> set (workers m')"
  then have "w_data d (set (admitted m)) w" using assms(1,3) unfolding inv_data_def by blast
  then show "w_data d (set (admitted m')) w" using assms(2) by (rule w_data_mono)
next
  fix f assume "f \<in> set (finishers m')"
  then have "f_data (set (admitted m)) f" using assms(1,4) unfolding inv_data_def by blast
  then show "f_data (set (admitted m')) f" using assms(2) by (rule f_data_mono)
qed (use assms in \<open>auto simp: inv_data_def intro: completion_of_mono\<close>)

lemma inv_data_complete:
  assumes "inv_data d m" and "(q, n) \<in> set (admitted m)"
    and "if b then err = Some ErrManagerStopped else delivered d q n err"
  shows "inv_data d (complete d q n err b m)"
  using assms by (auto simp: inv_data_def complete_def Let_def completion_of_def)

lemma inv_data_set:
  assumes "inv_data d m"
  shows "w_data d (set (admitted m)) w \<Longrightarrow> inv_data d (set_worker i w m)"
    and "f_data (set (admitted m)) f \<Longrightarrow> inv_data d (set_finisher j f m)"
  by (rule inv_data_step[OF assms]; auto simp: set_defs dest: update_keeps)+

lemma inv_data_frame [simp]:
  "inv_data d (m\<lparr>mailbox := b\<rparr>) = inv_data d m" "inv_data d (m\<lparr>m_store := s\<rparr>) = inv_data d m"
  "inv_data d (m\<lparr>slots := c\<rparr>) = inv_data d m" "inv_data d (m\<lparr>m_done := c\<rparr>) = inv_data d m"
  by (simp_all add: inv_data_def)

lemma inv_data_trans:
  assumes "mtrans d m m'" and "inv_data d m" and "inv_ids m" and "inv_store m" and "\<not> chan_closed (slots m)"
  shows "inv_data d m'"
  using assms
proof (induction rule: mtrans.induct)
  case (worker_found i m q n)
  then have "WGot q \<in> set (workers m)" by (metis nth_mem)
  then have "(q, n) \<in> set (admitted m)"
    using worker_found stored_admitted got_in_flight(1) by metis
  then show ?case using worker_found.prems(1) by (intro inv_data_set) simp_all
next
  case (finish_get j m q)
  then have "FGot q \<in> set (finishers m)" by (metis nth_mem)
  then obtain n where "store_get (m_store m) q = Some n" "(q, n) \<in> set (admitted m)"
    using finish_get.prems stored_admitted got_in_flight(2) finish_got_live live_stored by metis
  then show ?case using finish_get.prems(1) by (intro inv_data_set) simp_all
next
  case (worker_complete i m q n err)
  then have "inv_data d (complete d q n err False m)"
    using inv_data_nth(1)[of d m i] by (intro inv_data_complete) simp_all
  then show ?case by (intro inv_data_set) simp_all
next
  case (finish_complete j m q n)
  then have "inv_data d (complete d q n (Some ErrManagerStopped) True m)"
    using inv_data_nth(2)[of d m j] by (intro inv_data_complete) simp_all
  then show ?case by (intro inv_data_set) simp_all
next
  case (worker_delete i m q n)
  then have "inv_data d (set_worker i (WDeleted q n) m)"
    using inv_data_nth(1)[of d m i] by (intro inv_data_set) simp_all
  then show ?case by simp
next
  case (worker_release i m q n u us)
  then have "inv_data d (set_worker i (WDeliver q n) m)"
    using inv_data_nth(1)[of d m i] by (intro inv_data_set) simp_all
  then show ?case by simp
next
  case (worker_deliver i m q n ctx w err w')
  then have "delivered d q n err" unfolding delivered_def by blast
  then show ?case using worker_deliver inv_data_nth(1)[of d m i] by (intro inv_data_set) simp_all
next
  case (finish_delete j m q nn)
  then have "inv_data d (set_finisher j (FDeleted q nn) m)"
    using inv_data_nth(2)[of d m j] by (intro inv_data_set) simp_all
  then show ?case by simp
next
  case (finish_release j m q nn u us)
  then have "inv_data d (set_finisher j (FReleased q nn) m)"
    using inv_data_nth(2)[of d m j] by (intro inv_data_set) simp_all
  then show ?case by simp
qed (auto elim!: inv_data_step simp: set_defs dest!: in_update split: if_splits)

section \<open>The invariant\<close>

definition minv :: "('v, 'x) dispatcher \<Rightarrow> nat \<Rightarrow> 'v manager \<Rightarrow> bool" where
  "minv d cap m \<longleftrightarrow> inv_slots cap m \<and> inv_lock m \<and> inv_flags d m \<and> inv_ids m \<and> inv_store m \<and> inv_data d m"

lemma minv_init: "minv d cap (new_manager cap)"
  by (simp add: minv_def inv_slots_init inv_lock_init inv_flags_init inv_ids_init inv_store_init inv_data_init)

lemma minv_trans:
  assumes "mtrans d m m'" and "minv d cap m" and "valid_dispatcher d"
  shows "minv d cap m'"
proof -
  have open_slots: "\<not> chan_closed (slots m)" using assms(2) by (simp add: minv_def inv_slots_def)
  have running: "started m \<or> workers m = []" using assms(2) by (auto simp: minv_def inv_flags_def)
  have found: "all_found m" using assms(2) inv_store_all_found by (auto simp: minv_def)
  have data: "\<forall>f \<in> set (finishers m). f_data (set (admitted m)) f"
    using assms(2) by (simp add: minv_def inv_data_def)
  note parts = assms(2)[unfolded minv_def]
  show ?thesis
    unfolding minv_def
    using parts inv_slots_trans[OF assms(1) _ running found] inv_lock_trans[OF assms(1) _ open_slots]
      inv_flags_trans[OF assms(1) _ _ open_slots assms(3)] inv_ids_trans[OF assms(1) _ open_slots found running data]
      inv_store_trans[OF assms(1) _ _ open_slots running] inv_data_trans[OF assms(1) _ _ _ open_slots]
    by blast
qed

lemma reachable_minv: "reachable_by P d cap m \<Longrightarrow> valid_dispatcher d \<Longrightarrow> minv d cap m"
  by (induction rule: reachable_by.induct) (auto intro: minv_init minv_trans mstep_mtrans)

end
