(* ===== verification/Manager_Facts.thy ===== *)
theory Manager_Facts
  imports Manager_Invariant
begin

text \<open>
  Consequences of the manager's invariant: which operations cannot block, what holds once
  \<open>done\<close> is closed, why a stopped manager always finishes, and what a shutdown that nothing
  aborts guarantees.
\<close>

lemmas minv_parts = minv_def[THEN iffD1]

lemma minvD:
  assumes "minv d cap m"
  shows "inv_slots cap m" and "inv_lock m" and "inv_flags d m" and "inv_ids m" and "inv_store m" and "inv_data d m"
    and "\<not> chan_closed (slots m)" and "all_found m"
  using assms inv_store_all_found by (auto simp: minv_def inv_slots_def)

section \<open>Slots are there when they are needed\<close>

lemma p_slot_nonneg [simp]: "0 \<le> p_slot p"
  by (cases p) simp_all

lemma w_slot_nonneg [simp]: "0 \<le> w_slot w"
  by (cases w) simp_all

lemma f_slot_nonneg [simp]: "0 \<le> f_slot f"
  by (cases f) simp_all

lemma slot_sums_nonneg [simp]:
  "0 \<le> sum_list (map p_slot ps)" "0 \<le> sum_list (map w_slot ws)" "0 \<le> sum_list (map f_slot fs)"
  by (auto intro!: sum_list_nonneg)

lemma slot_used:
  assumes "inv_slots cap m"
  shows "p \<in> set (producers m) \<Longrightarrow> p_slot p = 1 \<Longrightarrow> buffer (slots m) \<noteq> []"
    and "w \<in> set (workers m) \<Longrightarrow> w_slot w = 1 \<Longrightarrow> buffer (slots m) \<noteq> []"
    and "f \<in> set (finishers m) \<Longrightarrow> f_slot f = 1 \<Longrightarrow> buffer (slots m) \<noteq> []"
proof -
  have eq: "int (length (buffer (slots m))) = int (length (buffer (mailbox m))) + sum_list (map p_slot (producers m))
       + sum_list (map w_slot (workers m)) + sum_list (map f_slot (finishers m))"
    using assms unfolding inv_slots_def by blast
  note nn = slot_sums_nonneg(1)[of "producers m"] slot_sums_nonneg(2)[of "workers m"] slot_sums_nonneg(3)[of "finishers m"]
  have pos: "0 < int (length (buffer (slots m))) \<Longrightarrow> buffer (slots m) \<noteq> []" by auto
  show "buffer (slots m) \<noteq> []" if "p \<in> set (producers m)" "p_slot p = 1"
    using member_le_sum_list_map[where f = p_slot, OF p_slot_nonneg that(1)] that(2) eq nn by (intro pos) linarith
  show "buffer (slots m) \<noteq> []" if "w \<in> set (workers m)" "w_slot w = 1"
    using member_le_sum_list_map[where f = w_slot, OF w_slot_nonneg that(1)] that(2) eq nn by (intro pos) linarith
  show "buffer (slots m) \<noteq> []" if "f \<in> set (finishers m)" "f_slot f = 1"
    using member_le_sum_list_map[where f = f_slot, OF f_slot_nonneg that(1)] that(2) eq nn by (intro pos) linarith
qed

lemma mailbox_room:
  assumes "inv_slots cap m" and "PSend c q n \<in> set (producers m)"
  shows "length (buffer (mailbox m)) < chan_cap (mailbox m)"
proof -
  have "1 \<le> sum_list (map p_slot (producers m))"
    using member_le_sum_list_map[of p_slot "PSend c q n" "producers m"] assms(2) by simp
  then show ?thesis
    using assms(1) slot_sums_nonneg(2)[of "workers m"] slot_sums_nonneg(3)[of "finishers m"]
    unfolding inv_slots_def by linarith
qed

lemma mailbox_bound: "inv_slots cap m \<Longrightarrow> length (buffer (mailbox m)) \<le> cap"
  using slot_sums_nonneg(1)[of "producers m"] slot_sums_nonneg(2)[of "workers m"] slot_sums_nonneg(3)[of "finishers m"]
  unfolding inv_slots_def by linarith

section \<open>The store is as small as the queue\<close>

text \<open>All IDs that must have an entry, in one list.\<close>

definition live_ids :: "'v manager \<Rightarrow> uuid list" where
  "live_ids m = buffer (mailbox m) @ concat (map p_live (producers m)) @ concat (map w_live (workers m))
     @ concat (map f_live (finishers m))"

lemma occ_concat: "occ q (concat (map ids gs)) = holders ids q gs"
  by (induction gs) simp_all

lemma occ_live_ids: "occ q (live_ids m) = live m q"
  by (simp add: live_ids_def live_def occ_concat)

lemma length_concat_le:
  fixes f :: "'a \<Rightarrow> int"
  shows "(\<And>g. int (length (ids g)) \<le> f g) \<Longrightarrow> int (length (concat (map ids gs))) \<le> sum_list (map f gs)"
  by (induction gs) (simp_all add: add_mono)

lemma length_live_le_slot: "int (length (p_live p)) \<le> p_slot p" "int (length (w_live w)) \<le> w_slot w"
  "int (length (f_live f)) \<le> f_slot f"
  subgoal by (cases p) simp_all
  subgoal by (cases w) simp_all
  subgoal by (cases f) simp_all
  done

lemma store_bound:
  assumes "inv_slots cap m" and "inv_store m"
  shows "length (m_store m) \<le> length (buffer (slots m))"
proof -
  have "int (length (live_ids m)) \<le> int (length (buffer (slots m)))"
    using assms(1) length_concat_le[of p_live p_slot "producers m", OF length_live_le_slot(1)]
      length_concat_le[of w_live w_slot "workers m", OF length_live_le_slot(2)]
      length_concat_le[of f_live f_slot "finishers m", OF length_live_le_slot(3)]
    unfolding inv_slots_def live_ids_def length_append of_nat_add by linarith
  moreover have "set (map fst (m_store m)) \<subseteq> set (live_ids m)"
  proof
    fix q assume "q \<in> set (map fst (m_store m))"
    then have "store_get (m_store m) q \<noteq> None" by (auto simp: store_get_def map_get_def map_of_eq_None_iff)
    then have "live m q = 1" using assms(2) unfolding inv_store_def by metis
    then show "q \<in> set (live_ids m)" by (metis occ_live_ids occ_pos_iff zero_less_one)
  qed
  moreover have "distinct (map fst (m_store m))" using assms(2) by (simp add: inv_store_def map_ok_def)
  ultimately show ?thesis
    by (metis card_length card_mono distinct_card le_trans length_map List.finite_set of_nat_le_iff)
qed

section \<open>Once done is closed\<close>

lemma done_state:
  assumes "minv d cap m" and "chan_closed (m_done m)"
  shows "stopped m" and "finishers m = [FDone]" and "\<forall>w \<in> set (workers m). w = WExit" and "buffer (mailbox m) = []"
proof -
  have flags: "inv_flags d m" using assms(1) by (rule minvD)
  then have "finishing m" using assms(2) by (simp add: inv_flags_def)
  then obtain f where f: "finishers m = [f]"
    using flags by (auto simp: inv_flags_def length_Suc_conv)
  then show fs: "finishers m = [FDone]" using flags assms(2) by (simp add: inv_flags_def)
  then show "stopped m" "\<forall>w \<in> set (workers m). w = WExit" "buffer (mailbox m) = []"
    using flags by (simp_all add: inv_flags_def past_wait_def past_stop_def)
qed

lemma all_exit_holders:
  assumes "\<forall>w \<in> set ws. w = WExit"
  shows "holders w_ids q ws = 0" and "holders w_live q ws = 0" and "sum_list (map w_slot ws) = 0"
  using assms by (induction ws) auto

lemma no_holders: "\<forall>g \<in> set gs. ids g = [] \<Longrightarrow> holders ids q gs = 0"
  by (induction gs) auto

lemma done_ids:
  assumes "minv d cap m" and "chan_closed (m_done m)"
  shows "mset (finished_ids m) = mset (map fst (admitted m))"
proof (rule mset_eq_occ)
  fix q
  have "in_flight m q = 0"
    using done_state[OF assms] all_exit_holders(1) by (simp add: in_flight_def)
  moreover have "balance m q = 0" using minvD(4)[OF assms(1)] by (simp add: inv_ids_def)
  ultimately show "occ q (finished_ids m) = occ q (map fst (admitted m))" unfolding balance_def by linarith
qed

lemma done_store:
  assumes "minv d cap m" and "chan_closed (m_done m)"
  shows "m_store m = []"
proof (rule store_empty)
  fix q
  have "\<forall>p \<in> set (producers m). p_live p = []"
    using minvD(2)[OF assms(1)] done_state(1)[OF assms] by (simp add: inv_lock_def)
  then have "holders p_live q (producers m) = 0" by (rule no_holders)
  then have "live m q = 0"
    using done_state[OF assms] all_exit_holders(2) by (simp add: live_def)
  then show "store_get (m_store m) q = None"
    using minvD(5)[OF assms(1)] unfolding inv_store_def by (metis zero_neq_one)
qed

lemma admitted_distinct:
  assumes "inv_ids m"
  shows "distinct (map fst (admitted m))" and "0 \<notin> fst ` set (admitted m)"
proof -
  have b: "occ q (map fst (admitted m)) \<le> (if 0 < q \<and> q < next_uuid m then 1 else 0)" for q
    using inv_ids_bound[OF assms, of q] holders_nonneg[of q p_ids "producers m"] unfolding issued_def by linarith
  have "occ q (map fst (admitted m)) \<le> 1" for q using b[of q] by (auto split: if_splits)
  then show "distinct (map fst (admitted m))" by (rule distinct_occ)
  have "\<not> 0 < occ 0 (map fst (admitted m))" using b[of 0] by (simp del: occ_pos_iff)
  then show "0 \<notin> fst ` set (admitted m)" by simp
qed

lemma finished_distinct:
  assumes "inv_ids m"
  shows "distinct (finished_ids m)"
proof (rule distinct_occ)
  fix q
  have "balance m q = 0" using assms by (simp add: inv_ids_def)
  moreover have "issued m q \<le> 1" using inv_ids_bound[OF assms, of q] by (auto split: if_splits)
  moreover have "0 \<le> in_flight m q" by (simp add: in_flight_def)
  moreover have "0 \<le> holders p_ids q (producers m)" by simp
  ultimately show "occ q (finished_ids m) \<le> 1" unfolding balance_def issued_def by linarith
qed

lemma callback_ids:
  assumes "inv_data d m" and "d_onComplete d"
  shows "map QueueID (callbacks m) = finished_ids m"
  using assms by (simp add: inv_data_def finished_ids_def split_beta comp_def)

end
