(* ===== verification/Manager_Shutdown.thy ===== *)
theory Manager_Shutdown
  imports Manager_Facts
begin

text \<open>
  Stopping the manager: what is final, why the internal steps of a manager come to an end
  with \<open>done\<close> closed, and what a shutdown that nothing aborts guarantees.
\<close>

section \<open>What is final\<close>

lemma stopped_mono: "mtrans d m m' \<Longrightarrow> stopped m \<Longrightarrow> stopped m'"
  by (induction rule: mtrans.induct) (simp_all add: set_defs)

lemma started_mono: "mtrans d m m' \<Longrightarrow> started m \<Longrightarrow> started m'"
  by (induction rule: mtrans.induct) (simp_all add: set_defs)

lemma finishing_mono: "mtrans d m m' \<Longrightarrow> finishing m \<Longrightarrow> finishing m'"
  by (induction rule: mtrans.induct) (simp_all add: set_defs)

lemma done_mono: "mtrans d m m' \<Longrightarrow> chan_closed (m_done m) \<Longrightarrow> chan_closed (m_done m')"
  by (induction rule: mtrans.induct) (simp_all add: set_defs)

lemma no_start_after_stop: "mtrans d m m' \<Longrightarrow> stopped m \<Longrightarrow> started m' = started m"
  by (induction rule: mtrans.induct) (simp_all add: set_defs)

lemma no_admission_after_stop:
  assumes "mtrans d m m'" and "inv_flags d m" and "stopped m"
  shows "admitted m' = admitted m"
  using assms
proof (induction rule: mtrans.induct)
  case (send i m c q n)
  then have "chan_closed (mailbox m)" by (simp add: inv_flags_def queue_ok_def)
  then show ?case using send.hyps by simp
qed (simp_all add: set_defs)

lemma mrun_minv:
  "mrun d evs m = Some m' \<Longrightarrow> minv d cap m \<Longrightarrow> valid_dispatcher d \<Longrightarrow> minv d cap m'"
proof (induction evs arbitrary: m)
  case (Cons ev evs)
  then obtain m1 where m1: "mstep d ev m = Some m1" "mrun d evs m1 = Some m'"
    by (auto split: option.splits)
  then show ?case using Cons minv_trans[OF mstep_mtrans[OF m1(1)]] by blast
qed simp

lemma mrun_stopped: "mrun d evs m = Some m' \<Longrightarrow> stopped m \<Longrightarrow> stopped m'"
  by (induction evs arbitrary: m) (auto split: option.splits dest: mstep_mtrans stopped_mono)

lemma mrun_admitted:
  "mrun d evs m = Some m' \<Longrightarrow> minv d cap m \<Longrightarrow> valid_dispatcher d \<Longrightarrow> stopped m \<Longrightarrow> admitted m' = admitted m"
proof (induction evs arbitrary: m)
  case (Cons ev evs)
  then obtain m1 where m1: "mstep d ev m = Some m1" "mrun d evs m1 = Some m'"
    by (auto split: option.splits)
  have t: "mtrans d m m1" using m1(1) by (rule mstep_mtrans)
  have "admitted m1 = admitted m"
    using no_admission_after_stop[OF t] minvD(3)[OF Cons.prems(2)] Cons.prems(4) by blast
  then show ?case
    using Cons.IH[OF m1(2)] minv_trans[OF t Cons.prems(2,3)] stopped_mono[OF t] Cons.prems(3,4) by simp
qed simp

section \<open>What a call that returned nil has seen\<close>

definition inv_returns :: "'v manager \<Rightarrow> bool" where
  "inv_returns m \<longleftrightarrow>
     (\<forall>q. PReturn q None \<in> set (producers m) \<longrightarrow> q \<in> fst ` set (admitted m)) \<and>
     (CReturn None \<in> set (callers m) \<longrightarrow> chan_closed (m_done m))"

lemma enqueue_returns:
  "mtrans d m m' \<Longrightarrow> PReturn q None \<in> set (producers m') \<Longrightarrow>
     PReturn q None \<in> set (producers m) \<or> q \<in> fst ` set (admitted m')"
  by (induction rule: mtrans.induct) (auto simp: set_defs dest!: in_update)

lemma admitted_grows: "mtrans d m m' \<Longrightarrow> set (admitted m) \<subseteq> set (admitted m')"
  by (induction rule: mtrans.induct) (auto simp: set_defs)

lemma caller_returns:
  assumes "mstep d ev m = Some m'" and "CReturn None \<in> set (callers m')"
  shows "CReturn None \<in> set (callers m) \<or> chan_closed (m_done m')"
proof (cases ev)
  case (EvCaller k)
  then show ?thesis using assms
    by (auto simp: caller_step_def set_caller_def stop_def split: option.splits caller.splits if_splits dest!: in_update)
next
  case (EvCallerCtx k e)
  then show ?thesis using assms
    by (auto simp: caller_ctx_done_def set_caller_def split: option.splits caller.splits if_splits dest!: in_update)
next
  case (EvShutdown b)
  then show ?thesis using assms by (auto simp: Shutdown_call_def split: option.splits)
next
  case (EvWait b)
  then show ?thesis using assms by (auto simp: Wait_call_def split: option.splits)
next
  case (EvFinish j)
  then show ?thesis using assms
    by (auto simp: finisher_step_def set_finisher_def stop_def chan_recv_def complete_def Let_def
        split: option.splits finisher.splits list.splits if_splits)
next
  case (EvWorker ctx w i)
  then show ?thesis using assms
    by (auto simp: worker_step_def set_worker_def chan_recv_def complete_def Let_def
        split: option.splits worker.splits list.splits if_splits)
qed (use assms in \<open>auto simp: Enqueue_call_def Enqueue_cancel_def Enqueue_slot_def Enqueue_stopping_def
    Enqueue_ctx_done_def Enqueue_lock_def Enqueue_check_def Enqueue_reject_def Enqueue_send_def
    Start_def cancel_run_def run_after_func_def stop_def worker_ctx_done_def Manager.worker_recv_def
    set_producer_def set_worker_def chan_send_def chan_recv_def
    split: option.splits producer.splits worker.splits list.splits if_splits\<close>)

lemma reachable_returns: "reachable_by P d cap m \<Longrightarrow> inv_returns m"
proof (induction rule: reachable_by.induct)
  case init
  then show ?case by (simp add: inv_returns_def new_manager_def)
next
  case (step m ev m')
  have t: "mtrans d m m'" using step by (auto intro: mstep_mtrans)
  show ?case
    using step.IH enqueue_returns[OF t] admitted_grows[OF t] caller_returns[OF step.hyps(3)] done_mono[OF t]
    unfolding inv_returns_def by blast
qed

section \<open>Internal steps come to an end\<close>

text \<open>The steps the manager and the calls waiting on it take by themselves.\<close>

fun internal :: "('v, 'x) event \<Rightarrow> bool" where
  "internal (EvEnqueue _ _) = False" | "internal (EvEnqueueCancel _ _) = False"
| "internal (EvStart _) = False" | "internal EvCancelRun = False"
| "internal (EvShutdown _) = False" | "internal (EvWait _) = False"
| "internal (EvCallerCtx _ _) = False" | "internal _ = True"

text \<open>The steps left, at most, for what each goroutine has in hand.\<close>

fun p_work :: "'v producer \<Rightarrow> int" where
  "p_work (PSelect _ _ _) = 15" | "p_work (PLock _ _ _) = 14" | "p_work (PCheck _ _ _) = 13"
| "p_work (PSend _ _ _) = 12" | "p_work (PReturn _ _) = 0"

fun w_work :: "'v worker \<Rightarrow> int" where
  "w_work WLoop = 1" | "w_work (WGot _) = 10" | "w_work (WFound _ _) = 9" | "w_work (WDeleted _ _) = 8"
| "w_work (WDeliver _ _) = 7" | "w_work (WComplete _ _ _) = 6" | "w_work WExit = 0"

fun f_work :: "'v finisher \<Rightarrow> int" where
  "f_work FWait = 3" | "f_work FStop = 2" | "f_work FRange = 1" | "f_work (FGot _) = 10"
| "f_work (FFound _ _) = 9" | "f_work (FDeleted _ _) = 8" | "f_work (FReleased _ _) = 7" | "f_work FDone = 0"

fun c_work :: "caller \<Rightarrow> int" where
  "c_work CStop = 2" | "c_work (CWait _) = 1" | "c_work (CAbort _) = 1" | "c_work (CReturn _) = 0"

definition work :: "'v manager \<Rightarrow> int" where
  "work m = 10 * int (length (buffer (mailbox m))) + (if after_func m then 1 else 0)
     + sum_list (map p_work (producers m)) + sum_list (map w_work (workers m))
     + sum_list (map f_work (finishers m)) + sum_list (map c_work (callers m))"

lemma work_parts_nonneg [simp]: "0 \<le> p_work p" "0 \<le> w_work w" "0 \<le> f_work f" "0 \<le> c_work c"
  subgoal by (cases p) simp_all
  subgoal by (cases w) simp_all
  subgoal by (cases f) simp_all
  subgoal by (cases c) simp_all
  done

lemma work_nonneg: "0 \<le> work m"
  unfolding work_def by (intro add_nonneg_nonneg sum_list_nonneg) auto

lemma producer_work:
  assumes "\<not> panicked m'"
  shows "Enqueue_slot i m = Some m' \<Longrightarrow> work m' < work m"
    and "Enqueue_stopping i m = Some m' \<Longrightarrow> work m' < work m"
    and "Enqueue_ctx_done i m = Some m' \<Longrightarrow> work m' < work m"
    and "Enqueue_lock i m = Some m' \<Longrightarrow> work m' < work m"
    and "Enqueue_check i m = Some m' \<Longrightarrow> work m' < work m"
    and "Enqueue_send i m = Some m' \<Longrightarrow> work m' < work m"
  using assms
  by (auto simp: Enqueue_slot_def Enqueue_stopping_def Enqueue_ctx_done_def Enqueue_lock_def Enqueue_check_def
      Enqueue_reject_def Enqueue_send_def chan_send_def chan_recv_def set_producer_def at_Some work_def
      split: option.splits producer.splits if_splits list.splits)

lemma worker_work:
  assumes "\<not> panicked m'"
  shows "worker_ctx_done i m = Some m' \<Longrightarrow> work m' < work m"
    and "Manager.worker_recv i m = Some m' \<Longrightarrow> work m' < work m"
    and "worker_step d ctx w i m = Some m' \<Longrightarrow> work m' < work m"
  using assms
  by (auto simp: worker_ctx_done_def Manager.worker_recv_def worker_step_def chan_recv_def set_worker_def
      complete_def Let_def at_Some work_def
      split: option.splits worker.splits if_splits list.splits)

lemma finisher_work:
  assumes "\<not> panicked m'" and "finishing m"
  shows "finisher_step d j m = Some m' \<Longrightarrow> work m' < work m"
  using assms
  by (auto simp: finisher_step_def chan_recv_def chan_close_def stop_def set_finisher_def complete_def Let_def at_Some work_def
      split: option.splits finisher.splits if_splits list.splits)

lemma caller_work:
  assumes "finishing m"
  shows "caller_step k m = Some m' \<Longrightarrow> work m' < work m" and "run_after_func m = Some m' \<Longrightarrow> work m' < work m"
  using assms
  by (auto simp: caller_step_def run_after_func_def stop_def set_caller_def caller_at_def work_def
      split: option.splits caller.splits if_splits)

lemma internal_work:
  assumes "mstep d ev m = Some m'" and "internal ev" and "finishing m" and "\<not> panicked m'"
  shows "work m' < work m"
  using assms by (cases ev) (auto dest: producer_work worker_work finisher_work caller_work)

section \<open>A stopped manager is never stuck\<close>

lemma worker_step_progress:
  "worker_step d ctx w i m \<noteq> None \<Longrightarrow> \<exists>ev m'. internal ev \<and> mstep d ev m = Some m'"
  by (intro exI[of _ "EvWorker ctx w i"]) auto

lemma worker_progress:
  assumes "minv d cap m" and "valid_dispatcher d" and "stopped m" and "i < length (workers m)"
    and "workers m ! i \<noteq> WExit"
  shows "\<exists>ev m'. internal ev \<and> mstep d ev m = Some m'"
proof (cases "workers m ! i")
  case WLoop
  have "chan_closed (mailbox m)" using minvD(3)[OF assms(1)] assms(3) by (simp add: inv_flags_def queue_ok_def)
  then have "Manager.worker_recv i m \<noteq> None"
    using assms(4) WLoop
    by (auto simp: Manager.worker_recv_def worker_at_def chan_recv_def split: list.splits)
  then show ?thesis by (intro exI[of _ "EvWorkerRecv i"]) auto
next
  case (WDeleted q n)
  then have "WDeleted q n \<in> set (workers m)" using assms(4) by (metis nth_mem)
  then have "buffer (slots m) \<noteq> []" using slot_used(2)[OF minvD(1)[OF assms(1)]] by fastforce
  then have "worker_step d ctx w i m \<noteq> None" for ctx w
    using assms(4) WDeleted by (auto simp: worker_step_def worker_at_def chan_recv_def split: list.splits)
  then show ?thesis by (rule worker_step_progress[of _ Background undefined i])
next
  case WExit
  then show ?thesis using assms(5) by simp
qed (rule worker_step_progress[of _ Background undefined i];
     auto simp: worker_step_def worker_at_def assms(4) split: option.splits)+

lemma finisher_progress:
  assumes "minv d cap m" and "stopped m" and "lock m = None" and "j < length (finishers m)"
    and "finishers m ! j \<noteq> FDone" and "\<forall>p \<in> set (workers m). p = WExit"
  shows "finisher_step d j m \<noteq> None"
proof (cases "finishers m ! j")
  case FRange
  have "chan_closed (mailbox m)" using minvD(3)[OF assms(1)] assms(2) by (simp add: inv_flags_def queue_ok_def)
  then show ?thesis using assms(4) FRange
    by (auto simp: finisher_step_def finisher_at_def chan_recv_def split: list.splits option.splits)
next
  case (FDeleted q nn)
  then have "FDeleted q nn \<in> set (finishers m)" using assms(4) by (metis nth_mem)
  then have "buffer (slots m) \<noteq> []" using slot_used(3)[OF minvD(1)[OF assms(1)]] by fastforce
  then show ?thesis using assms(4) FDeleted
    by (auto simp: finisher_step_def finisher_at_def chan_recv_def split: list.splits)
qed (use assms in \<open>auto simp: finisher_step_def list_all_iff finisher_at_def stop_def set_finisher_def split: option.splits\<close>)

lemma lock_holder_progress:
  assumes "minv d cap m" and "stopped m" and "lock m = Some i"
  shows "Enqueue_check i m \<noteq> None"
proof -
  have i: "i < length (producers m)" "critical (producers m ! i)"
    using minvD(2)[OF assms(1)] assms(3) unfolding inv_lock_def by blast+
  have mem: "producers m ! i \<in> set (producers m)" using i(1) by simp
  then have "p_live (producers m ! i) = []"
    using minvD(2)[OF assms(1)] assms(2) unfolding inv_lock_def by blast
  then obtain c q n where p: "producers m ! i = PCheck c q n"
    using i(2) by (cases "producers m ! i") simp_all
  then have "buffer (slots m) \<noteq> []" using slot_used(1)[OF minvD(1)[OF assms(1)] mem] by simp
  then show ?thesis
    using p i(1) assms(2) by (auto simp: Enqueue_check_def Enqueue_reject_def producer_at_def chan_recv_def split: list.splits)
qed

lemma stopped_progress:
  assumes "minv d cap m" and "valid_dispatcher d" and "stopped m" and "\<not> chan_closed (m_done m)"
  shows "\<exists>ev m'. internal ev \<and> mstep d ev m = Some m'"
proof (cases "lock m")
  case (Some i)
  then show ?thesis using lock_holder_progress[OF assms(1,3)] by (intro exI[of _ "EvCheck i"]) auto
next
  case None
  have flags: "inv_flags d m" using assms(1) by (rule minvD)
  then have "finishing m" using assms(3) by (simp add: inv_flags_def)
  then obtain f where f: "finishers m = [f]" using flags by (auto simp: inv_flags_def length_Suc_conv)
  then have "f \<noteq> FDone" using flags assms(4) by (simp add: inv_flags_def)
  show ?thesis
  proof (cases "\<forall>p \<in> set (workers m). p = WExit")
    case True
    then have "finisher_step d 0 m \<noteq> None"
      using finisher_progress[OF assms(1,3) None] f \<open>f \<noteq> FDone\<close> by simp
    then show ?thesis by (intro exI[of _ "EvFinish 0"]) auto
  next
    case False
    then obtain i where "i < length (workers m)" "workers m ! i \<noteq> WExit" by (metis in_set_conv_nth)
    then show ?thesis using worker_progress[OF assms(1,2,3)] by blast
  qed
qed

text \<open>Any run of internal steps is at most \<open>work\<close> long.\<close>

lemma mrun_internal:
  assumes "mrun d evs m = Some m'" and "list_all internal evs" and "minv d cap m" and "valid_dispatcher d"
    and "finishing m"
  shows "work m' + int (length evs) \<le> work m"
  using assms
proof (induction evs arbitrary: m)
  case (Cons ev evs)
  then obtain m1 where m1: "mstep d ev m = Some m1" "mrun d evs m1 = Some m'"
    by (auto split: option.splits)
  have t: "mtrans d m m1" using m1(1) by (rule mstep_mtrans)
  have inv: "minv d cap m1" using minv_trans[OF t Cons.prems(3,4)] .
  then have "\<not> panicked m1" using minvD(3) by (auto simp: inv_flags_def)
  then have "work m1 < work m" using internal_work[OF m1(1)] Cons.prems(2,5) by simp
  moreover have "work m' + int (length evs) \<le> work m1"
    using Cons.IH[OF m1(2)] inv finishing_mono[OF t] Cons.prems by simp
  ultimately show ?case by simp
qed simp

lemma stopped_completes:
  assumes "minv d cap m" and "valid_dispatcher d" and "stopped m"
  shows "\<exists>evs m'. list_all internal evs \<and> mrun d evs m = Some m' \<and> chan_closed (m_done m')"
  using assms
proof (induction "nat (work m)" arbitrary: m rule: less_induct)
  case less
  show ?case
  proof (cases "chan_closed (m_done m)")
    case True
    then show ?thesis by (intro exI[of _ "[]"]) simp
  next
    case False
    then obtain ev m1 where ev: "internal ev" "mstep d ev m = Some m1"
      using stopped_progress[OF less.prems] by blast
    have t: "mtrans d m m1" using ev(2) by (rule mstep_mtrans)
    have inv: "minv d cap m1" using minv_trans[OF t less.prems(1,2)] .
    have "finishing m" using minvD(3)[OF less.prems(1)] less.prems(3) by (simp add: inv_flags_def)
    moreover have "\<not> panicked m1" using minvD(3)[OF inv] by (simp add: inv_flags_def)
    ultimately have "work m1 < work m" using internal_work[OF ev(2,1)] by blast
    then obtain evs m' where "list_all internal evs" "mrun d evs m1 = Some m'" "chan_closed (m_done m')"
      using less.hyps[of m1] inv less.prems(2) stopped_mono[OF t less.prems(3)] work_nonneg[of m1] by auto
    then show ?thesis using ev by (intro exI[of _ "ev # evs"]) simp
  qed
qed

section \<open>A shutdown that nothing aborts\<close>

text \<open>Neither the context of \<open>Start\<close> nor the context of a waiting call ends.\<close>

fun graceful :: "('v, 'x) event \<Rightarrow> bool" where
  "graceful EvCancelRun = False" | "graceful (EvCallerCtx _ _) = False" | "graceful _ = True"

definition idle :: "'v manager \<Rightarrow> bool" where
  "idle m \<longleftrightarrow> stopped m \<and> buffer (mailbox m) = [] \<and>
     (\<forall>i < length (workers m). workers m ! i = WExit)"

fun empty_handed :: "'v finisher \<Rightarrow> bool" where
  "empty_handed (FGot _) = False" | "empty_handed (FFound _ _) = False" | "empty_handed (FDeleted _ _) = False"
| "empty_handed (FReleased _ _) = False" | "empty_handed _ = True"

definition inv_graceful :: "'v manager \<Rightarrow> bool" where
  "inv_graceful m \<longleftrightarrow>
     (\<not> finishing m \<longrightarrow> finished m = []) \<and>
     (run_ctx m = Some True \<longrightarrow> idle m) \<and>
     (started m \<longrightarrow> (\<forall>f \<in> set (finishers m). empty_handed f) \<and> (\<forall>(c, b) \<in> set (finished m). \<not> b))"

lemma graceful_callers:
  assumes "mstep d ev m = Some m'" and "graceful ev" and "\<forall>e. CAbort e \<notin> set (callers m)"
  shows "\<forall>e. CAbort e \<notin> set (callers m')"
proof (cases ev)
  case (EvCaller k)
  then show ?thesis using assms
    by (auto simp: caller_step_def set_caller_def stop_def split: option.splits caller.splits if_splits dest!: in_update)
next
  case (EvShutdown b)
  then show ?thesis using assms by (auto simp: Shutdown_call_def split: option.splits)
next
  case (EvWait b)
  then show ?thesis using assms by (auto simp: Wait_call_def split: option.splits)
next
  case (EvFinish j)
  then show ?thesis using assms
    by (auto simp: finisher_step_def set_finisher_def stop_def chan_recv_def complete_def Let_def
        split: option.splits finisher.splits list.splits if_splits)
next
  case (EvWorker ctx w i)
  then show ?thesis using assms
    by (auto simp: worker_step_def set_worker_def chan_recv_def complete_def Let_def
        split: option.splits worker.splits list.splits if_splits)
qed (use assms in \<open>auto simp: Enqueue_call_def Enqueue_cancel_def Enqueue_slot_def Enqueue_stopping_def
    Enqueue_ctx_done_def Enqueue_lock_def Enqueue_check_def Enqueue_reject_def Enqueue_send_def
    Start_def run_after_func_def stop_def worker_ctx_done_def Manager.worker_recv_def
    set_producer_def set_worker_def chan_send_def chan_recv_def
    split: option.splits producer.splits worker.splits list.splits if_splits\<close>)

text \<open>Only the end of \<open>finish\<close>'s wait cancels the run context.\<close>

lemma graceful_cancel:
  assumes "mstep d ev m = Some m'" and "graceful ev" and "\<forall>e. CAbort e \<notin> set (callers m)"
    and "run_ctx m' = Some True" and "run_ctx m \<noteq> Some True"
  shows "\<exists>j < length (finishers m). finishers m ! j = FStop \<and> run_ctx m = Some False \<and>
    m' = stop_body False (set_finisher j FRange m)"
proof (cases ev)
  case (EvCaller k)
  have "k < length (callers m) \<Longrightarrow> callers m ! k \<noteq> CAbort e" for e using assms(3) by (metis nth_mem)
  then show ?thesis using EvCaller assms
    by (auto simp: caller_step_def set_caller_def stop_def caller_at_def split: option.splits caller.splits if_splits)
next
  case (EvShutdown b)
  then show ?thesis using assms by (auto simp: Shutdown_call_def split: option.splits)
next
  case (EvWait b)
  then show ?thesis using assms by (auto simp: Wait_call_def split: option.splits)
next
  case (EvFinish j)
  then show ?thesis using assms
    by (intro exI[of _ j]) (auto simp: finisher_step_def set_finisher_def stop_def chan_recv_def complete_def Let_def at_Some
        split: option.splits finisher.splits list.splits if_splits)
next
  case (EvWorker ctx w i)
  then show ?thesis using assms
    by (auto simp: worker_step_def set_worker_def chan_recv_def complete_def Let_def
        split: option.splits worker.splits list.splits if_splits)
qed (use assms in \<open>auto simp: Enqueue_call_def Enqueue_cancel_def Enqueue_slot_def Enqueue_stopping_def
    Enqueue_ctx_done_def Enqueue_lock_def Enqueue_check_def Enqueue_reject_def Enqueue_send_def
    Start_def run_after_func_def stop_def worker_ctx_done_def Manager.worker_recv_def
    set_producer_def set_worker_def chan_send_def chan_recv_def
    split: option.splits producer.splits worker.splits list.splits if_splits\<close>)

text \<open>Every other step keeps an idle manager idle and a finisher empty-handed.\<close>

lemma idle_trans:
  assumes "mtrans d m m'" and "inv_flags d m" and "idle m" and "\<not> chan_closed (slots m)"
  shows "idle m'"
  using assms
proof (induction rule: mtrans.induct)
  case (send i m c q n)
  then have "\<not> stopped m" by (simp add: inv_flags_def queue_ok_def)
  then show ?case using send.prems by (simp add: idle_def)
qed (auto simp: idle_def set_defs nth_list_update)

lemma finish_aborted:
  assumes "inv_flags d m" and "started m" and "j < length (finishers m)" and "finishers m ! j = FRange"
  shows "run_ctx m = Some True"
proof -
  have "FRange \<in> set (finishers m)" using assms(3,4) by (metis nth_mem)
  then have "run_ctx m \<noteq> Some False" using assms(1) unfolding inv_flags_def past_stop_def by blast
  moreover have "run_ctx m \<noteq> None" using assms(1,2) by (simp add: inv_flags_def)
  ultimately show ?thesis by auto
qed

lemma held_trans:
  assumes "mtrans d m m'" and "inv_flags d m" and "inv_graceful m" and "started m"
    and "\<not> chan_closed (slots m)"
  shows "(\<forall>f \<in> set (finishers m'). empty_handed f) \<and> (\<forall>(c, b) \<in> set (finished m'). \<not> b)"
proof -
  have old: "\<forall>f \<in> set (finishers m). empty_handed f" "\<forall>(c, b) \<in> set (finished m). \<not> b"
    using assms(3,4) by (simp_all add: inv_graceful_def)
  from assms(1) old assms(2-) show ?thesis
  proof (induction rule: mtrans.induct)
    case (finish_recv j m q qs)
    then have "idle m" using finish_aborted[of d m j] by (simp add: inv_graceful_def)
    then show ?case using finish_recv.hyps by (simp add: idle_def)
  next
    case (finish_get j m q)
    then show ?case using nth_mem[of j "finishers m"] by fastforce
  next
    case (finish_delete j m q nn)
    then show ?case using nth_mem[of j "finishers m"] by fastforce
  next
    case (finish_release j m q nn u us)
    then show ?case using nth_mem[of j "finishers m"] by fastforce
  next
    case (finish_skip j m q)
    then show ?case using nth_mem[of j "finishers m"] by fastforce
  next
    case (finish_complete j m q n)
    then show ?case using nth_mem[of j "finishers m"] by fastforce
  next
    case (finish_release_closed m j q nn)
    then show ?case by simp
  qed (auto simp: set_defs complete_def Let_def dest!: in_update)
qed

lemma nothing_finished:
  assumes "mtrans d m m'" and "inv_flags d m" and "\<not> finishing m'" and "finished m = []"
  shows "finished m' = []"
  using assms
proof (induction rule: mtrans.induct)
  case (worker_complete i m q n err)
  then have "\<not> finishing m" by (simp add: set_worker_def)
  then have "length (workers m) = 0" using worker_complete.prems(1) unfolding inv_flags_def by metis
  then show ?case using worker_complete.hyps by simp
next
  case (finish_complete j m q n)
  then have "\<not> finishing m" by (simp add: set_finisher_def)
  then have "length (finishers m) = 0" using finish_complete.prems(1) unfolding inv_flags_def by metis
  then show ?case using finish_complete.hyps by simp
qed (simp_all add: set_defs)

text \<open>When \<open>Start\<close> succeeds, nothing has been completed and \<open>finish\<close> is not running.\<close>

lemma start_fresh:
  assumes "mtrans d m m'" and "minv d cap m" and "\<not> started m" and "started m'"
  shows "finishers m' = [FWait] \<and> finished m' = finished m \<and> \<not> finishing m"
  using assms(1,3,4) minvD(3)[OF assms(2)]
proof (induction rule: mtrans.induct)
  case (start m)
  then show ?case by (auto simp: inv_flags_def split: if_splits)
qed (simp_all add: set_defs)

lemma reachable_graceful:
  assumes "reachable_by graceful d cap m" and "valid_dispatcher d"
  shows "inv_graceful m \<and> (\<forall>e. CAbort e \<notin> set (callers m))"
  using assms(1)
proof (induction rule: reachable_by.induct)
  case init
  then show ?case by (simp add: inv_graceful_def new_manager_def)
next
  case (step m ev m')
  have inv: "minv d cap m" using reachable_minv[OF step.hyps(1) assms(2)] .
  have t: "mtrans d m m'" using step.hyps(3) by (rule mstep_mtrans)
  have flags: "inv_flags d m" and flags': "inv_flags d m'"
    using minvD(3)[OF inv] minvD(3)[OF minv_trans[OF t inv assms(2)]] by blast+
  have "idle m'" if canceled: "run_ctx m' = Some True"
  proof (cases "run_ctx m = Some True")
    case True
    then show ?thesis using step.IH idle_trans[OF t flags] minvD(7)[OF inv] by (simp add: inv_graceful_def)
  next
    case False
    then obtain j where j: "j < length (finishers m)" "finishers m ! j = FStop" "run_ctx m = Some False"
        "m' = stop_body False (set_finisher j FRange m)"
      using graceful_cancel[OF step.hyps(3,2)] step.IH canceled by blast
    have "FStop \<in> set (finishers m)" using j(1,2) by (metis nth_mem)
    then have exit: "\<forall>p \<in> set (workers m). p = WExit" using flags unfolding inv_flags_def past_wait_def by blast
    have "started m" using flags j(3) by (simp add: inv_flags_def)
    then have "workers m \<noteq> []" using flags assms(2) by (auto simp: inv_flags_def valid_dispatcher_def)
    then have "WExit \<in> set (workers m)" using exit by (cases "workers m") auto
    then have "buffer (mailbox m) = []" using flags False by (simp add: inv_flags_def)
    then show ?thesis using exit j(4) by (simp add: idle_def set_finisher_def)
  qed
  moreover have "(\<forall>f \<in> set (finishers m'). empty_handed f) \<and> (\<forall>(c, b) \<in> set (finished m'). \<not> b)" if "started m'"
  proof (cases "started m")
    case True
    then show ?thesis using held_trans[OF t flags] step.IH minvD(7)[OF inv] by blast
  next
    case False
    then show ?thesis using start_fresh[OF t inv False that] step.IH by (simp add: inv_graceful_def)
  qed
  moreover have "finished m' = []" if "\<not> finishing m'"
    using nothing_finished[OF t flags that] step.IH finishing_mono[OF t] that by (auto simp: inv_graceful_def)
  ultimately show ?case
    using graceful_callers[OF step.hyps(3,2)] step.IH unfolding inv_graceful_def by blast
qed

end
