(* ===== verification/Manager_Examples.thy ===== *)
theory Manager_Examples
  imports Manager_Shutdown
begin

text \<open>
  A small manager and concrete runs of it: one receiver with a target that always accepts,
  two workers, a queue of capacity two. The properties of the manager are applied to these
  runs.
\<close>

definition accepting :: "(unit, unit) target" where
  "accepting = \<lparr>Type = ''accept'', Send = (\<lambda>ctx p w. ((zero_result, None), w))\<rparr>"

definition demo_dispatcher :: "(unit, unit) dispatcher" where
  "demo_dispatcher = newDispatcher
     (normalizeReceivers [(ReceiverID ''ops'', Some (NewReceiver (ReceiverID ''ops'') [Some accepting]))])
     Discard 2 True"

definition demo_note :: "string \<Rightarrow> unit notification" where
  "demo_note nid = \<lparr>NotificationID = nid, NotificationData = (\<lambda>_ _ _. ()), Router = None\<rparr>"

definition demo_world :: "unit runtime" where
  "demo_world = \<lparr>now = 0, entropy = [], logs = [], world = ()\<rparr>"

text \<open>One notification is enqueued and taken by the first worker.\<close>

definition demo_accept :: "(unit, unit) event list" where
  "demo_accept = [EvEnqueue (Some None) (Some (demo_note ''n1'')), EvSlot 0, EvLock 0, EvCheck 0, EvSend 0,
     EvStart (Some None), EvWorkerRecv 0]"

text \<open>It is delivered; a second one is enqueued and waits in the mailbox at the shutdown.\<close>

definition demo_deliver :: "(unit, unit) event list" where
  "demo_deliver = replicate 5 (EvWorker Background demo_world 0) @
     [EvEnqueue (Some None) (Some (demo_note ''n2'')), EvSlot 1, EvLock 1, EvCheck 1, EvSend 1,
      EvShutdown False, EvCaller 0]"

text \<open>The workers drain the mailbox and exit, \<open>finish\<close> closes \<open>done\<close>, \<open>Shutdown\<close> returns.\<close>

definition demo_drain :: "(unit, unit) event list" where
  "demo_drain = EvWorkerRecv 1 # replicate 5 (EvWorker Background demo_world 1) @
     [EvWorkerRecv 0, EvWorkerRecv 1, EvFinish 0, EvFinish 0, EvFinish 0, EvCaller 0]"

lemmas demo_defs = demo_dispatcher_def accepting_def demo_note_def demo_world_def

lemma demo_valid: "valid_dispatcher demo_dispatcher"
  by (simp add: demo_defs valid_dispatcher_def newDispatcher_def normalizeReceivers_def NewReceiver_def
      valid_receiver_def map_set_def normalize_receiver_def map_ok_def)

lemma demo_reachable:
  assumes "map_option f (mrun demo_dispatcher evs (new_manager 2)) = Some x"
  shows "\<exists>m. reachable demo_dispatcher 2 m \<and> f m = x"
proof -
  obtain m where "mrun demo_dispatcher evs (new_manager 2) = Some m" "f m = x" using assms by auto
  then show ?thesis
    using reachable_by_run[of "\<lambda>_. True" demo_dispatcher 2 "new_manager 2" evs m]
    by (auto intro: reachable_by.init simp: list_all_iff)
qed

lemma demo_callback: "d_onComplete demo_dispatcher"
  by (simp add: demo_defs newDispatcher_def)

text \<open>What the runs lead to.\<close>

fun returned_id :: "'v producer \<Rightarrow> uuid" where
  "returned_id (PReturn q None) = q"
| "returned_id _ = 0"

lemma returned_id_pos: "returned_id p = q \<Longrightarrow> q \<noteq> 0 \<Longrightarrow> p = PReturn q None"
  by (cases p rule: returned_id.cases) auto

lemma run_end:
  "map_option (\<lambda>m. (callers m, chan_closed (m_done m), map QueueID (callbacks m), map fst (admitted m), map returned_id (producers m)))
     (mrun demo_dispatcher (demo_accept @ demo_deliver @ demo_drain) (new_manager 2))
     = Some ([CReturn None], True, [1, 2], [1, 2], [1, 2])"
  by code_simp

fun at_send :: "'v producer \<Rightarrow> bool" where
  "at_send (PSend _ _ _) = True" | "at_send _ = False"

fun at_select :: "'v producer \<Rightarrow> bool" where
  "at_select (PSelect _ _ _) = True" | "at_select _ = False"

fun at_got :: "'v worker \<Rightarrow> bool" where
  "at_got (WGot _) = True" | "at_got _ = False"

text \<open>The first call is about to send; a worker has taken its ID; a call meets a stopped manager.\<close>

lemma run_sending:
  "map_option (\<lambda>m. (map at_send (producers m))) (mrun demo_dispatcher (take 4 demo_accept) (new_manager 2)) = Some [True]"
  by code_simp

lemma run_accepted:
  "map_option (\<lambda>m. (map at_got (workers m), started m, stopped m)) (mrun demo_dispatcher demo_accept (new_manager 2))
     = Some ([True, False], True, False)"
  by code_simp

lemma run_stopped:
  "map_option (\<lambda>m. (map at_select (producers m), stopped m, chan_closed (m_done m)))
     (mrun demo_dispatcher (demo_accept @ demo_deliver @ [EvEnqueue (Some None) (Some (demo_note ''n3''))]) (new_manager 2))
     = Some ([False, False, True], True, False)"
  by code_simp

lemma run_graceful:
  "map_option (\<lambda>m. (started m, map QueueID (callbacks m)))
     (mrun demo_dispatcher (demo_accept @ demo_deliver @ demo_drain) (new_manager 2)) = Some (True, [1, 2])"
  by code_simp

lemma run_single:
  "map_option (\<lambda>m. (map QueueID (callbacks m), map fst (admitted m)))
     (mrun (demo_dispatcher\<lparr>d_workers := 1\<rparr>) (demo_accept @ demo_deliver) (new_manager 2)) = Some ([1], [1, 2])"
  by code_simp

lemma demo_graceful: "list_all graceful (demo_accept @ demo_deliver @ demo_drain)"
  by (simp add: demo_accept_def demo_deliver_def demo_drain_def list_all_iff)

end
