(* ===== verification/Manager_Progress.thy ===== *)
theory Manager_Progress
  imports Manager_Shutdown
begin

text \<open>
  Progress of a started manager: its internal steps come to an end, and when none is left
  every accepted notification has been completed and every call of \<open>Enqueue\<close> has returned.
  Together with the bound on internal steps this is liveness under any scheduling that runs
  some enabled goroutine; it does not need the manager to be stopped.
\<close>

section \<open>No lost stop\<close>

text \<open>
  A started manager is stopped, or still has the \<open>AfterFunc\<close> that will stop it when its run
  context ends.
\<close>

definition inv_after :: "'v manager \<Rightarrow> bool" where
  "inv_after m \<longleftrightarrow> (started m \<longrightarrow> after_func m \<or> stopped m)"

lemma inv_after_trans: "mtrans d m m' \<Longrightarrow> inv_after m \<Longrightarrow> inv_after m'"
  by (induction rule: mtrans.induct) (auto simp: inv_after_def set_defs)

lemma reachable_inv_after: "reachable_by P d cap m \<Longrightarrow> inv_after m"
proof (induction rule: reachable_by.induct)
  case init
  then show ?case by (simp add: inv_after_def new_manager_def)
next
  case (step m ev m')
  then show ?case using inv_after_trans mstep_mtrans by blast
qed

lemma mrun_inv_after: "mrun d evs m = Some m' \<Longrightarrow> inv_after m \<Longrightarrow> inv_after m'"
  by (induction evs arbitrary: m) (auto split: option.splits dest: mstep_mtrans inv_after_trans)

lemma mrun_started: "mrun d evs m = Some m' \<Longrightarrow> started m \<Longrightarrow> started m'"
  by (induction evs arbitrary: m) (auto split: option.splits dest: mstep_mtrans started_mono)

section \<open>States at rest\<close>

definition at_rest :: "('v, 'x) dispatcher \<Rightarrow> 'v manager \<Rightarrow> bool" where
  "at_rest d m \<longleftrightarrow> (\<forall>ev. internal ev \<longrightarrow> mstep d ev m = None)"

lemma at_rest_None:
  assumes "at_rest d m"
  shows "Enqueue_slot i m = None" and "Enqueue_stopping i m = None" and "Enqueue_lock i m = None"
    and "Enqueue_check i m = None" and "Enqueue_send i m = None" and "run_after_func m = None"
    and "Manager.worker_recv i m = None" and "worker_step d ctx w i m = None" and "finisher_step d i m = None"
  using assms[unfolded at_rest_def, THEN spec, of "EvSlot i"] assms[unfolded at_rest_def, THEN spec, of "EvStopping i"]
    assms[unfolded at_rest_def, THEN spec, of "EvLock i"] assms[unfolded at_rest_def, THEN spec, of "EvCheck i"]
    assms[unfolded at_rest_def, THEN spec, of "EvSend i"] assms[unfolded at_rest_def, THEN spec, of "EvAfterFunc"]
    assms[unfolded at_rest_def, THEN spec, of "EvWorkerRecv i"]
    assms[unfolded at_rest_def, THEN spec, of "EvWorker ctx w i"]
    assms[unfolded at_rest_def, THEN spec, of "EvFinish i"]
  by simp_all

text \<open>The holder of the mutex can always go on, so at rest the mutex is free.\<close>

lemma send_enabled:
  assumes "minv d cap m" and "i < length (producers m)" and "producers m ! i = PSend c q n"
  shows "\<exists>m'. Enqueue_send i m = Some m' \<and> producers m' ! i = PReturn q None \<and> lock m' = None \<and>
    admitted m' = admitted m @ [(q, n)] \<and> buffer (mailbox m') = buffer (mailbox m) @ [q]"
proof -
  have mem: "PSend c q n \<in> set (producers m)" using assms(2,3) by (metis nth_mem)
  have room: "length (buffer (mailbox m)) < chan_cap (mailbox m)" using mailbox_room[OF minvD(1)[OF assms(1)] mem] .
  have "\<not> stopped m" using minvD(2)[OF assms(1)] mem unfolding inv_lock_def by fastforce
  then have "\<not> chan_closed (mailbox m)" using minvD(3)[OF assms(1)] by (simp add: inv_flags_def queue_ok_def)
  then show ?thesis
    using room assms(2,3) by (simp add: Enqueue_send_def producer_at_def chan_send_def)
qed

lemma check_enabled:
  assumes "minv d cap m" and "i < length (producers m)" and "producers m ! i = PCheck c q n"
  shows "Enqueue_check i m \<noteq> None"
proof -
  have "PCheck c q n \<in> set (producers m)" using assms(2,3) by (metis nth_mem)
  then have "buffer (slots m) \<noteq> []" using slot_used(1)[OF minvD(1)[OF assms(1)]] by fastforce
  then show ?thesis
    using assms(2,3) by (auto simp: Enqueue_check_def Enqueue_reject_def producer_at_def chan_recv_def split: list.splits option.splits)
qed

lemma rest_lock:
  assumes "minv d cap m" and "at_rest d m"
  shows "lock m = None"
proof (rule ccontr)
  assume "lock m \<noteq> None"
  then obtain i where i: "i < length (producers m)" "critical (producers m ! i)"
    using minvD(2)[OF assms(1)] unfolding inv_lock_def by blast
  then show False
    using check_enabled[OF assms(1) i(1)] send_enabled[OF assms(1) i(1)] at_rest_None(4,5)[OF assms(2), of i]
    by (cases "producers m ! i") auto
qed

text \<open>At rest a call of \<open>Enqueue\<close> is at the \<open>select\<close> or has returned.\<close>

lemma rest_producer:
  assumes "minv d cap m" and "at_rest d m" and "p \<in> set (producers m)"
  shows "(\<exists>c q n. p = PSelect c q n) \<or> (\<exists>q e. p = PReturn q e)"
proof -
  obtain i where i: "i < length (producers m)" "producers m ! i = p" using assms(3) by (metis in_set_conv_nth)
  have l: "lock m = None" using rest_lock[OF assms(1,2)] .
  then have "\<not> critical p" using minvD(2)[OF assms(1)] i unfolding inv_lock_def by (metis option.distinct(1))
  moreover have "p \<noteq> PLock c q n" for c q n
    using at_rest_None(3)[OF assms(2), of i] i l by (auto simp: Enqueue_lock_def producer_at_def)
  ultimately show ?thesis by (cases p) auto
qed

lemma rest_returned:
  assumes "minv d cap m" and "at_rest d m"
    and "\<And>i c q n. producer_at m i = Some (PSelect c q n) \<Longrightarrow> False"
  shows "\<forall>p \<in> set (producers m). \<exists>q e. p = PReturn q e"
proof
  fix p assume p: "p \<in> set (producers m)"
  then obtain i where "producer_at m i = Some p" by (metis in_set_conv_nth producer_at_Some)
  then have "p \<noteq> PSelect c q n" for c q n using assms(3) by blast
  then show "\<exists>q e. p = PReturn q e" using rest_producer[OF assms(1,2) p] by blast
qed

text \<open>At rest a worker is at its \<open>select\<close> or has returned.\<close>

lemma rest_worker:
  assumes "minv d cap m" and "valid_dispatcher d" and "at_rest d m" and "i < length (workers m)"
  shows "workers m ! i = WLoop \<or> workers m ! i = WExit"
proof -
  have stuck: "worker_step d Background undefined i m = None" using at_rest_None(8)[OF assms(3)] .
  have at: "worker_at m i = Some (workers m ! i)" using assms(4) by (simp add: worker_at_def)
  show ?thesis
  proof (cases "workers m ! i")
    case (WDeleted q n)
    then have "WDeleted q n \<in> set (workers m)" using assms(4) by (metis nth_mem)
    then have "buffer (slots m) \<noteq> []" using slot_used(2)[OF minvD(1)[OF assms(1)]] by fastforce
    then obtain u us where "buffer (slots m) = u # us" by (cases "buffer (slots m)") auto
    then show ?thesis using stuck at WDeleted by (simp add: worker_step_def chan_recv_def)
  next
    case (WDeliver q n)
    then show ?thesis
      using stuck at by (cases "deliver_outcome d Background q n undefined") (auto simp: worker_step_def)
  qed (use stuck at in \<open>simp_all add: worker_step_def split: option.splits\<close>)
qed

section \<open>What rest means\<close>

definition all_completed :: "'v manager \<Rightarrow> bool" where
  "all_completed m \<longleftrightarrow> mset (finished_ids m) = mset (map fst (admitted m)) \<and> m_store m = [] \<and>
     (\<forall>p \<in> set (producers m). \<exists>q e. p = PReturn q e)"

lemma rest_stopped:
  assumes "minv d cap m" and "valid_dispatcher d" and "at_rest d m" and "stopped m"
  shows "all_completed m"
proof -
  have fin: "chan_closed (m_done m)"
    using stopped_progress[OF assms(1,2,4)] assms(3) unfolding at_rest_def by (metis option.distinct(1))
  have stop: "chan_closed (stopping m)" using minvD(3)[OF assms(1)] assms(4) by (simp add: inv_flags_def queue_ok_def)
  have "producer_at m i \<noteq> Some (PSelect c q n)" for i c q n
    using at_rest_None(2)[OF assms(3), of i] stop by (auto simp: Enqueue_stopping_def)
  then have "\<forall>p \<in> set (producers m). \<exists>q e. p = PReturn q e" by (intro rest_returned[OF assms(1,3)]) blast
  then show ?thesis
    using done_ids[OF assms(1) fin] done_store[OF assms(1) fin] by (simp add: all_completed_def)
qed

text \<open>A running manager at rest: every worker waits for work and the mailbox is empty.\<close>

lemma rest_running:
  assumes "minv d cap m" and "valid_dispatcher d" and "inv_after m" and "at_rest d m" and "started m" and "\<not> stopped m"
  shows "\<forall>w \<in> set (workers m). w = WLoop" and "buffer (mailbox m) = []" and "finishers m = [FWait]"
proof -
  have flags: "inv_flags d m" using assms(1) by (rule minvD)
  have "after_func m" using assms(3,5,6) by (simp add: inv_after_def)
  then have "run_ctx m \<noteq> Some True"
    using at_rest_None(6)[OF assms(4)] rest_lock[OF assms(1,4)] by (auto simp: run_after_func_def stop_def)
  then have no_exit: "WExit \<notin> set (workers m)" using flags assms(6) unfolding inv_flags_def by blast
  then show loop: "\<forall>w \<in> set (workers m). w = WLoop"
    using rest_worker[OF assms(1,2,4)] by (metis in_set_conv_nth)
  have "0 < length (workers m)" using flags assms(2,5) by (simp add: inv_flags_def valid_dispatcher_def)
  then have w: "0 < length (workers m)" "workers m ! 0 = WLoop" "workers m ! 0 \<in> set (workers m)" using loop by simp_all
  then show "buffer (mailbox m) = []"
    using at_rest_None(7)[OF assms(4), of 0]
    by (auto simp: Manager.worker_recv_def worker_at_def chan_recv_def split: list.splits)
  have "finishing m" using flags assms(5) by (simp add: inv_flags_def)
  then obtain f where f: "finishers m = [f]" using flags by (auto simp: inv_flags_def length_Suc_conv)
  then have "past_wait f \<longrightarrow> (\<forall>p \<in> set (workers m). p = WExit)" using flags by (simp add: inv_flags_def)
  then show "finishers m = [FWait]" using f w(3) no_exit by (auto simp: past_wait_def)
qed

lemma loop_holds_nothing:
  assumes "\<forall>w \<in> set ws. w = WLoop"
  shows "holders w_ids q ws = 0" and "holders w_live q ws = 0" and "sum_list (map w_slot ws) = 0"
  using assms by (induction ws) auto

lemma rest_not_stopped:
  assumes "minv d cap m" and "valid_dispatcher d" and "inv_after m" and "at_rest d m" and "started m" and "\<not> stopped m"
    and "0 < cap"
  shows "all_completed m"
proof -
  note idle = rest_running[OF assms(1-6)]
  note hold = loop_holds_nothing[OF idle(1)]
  have no_lock: "p_slot p = 0 \<and> p_live p = []" if "p \<in> set (producers m)" for p
    using rest_producer[OF assms(1,4) that] by auto
  have "sum_list (map p_slot (producers m)) = sum_list (map (\<lambda>p. 0) (producers m))"
    by (intro arg_cong[of _ _ sum_list] map_cong) (simp_all add: no_lock)
  then have slots: "buffer (slots m) = []" "chan_cap (slots m) = cap"
    using minvD(1)[OF assms(1)] idle hold(3) by (simp_all add: inv_slots_def)
  have "producer_at m i \<noteq> Some (PSelect c q n)" for i c q n
    using at_rest_None(1)[OF assms(4), of i] slots assms(7) minvD(7)[OF assms(1)]
    by (auto simp: Enqueue_slot_def chan_send_def)
  then have returned: "\<forall>p \<in> set (producers m). \<exists>q e. p = PReturn q e" by (intro rest_returned[OF assms(1,4)]) blast
  have "occ q (finished_ids m) = occ q (map fst (admitted m))" for q
  proof -
    have "in_flight m q = 0" using idle(2,3) hold(1) by (simp add: in_flight_def)
    moreover have "balance m q = 0" using minvD(4)[OF assms(1)] by (simp add: inv_ids_def)
    ultimately show ?thesis unfolding balance_def by linarith
  qed
  then have ids: "mset (finished_ids m) = mset (map fst (admitted m))" by (rule mset_eq_occ)
  have "m_store m = []"
  proof (rule store_empty)
    fix q
    have "holders p_live q (producers m) = 0" using no_lock by (intro no_holders) blast
    then have "live m q = 0" using idle(2,3) hold(2) by (simp add: live_def)
    then show "store_get (m_store m) q = None"
      using minvD(5)[OF assms(1)] unfolding inv_store_def by (metis zero_neq_one)
  qed
  then show ?thesis using ids returned by (simp add: all_completed_def)
qed

lemma rest_completed:
  assumes "minv d cap m" and "valid_dispatcher d" and "inv_after m" and "at_rest d m" and "started m" and "0 < cap"
  shows "all_completed m"
  using rest_stopped[OF assms(1,2,4)] rest_not_stopped[OF assms(1-5) _ assms(6)] by blast

section \<open>Every run comes to rest\<close>

lemma comes_to_rest:
  assumes "minv d cap m" and "valid_dispatcher d" and "finishing m"
  shows "\<exists>evs m'. list_all internal evs \<and> mrun d evs m = Some m' \<and> at_rest d m'"
  using assms
proof (induction "nat (work m)" arbitrary: m rule: less_induct)
  case less
  show ?case
  proof (cases "at_rest d m")
    case True
    then show ?thesis by (intro exI[of _ "[]"]) simp
  next
    case False
    then obtain ev m1 where ev: "internal ev" "mstep d ev m = Some m1"
      unfolding at_rest_def by (metis option.exhaust)
    have t: "mtrans d m m1" using ev(2) by (rule mstep_mtrans)
    have inv: "minv d cap m1" using minv_trans[OF t less.prems(1,2)] .
    have "\<not> panicked m1" using minvD(3)[OF inv] by (simp add: inv_flags_def)
    then have "work m1 < work m" using internal_work[OF ev(2,1) less.prems(3)] by blast
    then obtain evs m' where "list_all internal evs" "mrun d evs m1 = Some m'" "at_rest d m'"
      using less.hyps[of m1] inv less.prems(2) finishing_mono[OF t less.prems(3)] work_nonneg[of m1] by auto
    then show ?thesis using ev by (intro exI[of _ "ev # evs"]) simp
  qed
qed

end
