(* ===== verification/Refinement.thy ===== *)
theory Refinement
  imports Main
begin

text \<open>
  Forward simulation as an interface: a concrete and an abstract transition system, the
  function that reads the abstract state off a concrete one, and an invariant that makes
  every concrete step an abstract one or an invisible one. Invariants of the abstract system
  carry over to the concrete one.
\<close>

locale forward_simulation =
  fixes init :: "'c \<Rightarrow> bool" and step :: "'c \<Rightarrow> 'c \<Rightarrow> bool" and inv :: "'c \<Rightarrow> bool"
    and spec_init :: "'a \<Rightarrow> bool" and spec_step :: "'a \<Rightarrow> 'a \<Rightarrow> bool" and abs :: "'c \<Rightarrow> 'a"
  assumes init_inv: "init c \<Longrightarrow> inv c"
    and step_inv: "step c c' \<Longrightarrow> inv c \<Longrightarrow> inv c'"
    and init_abs: "init c \<Longrightarrow> spec_init (abs c)"
    and step_abs: "step c c' \<Longrightarrow> inv c \<Longrightarrow> abs c' = abs c \<or> spec_step (abs c) (abs c')"
begin

lemma reaches_inv: "step\<^sup>*\<^sup>* c c' \<Longrightarrow> inv c \<Longrightarrow> inv c'"
  by (induction rule: rtranclp_induct) (auto intro: step_inv)

lemma reaches_abs:
  assumes "step\<^sup>*\<^sup>* c c'" and "inv c"
  shows "spec_step\<^sup>*\<^sup>* (abs c) (abs c')"
  using assms(1)
proof (induction rule: rtranclp_induct)
  case (step c1 c2)
  have "inv c1" using reaches_inv[OF step.hyps(1) assms(2)] .
  then show ?case using step_abs[OF step.hyps(2)] step.IH by (auto intro: rtranclp.rtrancl_into_rtrancl)
qed simp

lemma simulates: "init c \<Longrightarrow> step\<^sup>*\<^sup>* c c' \<Longrightarrow> \<exists>a. spec_init a \<and> spec_step\<^sup>*\<^sup>* a (abs c')"
  using reaches_abs init_inv init_abs by blast

text \<open>An invariant of the specification holds of what is read off every reachable state.\<close>

lemma transfer:
  assumes "init c" and "step\<^sup>*\<^sup>* c c'"
    and "\<And>a. spec_init a \<Longrightarrow> P a" and "\<And>a a'. P a \<Longrightarrow> spec_step a a' \<Longrightarrow> P a'"
  shows "P (abs c')"
proof -
  have "P a'" if "spec_step\<^sup>*\<^sup>* (abs c) a'" for a'
    using that by (induction rule: rtranclp_induct) (auto intro: assms(3,4) init_abs[OF assms(1)])
  then show ?thesis using reaches_abs[OF assms(2) init_inv[OF assms(1)]] by blast
qed

end

end
