(* ===== verification/Manager_Refinement.thy ===== *)
theory Manager_Refinement
  imports Manager_Shutdown Refinement
begin

text \<open>
  What the manager promises, without goroutines, channels, mutex, slots or store: a
  first-in first-out queue that accepts notifications until it is closed, hands each of
  them out once, reports one completion for each, and ends when nothing is left. The
  manager implements it: \<open>queue_of\<close> reads the queue off a state, and every step of every
  goroutine is a step of the queue or leaves it as it is.
\<close>

section \<open>The specification\<close>

record 'v queue =
  q_accepted :: "(uuid \<times> 'v notification) list"
  q_waiting :: "uuid list"
  q_hand :: "uuid multiset"
  q_reports :: "(completion \<times> bool) list"
  q_closed :: bool
  q_ended :: bool

definition empty_queue :: "'v queue" where
  "empty_queue = \<lparr>q_accepted = [], q_waiting = [], q_hand = {#}, q_reports = [], q_closed = False, q_ended = False\<rparr>"

text \<open>
  A report carries the outcome of a delivery of the notification accepted under the ID. Once
  the queue is closed, a notification that was handed out may be dropped instead.
\<close>

inductive queue_step :: "('v, 'x) dispatcher \<Rightarrow> nat \<Rightarrow> 'v queue \<Rightarrow> 'v queue \<Rightarrow> bool" for d cap where
  accept: "\<not> q_closed s \<Longrightarrow> length (q_waiting s) < cap \<Longrightarrow> q \<notin> fst ` set (q_accepted s) \<Longrightarrow> 0 < q \<Longrightarrow>
    queue_step d cap s (s\<lparr>q_accepted := q_accepted s @ [(q, n)], q_waiting := q_waiting s @ [q]\<rparr>)"
| take: "q_waiting s = q # qs \<Longrightarrow> queue_step d cap s (s\<lparr>q_waiting := qs, q_hand := add_mset q (q_hand s)\<rparr>)"
| report: "q_hand s = add_mset q h \<Longrightarrow> (q, n) \<in> set (q_accepted s) \<Longrightarrow> delivered d q n err \<Longrightarrow>
    queue_step d cap s (s\<lparr>q_hand := h, q_reports := q_reports s @
      [(\<lparr>QueueID = q, CompletionNotificationID = NotificationID n, Err = err\<rparr>, False)]\<rparr>)"
| drop: "q_closed s \<Longrightarrow> q_hand s = add_mset q h \<Longrightarrow> (q, n) \<in> set (q_accepted s) \<Longrightarrow>
    queue_step d cap s (s\<lparr>q_hand := h, q_reports := q_reports s @
      [(\<lparr>QueueID = q, CompletionNotificationID = NotificationID n, Err = Some ErrManagerStopped\<rparr>, True)]\<rparr>)"
| close: "\<not> q_closed s \<Longrightarrow> queue_step d cap s (s\<lparr>q_closed := True\<rparr>)"
| finish: "q_closed s \<Longrightarrow> q_waiting s = [] \<Longrightarrow> q_hand s = {#} \<Longrightarrow> queue_step d cap s (s\<lparr>q_ended := True\<rparr>)"

inductive_cases queue_stepE: "queue_step d cap s s'"

definition queue_reachable :: "('v, 'x) dispatcher \<Rightarrow> nat \<Rightarrow> 'v queue \<Rightarrow> bool" where
  "queue_reachable d cap s \<longleftrightarrow> (queue_step d cap)\<^sup>*\<^sup>* empty_queue s"

definition reported :: "'v queue \<Rightarrow> uuid list" where
  "reported s = map (\<lambda>(c, b). QueueID c) (q_reports s)"

text \<open>
  What the specification guarantees by itself: every accepted ID is waiting, handed out or
  reported, and it is so once; an ended queue has nothing left.
\<close>

definition queue_conserves :: "nat \<Rightarrow> 'v queue \<Rightarrow> bool" where
  "queue_conserves cap s \<longleftrightarrow>
     mset (map fst (q_accepted s)) = mset (q_waiting s) + q_hand s + mset (reported s) \<and>
     distinct (map fst (q_accepted s)) \<and> length (q_waiting s) \<le> cap \<and>
     (q_ended s \<longrightarrow> q_closed s \<and> q_waiting s = [] \<and> q_hand s = {#})"

lemma queue_conserves_empty: "queue_conserves cap empty_queue"
  by (simp add: queue_conserves_def empty_queue_def reported_def)

lemma queue_conserves_step: "queue_conserves cap s \<Longrightarrow> queue_step d cap s s' \<Longrightarrow> queue_conserves cap s'"
  unfolding queue_conserves_def by (erule queue_stepE) (auto simp: reported_def)

section \<open>The queue of a manager\<close>

text \<open>The IDs that goroutines have taken off the mailbox and not completed.\<close>

definition hand_ids :: "'v manager \<Rightarrow> uuid list" where
  "hand_ids m = concat (map w_ids (workers m)) @ concat (map f_ids (finishers m))"

definition queue_of :: "'v manager \<Rightarrow> 'v queue" where
  "queue_of m = \<lparr>q_accepted = admitted m, q_waiting = buffer (mailbox m), q_hand = mset (hand_ids m),
     q_reports = finished m, q_closed = stopped m, q_ended = chan_closed (m_done m)\<rparr>"

lemma queue_of_new: "queue_of (new_manager cap) = empty_queue"
  by (simp add: queue_of_def empty_queue_def new_manager_def make_chan_def hand_ids_def)

lemma queue_of_frame [simp]:
  "queue_of (m\<lparr>m_store := s\<rparr>) = queue_of m" "queue_of (m\<lparr>slots := c\<rparr>) = queue_of m"
  "queue_of (m\<lparr>lock := l\<rparr>) = queue_of m" "queue_of (m\<lparr>producers := ps\<rparr>) = queue_of m"
  "queue_of (m\<lparr>callers := cs\<rparr>) = queue_of m" "queue_of (m\<lparr>next_uuid := q\<rparr>) = queue_of m"
  "queue_of (m\<lparr>after_func := af\<rparr>) = queue_of m" "queue_of (m\<lparr>panicked := b\<rparr>) = queue_of m"
  "queue_of (m\<lparr>run_ctx := r\<rparr>) = queue_of m" "queue_of (set_producer i p m) = queue_of m"
  by (simp_all add: queue_of_def hand_ids_def set_producer_def)

text \<open>What a goroutine holds after a move, as a change of the multiset of IDs handed out.\<close>

lemma mset_concat_update:
  "i < length gs \<Longrightarrow> mset (concat (map ids (gs[i := g]))) + mset (ids (gs ! i)) = mset (concat (map ids gs)) + mset (ids g)"
proof (induction gs arbitrary: i)
  case (Cons x gs)
  then show ?case by (cases i) (simp_all add: ac_simps)
qed simp

lemma concat_update_same: "i < length gs \<Longrightarrow> ids g = ids (gs ! i) \<Longrightarrow> concat (map ids (gs[i := g])) = concat (map ids gs)"
  by (metis list_update_id map_update)

lemma hand_worker:
  "i < length (workers m) \<Longrightarrow>
     mset (hand_ids (set_worker i w m)) + mset (w_ids (workers m ! i)) = mset (hand_ids m) + mset (w_ids w)"
  using mset_concat_update[of i "workers m" w_ids w] by (simp add: hand_ids_def set_worker_def ac_simps)

lemma hand_finisher:
  "j < length (finishers m) \<Longrightarrow>
     mset (hand_ids (set_finisher j f m)) + mset (f_ids (finishers m ! j)) = mset (hand_ids m) + mset (f_ids f)"
  using mset_concat_update[of j "finishers m" f_ids f] by (simp add: hand_ids_def set_finisher_def ac_simps)

lemma queue_of_worker:
  "i < length (workers m) \<Longrightarrow> w_ids w = w_ids (workers m ! i) \<Longrightarrow> queue_of (set_worker i w m) = queue_of m"
  using hand_worker[of i m w] by (simp add: queue_of_def set_worker_def)

lemma queue_of_finisher:
  "j < length (finishers m) \<Longrightarrow> f_ids f = f_ids (finishers m ! j) \<Longrightarrow> queue_of (set_finisher j f m) = queue_of m"
  using hand_finisher[of j m f] by (simp add: queue_of_def set_finisher_def)

lemma queue_of_stop: "queue_of (stop_body b m) = queue_of m\<lparr>q_closed := True\<rparr>"
  by (simp add: queue_of_def hand_ids_def)

text \<open>A step of the queue, or none.\<close>

definition queue_move :: "('v, 'x) dispatcher \<Rightarrow> nat \<Rightarrow> 'v queue \<Rightarrow> 'v queue \<Rightarrow> bool" where
  "queue_move d cap s s' \<longleftrightarrow> s' = s \<or> queue_step d cap s s'"

lemma queue_move_refl [simp]: "queue_move d cap s s"
  by (simp add: queue_move_def)

lemma queue_move_close: "queue_move d cap s (s\<lparr>q_closed := True\<rparr>)"
  by (cases "q_closed s") (auto simp: queue_move_def intro: queue_step.close)

section \<open>Every transition is a move of the queue\<close>

lemma move_send:
  assumes "minv d cap m" and "i < length (producers m)" and "producers m ! i = PSend c q n"
    and "length (buffer (mailbox m)) < chan_cap (mailbox m)" and "\<not> chan_closed (mailbox m)"
  shows "queue_step d cap (queue_of m)
    (queue_of m\<lparr>q_accepted := admitted m @ [(q, n)], q_waiting := buffer (mailbox m) @ [q]\<rparr>)"
proof -
  have "PSend c q n \<in> set (producers m)" using assms(2,3) by (metis nth_mem)
  then have p: "0 < holders p_ids q (producers m)" using one_holder[of "PSend c q n" "producers m" q p_ids] by simp
  have i: "issued m q \<le> (if 0 < q \<and> q < next_uuid m then 1 else 0)" using inv_ids_bound[OF minvD(4)[OF assms(1)]] .
  have a: "0 \<le> occ q (map fst (admitted m))" by (rule occ_nonneg)
  have pos: "0 < issued m q" using p a unfolding issued_def by linarith
  then have "0 < q" using i by (auto split: if_splits)
  moreover have "issued m q \<le> 1" using i by (auto split: if_splits)
  then have "occ q (map fst (admitted m)) = 0" using p a unfolding issued_def by linarith
  moreover have "chan_cap (mailbox m) = cap" "\<not> stopped m"
    using minvD(1,3)[OF assms(1)] assms(5) by (simp_all add: inv_slots_def inv_flags_def queue_ok_def)
  ultimately show ?thesis
    using assms(4) queue_step.accept[of "queue_of m" cap q d n] by (simp add: queue_of_def occ_zero_iff)
qed

lemma move_take:
  assumes "buffer (mailbox m) = q # qs" and "mset (hand_ids m') = add_mset q (mset (hand_ids m))"
    and "buffer (mailbox m') = qs" and "admitted m' = admitted m" and "finished m' = finished m"
    and "stopped m' = stopped m" and "m_done m' = m_done m"
  shows "queue_move d cap (queue_of m) (queue_of m')"
  using queue_step.take[of "queue_of m" q qs d cap] assms by (simp add: queue_of_def queue_move_def)

lemma move_report:
  assumes "minv d cap m" and "i < length (workers m)" and "workers m ! i = WComplete q n err"
  shows "queue_step d cap (queue_of m) (queue_of (set_worker i WLoop (complete d q n err False m)))"
proof -
  have "(q, n) \<in> set (admitted m)" "delivered d q n err"
    using inv_data_nth(1)[OF minvD(6)[OF assms(1)] assms(2)] assms(3) by simp_all
  moreover have "mset (hand_ids m) = add_mset q (mset (hand_ids (set_worker i WLoop m)))"
    using hand_worker[of i m WLoop] assms(2,3) by simp
  ultimately show ?thesis
    using queue_step.report[of "queue_of m" q "mset (hand_ids (set_worker i WLoop m))" n d err cap]
    by (simp add: queue_of_def hand_ids_def set_worker_def complete_def Let_def)
qed

lemma move_drop:
  assumes "minv d cap m" and "j < length (finishers m)" and "finishers m ! j = FReleased q (Some n)"
  shows "queue_step d cap (queue_of m)
    (queue_of (set_finisher j FRange (complete d q n (Some ErrManagerStopped) True m)))"
proof -
  have "(q, n) \<in> set (admitted m)"
    using inv_data_nth(2)[OF minvD(6)[OF assms(1)] assms(2)] assms(3) by simp
  moreover have "mset (hand_ids m) = add_mset q (mset (hand_ids (set_finisher j FRange m)))"
    using hand_finisher[of j m FRange] assms(2,3) by simp
  moreover have "FReleased q (Some n) \<in> set (finishers m)" using assms(2,3) by (metis nth_mem)
  then have "stopped m" using minvD(3)[OF assms(1)] unfolding inv_flags_def past_stop_def by blast
  ultimately show ?thesis
    using queue_step.drop[of "queue_of m" q "mset (hand_ids (set_finisher j FRange m))" n d cap]
    by (simp add: queue_of_def hand_ids_def set_finisher_def complete_def Let_def)
qed

lemma exited_hold_nothing: "\<forall>w \<in> set ws. w = WExit \<Longrightarrow> concat (map w_ids ws) = []"
  by (induction ws) auto

lemma move_finish:
  assumes "minv d cap m" and "j < length (finishers m)" and "finishers m ! j = FRange" and "buffer (mailbox m) = []"
  shows "queue_step d cap (queue_of m) (queue_of (set_finisher j FDone m\<lparr>m_done := m_done m\<lparr>chan_closed := True\<rparr>\<rparr>))"
proof -
  note facts = draining_facts[OF minvD(3)[OF assms(1)] assms(2,3)]
  have "concat (map w_ids (workers m)) = []" using exited_hold_nothing facts(6) .
  then show ?thesis
    using queue_step.finish[of "queue_of m" d cap] assms(4) facts(1,2,4)
    by (simp add: queue_of_def hand_ids_def set_finisher_def)
qed

lemma mtrans_queue_move:
  assumes "mtrans d m m'" and "minv d cap m"
  shows "queue_move d cap (queue_of m) (queue_of m')"
  using assms
proof (induction rule: mtrans.induct)
  case (send i m c q n)
  then show ?case
    using move_send[of d cap m i c q n] by (simp add: queue_move_def queue_of_def hand_ids_def set_producer_def)
next
  case (start m)
  then have "workers m = []" using minvD(3) unfolding inv_flags_def by (metis length_0_conv)
  then show ?case by (simp add: queue_of_def hand_ids_def)
next
  case (after m)
  then show ?case by (simp add: queue_of_stop queue_move_close)
next
  case (caller_stop m b cs)
  then show ?case by (simp add: queue_of_stop queue_move_close)
next
  case (finish_stop j m)
  then show ?case by (simp add: queue_of_stop queue_of_finisher queue_move_close)
next
  case (worker_recv i m q qs)
  then show ?case
    using hand_worker[of i m "WGot q"]
    by (intro move_take[where q = q and qs = qs]) (simp_all add: hand_ids_def set_worker_def)
next
  case (finish_recv j m q qs)
  then show ?case
    using hand_finisher[of j m "FGot q"]
    by (intro move_take[where q = q and qs = qs]) (simp_all add: hand_ids_def set_finisher_def)
next
  case (worker_complete i m q n err)
  then show ?case using move_report[of d cap m i q n err] by (simp add: queue_move_def)
next
  case (finish_complete j m q n)
  then show ?case using move_drop[of d cap m j q n] by (simp add: queue_move_def)
next
  case (finish_done j m)
  then show ?case using move_finish[of d cap m j] by (simp add: queue_move_def)
next
  case (worker_missing i m q)
  then show ?case using minvD(8) unfolding all_found_def by blast
next
  case (finish_skip j m q)
  then show ?case using inv_data_nth(2)[OF minvD(6), of d cap m j] by simp
next
  case (worker_release_closed m i q n)
  then show ?case using minvD(7) by blast
next
  case (finish_release_closed m j q nn)
  then show ?case using minvD(7) by blast
qed (simp_all add: queue_of_worker queue_of_finisher)

definition manager_step :: "('v, 'x) dispatcher \<Rightarrow> 'v manager \<Rightarrow> 'v manager \<Rightarrow> bool" where
  "manager_step d m m' \<longleftrightarrow> (\<exists>ev. mstep d ev m = Some m')"

text \<open>The manager of a valid dispatcher implements the queue.\<close>

interpretation manager_queue: forward_simulation
  "\<lambda>m. valid_dispatcher d \<and> m = new_manager cap" "manager_step d" "\<lambda>m. valid_dispatcher d \<and> minv d cap m"
  "\<lambda>s. s = empty_queue" "queue_step d cap" queue_of
  for d :: "('v, 'x) dispatcher" and cap
proof
  fix m m' :: "'v manager"
  assume "manager_step d m m'" and inv: "valid_dispatcher d \<and> minv d cap m"
  then have t: "mtrans d m m'" by (auto simp: manager_step_def intro: mstep_mtrans)
  show "valid_dispatcher d \<and> minv d cap m'" using minv_trans[OF t] inv by blast
  show "queue_of m' = queue_of m \<or> queue_step d cap (queue_of m) (queue_of m')"
    using mtrans_queue_move[OF t] inv by (simp add: queue_move_def)
qed (simp_all add: minv_init queue_of_new)

lemma reachable_steps: "reachable_by P d cap m \<Longrightarrow> (manager_step d)\<^sup>*\<^sup>* (new_manager cap) m"
  by (induction rule: reachable_by.induct) (auto simp: manager_step_def intro: rtranclp.rtrancl_into_rtrancl)

lemma reachable_queue:
  assumes "reachable_by P d cap m" and "valid_dispatcher d"
  shows "queue_reachable d cap (queue_of m)" and "queue_conserves cap (queue_of m)"
proof -
  note run = reachable_steps[OF assms(1)]
  show "queue_reachable d cap (queue_of m)"
    using manager_queue.simulates[OF _ run] assms(2) by (auto simp: queue_reachable_def)
  show "queue_conserves cap (queue_of m)"
    by (rule manager_queue.transfer[where d = d and cap = cap, OF _ run])
      (use assms(2) in \<open>auto intro: queue_conserves_empty queue_conserves_step\<close>)
qed

section \<open>What \<open>Enqueue\<close> returns\<close>

text \<open>The IDs that calls have returned without an error are exactly the accepted ones.\<close>

fun returned_ids :: "'v producer \<Rightarrow> uuid list" where
  "returned_ids (PReturn q None) = [q]"
| "returned_ids _ = []"

definition inv_returned :: "'v manager \<Rightarrow> bool" where
  "inv_returned m \<longleftrightarrow> mset (concat (map returned_ids (producers m))) = mset (map fst (admitted m))"

lemma inv_returned_trans:
  assumes "mtrans d m m'" and "inv_returned m" and "\<not> chan_closed (slots m)"
  shows "inv_returned m'"
  using assms
proof (induction rule: mtrans.induct)
  case (send i m c q n)
  then show ?case
    using mset_concat_update[of i "producers m" returned_ids "PReturn q None"]
    by (simp add: inv_returned_def set_producer_def)
qed (simp_all add: inv_returned_def set_defs concat_update_same)

lemma reachable_returned:
  assumes "reachable_by P d cap m" and "valid_dispatcher d"
  shows "inv_returned m"
  using assms(1)
proof (induction rule: reachable_by.induct)
  case init
  then show ?case by (simp add: inv_returned_def new_manager_def)
next
  case (step m ev m')
  show ?case
    using inv_returned_trans[OF mstep_mtrans[OF step.hyps(3)] step.IH]
      minvD(7)[OF reachable_minv[OF step.hyps(1) assms(2)]] by blast
qed

section \<open>The order of completions\<close>

text \<open>
  With a single worker the IDs completed, in hand and waiting are, in this order, the IDs
  accepted.
\<close>

definition in_order :: "'v manager \<Rightarrow> bool" where
  "in_order m \<longleftrightarrow> finished_ids m @ hand_ids m @ buffer (mailbox m) = map fst (admitted m)"

lemma only_worker:
  assumes "inv_flags d m" and "d_workers d = 1" and "i < length (workers m)"
  shows "workers m = [workers m ! i]" and "i = 0"
proof -
  have "length (workers m) = (if started m then 1 else 0)" using assms(1,2) by (simp add: inv_flags_def)
  then show "workers m = [workers m ! i]" and "i = 0" using single assms(3) by blast+
qed

lemma busy_worker:
  assumes "inv_flags d m" and "d_workers d = 1" and "i < length (workers m)" and "workers m ! i \<noteq> WExit"
  shows "workers m = [workers m ! i]" and "i = 0" and "concat (map f_ids (finishers m)) = []"
proof -
  show one: "workers m = [workers m ! i]" "i = 0" using only_worker[OF assms(1-3)] .
  have "workers m ! i \<in> set (workers m)" using assms(3) by simp
  then have "\<forall>f \<in> set (finishers m). f = FWait"
    using assms(1,4) unfolding inv_flags_def past_wait_def by blast
  then have "\<forall>f \<in> set (finishers m). f_ids f = []" by auto
  then show "concat (map f_ids (finishers m)) = []" by simp
qed

lemma the_draining:
  assumes "inv_flags d m" and "j < length (finishers m)" and "finishers m ! j = f" and "past_wait f"
  shows "finishers m = [f]" and "j = 0" and "concat (map w_ids (workers m)) = []"
proof -
  show one: "finishers m = [f]" "j = 0" using the_finisher[OF assms(1-3)] by blast+
  then have "\<forall>p \<in> set (workers m). p = WExit" using assms(1,4) by (simp add: inv_flags_def)
  then show "concat (map w_ids (workers m)) = []" by (rule exited_hold_nothing)
qed

lemmas order_defs = in_order_def hand_ids_def finished_ids_def complete_def Let_def set_defs

text \<open>A move that leaves the goroutine with the IDs it had keeps the order.\<close>

lemma in_order_same:
  "i < length (workers m) \<Longrightarrow> w_ids w = w_ids (workers m ! i) \<Longrightarrow> in_order (set_worker i w m) = in_order m"
  "j < length (finishers m) \<Longrightarrow> f_ids f = f_ids (finishers m ! j) \<Longrightarrow> in_order (set_finisher j f m) = in_order m"
  by (simp_all add: order_defs concat_update_same)

lemma in_order_frame [simp]:
  "in_order (m\<lparr>m_store := s\<rparr>) = in_order m" "in_order (m\<lparr>slots := c\<rparr>) = in_order m"
  "in_order (m\<lparr>m_done := c\<rparr>) = in_order m" "in_order (stop_body b m) = in_order m"
  by (simp_all add: in_order_def hand_ids_def finished_ids_def)

lemma in_order_trans:
  assumes "mtrans d m m'" and "minv d cap m" and "d_workers d = 1" and "in_order m"
  shows "in_order m'"
  using assms(1) minvD(3,7,8)[OF assms(2)] minvD(6)[OF assms(2)] assms(3,4)
proof (induction rule: mtrans.induct)
  case (start m)
  then have "workers m = []" unfolding inv_flags_def by (metis length_0_conv)
  then show ?case using start by (simp add: order_defs)
next
  case (worker_recv i m q qs)
  note busy = busy_worker[OF worker_recv.prems(1,5) worker_recv.hyps(1)]
  have "workers m = [WLoop]" "i = 0" "concat (map f_ids (finishers m)) = []"
    using busy worker_recv.hyps(2) by simp_all
  then show ?case using worker_recv.prems(6) worker_recv.hyps(3) by (simp add: order_defs del: concat_eq_Nil_conv)
next
  case (worker_missing i m q)
  then show ?case unfolding all_found_def by blast
next
  case (worker_complete i m q n err)
  note busy = busy_worker[OF worker_complete.prems(1,5) worker_complete.hyps(1)]
  have "workers m = [WComplete q n err]" "i = 0" "concat (map f_ids (finishers m)) = []"
    using busy worker_complete.hyps(2) by simp_all
  then show ?case using worker_complete.prems(6) by (simp add: order_defs del: concat_eq_Nil_conv)
next
  case (finish_recv j m q qs)
  then show ?case using the_draining[of d m j] by (auto simp: order_defs past_wait_def simp del: concat_eq_Nil_conv)
next
  case (finish_skip j m q)
  then show ?case using inv_data_nth(2)[of d m j] by simp
next
  case (finish_complete j m q n)
  then show ?case using the_draining[of d m j] by (auto simp: order_defs past_wait_def simp del: concat_eq_Nil_conv)
qed (simp_all add: in_order_same | simp_all add: order_defs)+

lemma reachable_in_order:
  assumes "reachable_by P d cap m" and "valid_dispatcher d" and "d_workers d = 1"
  shows "in_order m"
  using assms
proof (induction rule: reachable_by.induct)
  case init
  then show ?case by (simp add: order_defs new_manager_def make_chan_def)
next
  case (step m ev m')
  then show ?case using in_order_trans[OF mstep_mtrans reachable_minv] by blast
qed

end
