(* ===== verification/Manager_Properties.thy ===== *)
theory Manager_Properties
  imports Manager_Examples Manager_Progress Manager_Refinement
begin

text \<open>
  The properties of the manager, each applied to the example runs of \<open>Manager_Examples\<close>.
\<close>

text \<open>
  C1: when a call of \<open>Shutdown\<close> or \<open>Wait\<close> has returned nil, \<open>done\<close> is closed, every accepted
  notification has had exactly one completion callback, and nothing is left in the store
  or the mailbox.
\<close>

theorem shutdown_nil_means_completed:
  assumes "reachable d cap m" and "valid_dispatcher d" and "d_onComplete d" and "CReturn None \<in> set (callers m)"
  shows "chan_closed (m_done m) \<and> mset (map QueueID (callbacks m)) = mset (map fst (admitted m)) \<and>
    distinct (map QueueID (callbacks m)) \<and> m_store m = [] \<and> buffer (mailbox m) = []"
proof -
  have inv: "minv d cap m" using reachable_minv[OF assms(1,2)] .
  have "chan_closed (m_done m)" using reachable_returns[OF assms(1)] assms(4) by (simp add: inv_returns_def)
  then show ?thesis
    using callback_ids[OF minvD(6)[OF inv] assms(3)] done_ids[OF inv] finished_distinct[OF minvD(4)[OF inv]]
      done_store[OF inv] done_state(4)[OF inv] by simp
qed

lemma shutdown_nil_means_completed_witness:
  "\<exists>m. reachable demo_dispatcher 2 m \<and> CReturn None \<in> set (callers m) \<and>
     mset (map QueueID (callbacks m)) = {#1, 2#} \<and> m_store m = []"
proof -
  obtain m where m: "reachable demo_dispatcher 2 m" "callers m = [CReturn None]" "map fst (admitted m) = [1, 2]"
    using demo_reachable[OF run_end] by auto
  then show ?thesis
    using shutdown_nil_means_completed[OF m(1) demo_valid demo_callback] by (intro exI[of _ m]) simp
qed

text \<open>
  C2: once \<open>done\<close> is closed, the callback list holds exactly one completion for every ID that
  \<open>Enqueue\<close> returned without an error, and it names the notification enqueued under it.
\<close>

theorem enqueued_completes_exactly_once:
  assumes "reachable d cap m" and "valid_dispatcher d" and "d_onComplete d" and "chan_closed (m_done m)"
    and "PReturn q None \<in> set (producers m)"
  shows "\<exists>c n. filter (\<lambda>c. QueueID c = q) (callbacks m) = [c] \<and> (q, n) \<in> set (admitted m) \<and>
    CompletionNotificationID c = NotificationID n"
proof -
  have inv: "minv d cap m" using reachable_minv[OF assms(1,2)] .
  have ids: "map QueueID (callbacks m) = finished_ids m" using callback_ids[OF minvD(6)[OF inv] assms(3)] .
  have "q \<in> fst ` set (admitted m)" using reachable_returns[OF assms(1)] assms(5) by (simp add: inv_returns_def)
  then have "q \<in> set (map QueueID (callbacks m))"
    using done_ids[OF inv assms(4)] ids by (metis list.set_map mset_eq_setD)
  then obtain c where c: "c \<in> set (callbacks m)" "QueueID c = q" by auto
  have "distinct (map QueueID (callbacks m))" using finished_distinct[OF minvD(4)[OF inv]] ids by simp
  then have one: "filter (\<lambda>c. QueueID c = q) (callbacks m) = [c]" using filter_key_single c by metis
  obtain b where "(c, b) \<in> set (finished m)"
    using c(1) minvD(6)[OF inv] assms(3) by (auto simp: inv_data_def)
  then show ?thesis
    using one c(2) minvD(6)[OF inv] unfolding inv_data_def completion_of_def by fastforce
qed

lemma enqueued_completes_exactly_once_witness:
  "\<exists>m c. reachable demo_dispatcher 2 m \<and> filter (\<lambda>c. QueueID c = 2) (callbacks m) = [c]"
proof -
  obtain m where m: "reachable demo_dispatcher 2 m" "chan_closed (m_done m)" "map returned_id (producers m) = [1, 2]"
    using demo_reachable[OF run_end] by auto
  then obtain a p where "producers m = [a, p]" "returned_id p = 2" by (auto simp: map_eq_Cons_conv)
  then have "PReturn 2 None \<in> set (producers m)" using returned_id_pos[of p 2] by simp
  then show ?thesis
    using enqueued_completes_exactly_once[OF m(1) demo_valid demo_callback m(2)] m(1) by blast
qed

text \<open>
  C4: at every moment, no notification has had more than one callback, and every callback
  is for an accepted notification, carries its ID, and reports either the outcome of a
  delivery of it or \<open>ErrManagerStopped\<close>.
\<close>

theorem callbacks_sound:
  assumes "reachable d cap m" and "valid_dispatcher d" and "d_onComplete d"
  shows "distinct (map QueueID (callbacks m)) \<and> (\<forall>c \<in> set (callbacks m). \<exists>n. (QueueID c, n) \<in> set (admitted m) \<and>
    CompletionNotificationID c = NotificationID n \<and>
    (Err c = Some ErrManagerStopped \<or> (\<exists>ctx w w'. deliver_outcome d ctx (QueueID c) n w = Some (Err c, w'))))"
proof (intro conjI ballI)
  have inv: "minv d cap m" using reachable_minv[OF assms(1,2)] .
  show "distinct (map QueueID (callbacks m))"
    using callback_ids[OF minvD(6)[OF inv] assms(3)] finished_distinct[OF minvD(4)[OF inv]] by simp
  fix c assume "c \<in> set (callbacks m)"
  then obtain b where "completion_of d (set (admitted m)) c b"
    using minvD(6)[OF inv] assms(3) by (force simp: inv_data_def)
  then show "\<exists>n. (QueueID c, n) \<in> set (admitted m) \<and> CompletionNotificationID c = NotificationID n \<and>
    (Err c = Some ErrManagerStopped \<or> (\<exists>ctx w w'. deliver_outcome d ctx (QueueID c) n w = Some (Err c, w')))"
    unfolding completion_of_def delivered_def by (metis (full_types))
qed

lemma callbacks_sound_witness:
  "\<exists>m. reachable demo_dispatcher 2 m \<and> map QueueID (callbacks m) = [1, 2] \<and> distinct (map QueueID (callbacks m))"
  using demo_reachable[OF run_graceful] callbacks_sound[OF _ demo_valid demo_callback] by auto

text \<open>
  C5: when neither the context of \<open>Start\<close> nor the context of a waiting \<open>Shutdown\<close> or
  \<open>Wait\<close> ends, a started manager discards nothing: every callback reports a delivery of the
  notification it names.
\<close>

theorem graceful_shutdown_delivers_all:
  assumes "reachable_by graceful d cap m" and "valid_dispatcher d" and "d_onComplete d" and "started m"
  shows "\<forall>c \<in> set (callbacks m). \<exists>n ctx w w'. (QueueID c, n) \<in> set (admitted m) \<and>
    deliver_outcome d ctx (QueueID c) n w = Some (Err c, w')"
proof
  have inv: "minv d cap m" using reachable_minv[OF assms(1,2)] .
  fix c assume "c \<in> set (callbacks m)"
  then obtain b where b: "(c, b) \<in> set (finished m)" "completion_of d (set (admitted m)) c b"
    using minvD(6)[OF inv] assms(3) by (force simp: inv_data_def)
  then have "\<not> b" using reachable_graceful[OF assms(1,2)] assms(4) by (auto simp: inv_graceful_def)
  then show "\<exists>n ctx w w'. (QueueID c, n) \<in> set (admitted m) \<and> deliver_outcome d ctx (QueueID c) n w = Some (Err c, w')"
    using b(2) unfolding completion_of_def delivered_def by auto
qed

lemma graceful_shutdown_delivers_all_witness:
  "\<exists>(m :: unit manager) c n ctx w w'. map QueueID (callbacks m) = [1, 2] \<and> c \<in> set (callbacks m) \<and>
     deliver_outcome demo_dispatcher ctx (QueueID c) n w = Some (Err c, w')"
proof -
  obtain m where m: "mrun demo_dispatcher (demo_accept @ demo_deliver @ demo_drain) (new_manager 2) = Some m"
      "started m" "map QueueID (callbacks m) = [1, 2]"
    using run_graceful by (auto simp: map_option_case split: option.splits)
  have r: "reachable_by graceful demo_dispatcher 2 m"
    using reachable_by_run[OF reachable_by.init demo_graceful m(1)] .
  obtain c where c: "c \<in> set (callbacks m)" using m(3) by (cases "callbacks m") auto
  then obtain n ctx w w' where "deliver_outcome demo_dispatcher ctx (QueueID c) n w = Some (Err c, w')"
    using graceful_shutdown_delivers_all[OF r demo_valid demo_callback m(2)] by blast
  then show ?thesis using m(3) c by (intro exI[of _ m] exI[of _ c] exI) (intro conjI)
qed

text \<open>
  C6: a stopped manager terminates. Whatever order its goroutines run in, they take at most
  \<open>work m\<close> steps, they are never all blocked before \<open>done\<close> is closed, and so every run can be
  continued to a state with \<open>done\<close> closed.
\<close>

theorem stopped_manager_terminates:
  assumes "reachable d cap m" and "valid_dispatcher d" and "stopped m" and "list_all internal evs"
    and "mrun d evs m = Some m'"
  shows "int (length evs) \<le> work m \<and>
    (chan_closed (m_done m') \<or> (\<exists>ev m''. internal ev \<and> mstep d ev m' = Some m'')) \<and>
    (\<exists>more m''. list_all internal more \<and> mrun d more m' = Some m'' \<and> chan_closed (m_done m''))"
proof -
  have inv: "minv d cap m" using reachable_minv[OF assms(1,2)] .
  have inv': "minv d cap m'" using mrun_minv[OF assms(5) inv assms(2)] .
  have stop': "stopped m'" using mrun_stopped[OF assms(5,3)] .
  have "finishing m" using minvD(3)[OF inv] assms(3) by (simp add: inv_flags_def)
  then have "int (length evs) \<le> work m"
    using mrun_internal[OF assms(5,4) inv assms(2)] work_nonneg[of m'] by simp
  then show ?thesis
    using stopped_progress[OF inv' assms(2) stop'] stopped_completes[OF inv' assms(2) stop'] by blast
qed

lemma stopped_manager_terminates_witness:
  "\<exists>m evs m'. reachable demo_dispatcher 2 m \<and> \<not> chan_closed (m_done m) \<and> mrun demo_dispatcher evs m = Some m' \<and>
     chan_closed (m_done m')"
proof -
  obtain m where m: "reachable demo_dispatcher 2 m" "stopped m" "\<not> chan_closed (m_done m)"
    using demo_reachable[OF run_stopped] by auto
  then show ?thesis
    using stopped_manager_terminates[OF m(1) demo_valid m(2), of "[]" m] by auto
qed

text \<open>
  C9: no interleaving of calls, cancellations and goroutine steps makes a channel operation
  or the delivery engine panic: no send on a closed mailbox, no second close of a channel,
  no nil target.
\<close>

theorem manager_never_panics:
  assumes "reachable d cap m" and "valid_dispatcher d"
  shows "\<not> panicked m"
  using minvD(3)[OF reachable_minv[OF assms]] by (simp add: inv_flags_def)

lemma manager_never_panics_witness:
  "\<exists>m. reachable demo_dispatcher 2 m \<and> stopped m \<and> \<not> panicked m"
  using demo_reachable[OF run_stopped] manager_never_panics[OF _ demo_valid] by auto

text \<open>
  C10: the queue capacity bounds the mailbox and also the notifications held in the store.
\<close>

theorem capacity_bounds_queue:
  assumes "reachable d cap m" and "valid_dispatcher d"
  shows "length (buffer (mailbox m)) \<le> cap \<and> length (m_store m) \<le> cap \<and> length (buffer (slots m)) \<le> cap"
proof -
  have inv: "inv_slots cap m" "inv_store m" using minvD[OF reachable_minv[OF assms]] by blast+
  then show ?thesis using mailbox_bound[OF inv(1)] store_bound[OF inv] by (simp add: inv_slots_def)
qed

lemma capacity_bounds_queue_witness:
  "\<exists>m. reachable demo_dispatcher 2 m \<and> started m \<and> length (m_store m) \<le> 2"
  using demo_reachable[OF run_accepted] capacity_bounds_queue[OF _ demo_valid] by auto

text \<open>
  The send of an admitted ID, made while holding the mutex, never blocks: the reserved
  slot is room in the mailbox. It admits the notification and releases the mutex.
\<close>

lemma admission_send_never_blocks:
  assumes "reachable d cap m" and "valid_dispatcher d" and "i < length (producers m)" and "producers m ! i = PSend c q n"
  shows "\<exists>m'. Enqueue_send i m = Some m' \<and> producers m' ! i = PReturn q None \<and> lock m' = None \<and>
    admitted m' = admitted m @ [(q, n)] \<and> buffer (mailbox m') = buffer (mailbox m) @ [q]"
  by (rule send_enabled[OF reachable_minv[OF assms(1,2)] assms(3,4)])

lemma admission_send_never_blocks_witness:
  "\<exists>m m'. reachable demo_dispatcher 2 m \<and> Enqueue_send 0 m = Some m' \<and> lock m' = None"
proof -
  obtain m where m: "reachable demo_dispatcher 2 m" "map at_send (producers m) = [True]"
    using demo_reachable[OF run_sending] by auto
  then obtain p where p: "producers m = [p]" "at_send p" by (auto simp: map_eq_Cons_conv)
  then obtain c q n where "producers m ! 0 = PSend c q n" by (cases p) auto
  then show ?thesis
    using admission_send_never_blocks[OF m(1) demo_valid, of 0] p(1) m(1) by fastforce
qed

text \<open>
  A worker always finds the notification of the ID it took off the mailbox, and it is the
  one that was admitted: the branch of \<open>dispatch\<close> that logs \<open>notification not found\<close>, and
  would keep the slot, is never taken.
\<close>

lemma worker_finds_notification:
  assumes "reachable d cap m" and "valid_dispatcher d" and "i < length (workers m)" and "workers m ! i = WGot q"
  shows "\<exists>n. (q, n) \<in> set (admitted m) \<and> worker_step d ctx w i m = Some (set_worker i (WFound q n) m)"
proof -
  have inv: "minv d cap m" using reachable_minv[OF assms(1,2)] .
  have mem: "WGot q \<in> set (workers m)" using assms(3,4) by (metis nth_mem)
  obtain n where n: "store_get (m_store m) q = Some n"
    using live_stored[OF minvD(5)[OF inv] got_live[OF mem]] by blast
  then have "(q, n) \<in> set (admitted m)"
    using stored_admitted[OF minvD(4,5)[OF inv] got_in_flight(1)[OF mem]] by blast
  then show ?thesis using n assms(3,4) by (auto simp: worker_step_def worker_at_def)
qed

lemma worker_finds_notification_witness:
  "\<exists>m q n. reachable demo_dispatcher 2 m \<and>
     worker_step demo_dispatcher Background demo_world 0 m = Some (set_worker 0 (WFound q n) m)"
proof -
  obtain m where m: "reachable demo_dispatcher 2 m" "map at_got (workers m) = [True, False]"
    using demo_reachable[OF run_accepted] by auto
  then obtain p p' where p: "workers m = [p, p']" "at_got p" by (auto simp: map_eq_Cons_conv)
  then obtain q where "workers m ! 0 = WGot q" by (cases p) auto
  then show ?thesis
    using worker_finds_notification[OF m(1) demo_valid, of 0] p(1) m(1) by fastforce
qed

text \<open>
  C11: stopping is final. After it no step admits anything more, and a call of \<open>Enqueue\<close> can
  only return an error: it leaves the \<open>select\<close> with \<open>ErrManagerStopped\<close>, and one that had
  already reserved a slot gives the slot back and returns \<open>ErrManagerStopped\<close>.
\<close>

theorem stopping_is_final:
  assumes "reachable d cap m" and "valid_dispatcher d" and "stopped m"
  shows "(\<forall>evs m'. mrun d evs m = Some m' \<longrightarrow> stopped m' \<and> admitted m' = admitted m) \<and>
    (\<forall>i c q n. producer_at m i = Some (PSelect c q n) \<longrightarrow>
       Enqueue_stopping i m = Some (set_producer i (PReturn 0 (Some ErrManagerStopped)) m)) \<and>
    (\<forall>i c q n. producer_at m i = Some (PCheck c q n) \<longrightarrow>
       (\<exists>s. slots m = s\<lparr>buffer := () # buffer s\<rparr> \<and>
         Enqueue_check i m = Some (set_producer i (PReturn 0 (Some ErrManagerStopped)) m\<lparr>slots := s, lock := None\<rparr>)))"
proof (intro conjI allI impI)
  have inv: "minv d cap m" using reachable_minv[OF assms(1,2)] .
  fix evs m' assume run: "mrun d evs m = Some m'"
  show "stopped m'" using mrun_stopped[OF run assms(3)] .
  show "admitted m' = admitted m" using mrun_admitted[OF run inv assms(2,3)] .
next
  fix i c q n assume p: "producer_at m i = Some (PSelect c q n)"
  have "chan_closed (stopping m)"
    using minvD(3)[OF reachable_minv[OF assms(1,2)]] assms(3) by (simp add: inv_flags_def queue_ok_def)
  then show "Enqueue_stopping i m = Some (set_producer i (PReturn 0 (Some ErrManagerStopped)) m)"
    using p by (simp add: Enqueue_stopping_def)
next
  fix i c q n assume p: "producer_at m i = Some (PCheck c q n)"
  then have "PCheck c q n \<in> set (producers m)" by (metis producer_at_Some nth_mem)
  then have "buffer (slots m) \<noteq> []"
    using slot_used(1)[OF minvD(1)[OF reachable_minv[OF assms(1,2)]]] by fastforce
  then obtain us where us: "buffer (slots m) = () # us" by (metis list.exhaust unit.exhaust)
  show "\<exists>s. slots m = s\<lparr>buffer := () # buffer s\<rparr> \<and>
      Enqueue_check i m = Some (set_producer i (PReturn 0 (Some ErrManagerStopped)) m\<lparr>slots := s, lock := None\<rparr>)"
    using p us assms(3)
    by (intro exI[of _ "slots m\<lparr>buffer := us\<rparr>"]) (simp add: Enqueue_check_def Enqueue_reject_def chan_recv_def)
qed

lemma stopping_is_final_witness:
  "\<exists>m. reachable demo_dispatcher 2 m \<and> stopped m \<and> \<not> chan_closed (m_done m) \<and>
     Enqueue_stopping 2 m = Some (set_producer 2 (PReturn 0 (Some ErrManagerStopped)) m)"
proof -
  obtain m where m: "reachable demo_dispatcher 2 m" "map at_select (producers m) = [False, False, True]" "stopped m"
      "\<not> chan_closed (m_done m)"
    using demo_reachable[OF run_stopped] by auto
  then obtain a b p where p: "producers m = [a, b, p]" "at_select p" by (auto simp: map_eq_Cons_conv)
  then obtain c q n where "producer_at m 2 = Some (PSelect c q n)" by (cases p) (auto simp: producer_at_def)
  then show ?thesis using stopping_is_final[OF m(1) demo_valid m(3)] m by blast
qed

text \<open>
  C12: \<open>NewManager\<close> succeeds exactly when the capacity and the worker count are positive and
  every receiver has targets and none of them is nil. The manager it returns starts empty, its
  dispatcher has exactly the receivers given, normalised and without the nil ones, the logger
  given or one that discards, and the configured workers and callback; it satisfies what the
  other properties assume of a dispatcher. Nothing is sent or logged.
\<close>

theorem NewManager_valid:
  assumes "map_ok receivers" and "cfg = apply_options opts \<lparr>cfg_workers = 1, cfg_capacity = 128, cfg_onComplete = False\<rparr>"
    and "NewManager receivers lg opts w = (made, w')"
  shows "world w' = world w \<and> logs w' = logs w \<and> now w' = now w \<and>
    (case made of
      Inr (d, m) \<Rightarrow> valid_dispatcher d \<and> m = new_manager (nat (cfg_capacity cfg)) \<and> 1 \<le> cfg_capacity cfg \<and> 1 \<le> cfg_workers cfg \<and>
        (\<forall>rid r. map_get receivers rid = Some (Some r) \<longrightarrow> valid_receiver r) \<and>
        (\<forall>rid. map_get (d_receivers d) rid = (case map_get receivers rid of
           Some (Some r) \<Rightarrow> Some (normalize_receiver rid r) | _ \<Rightarrow> None)) \<and>
        d_logger d = (case lg of None \<Rightarrow> Discard | Some l \<Rightarrow> l) \<and>
        d_workers d = nat (cfg_workers cfg) \<and> d_onComplete d = cfg_onComplete cfg
    | Inl e \<Rightarrow> cfg_capacity cfg < 1 \<or> cfg_workers cfg \<le> 0 \<or>
        (\<exists>rid r. map_get receivers rid = Some (Some r) \<and> \<not> valid_receiver r))"
proof -
  obtain verr w1 where v: "validateReceivers (normalizeReceivers receivers) w = (verr, w1)" by fastforce
  have w1: "world w1 = world w" "logs w1 = logs w" "now w1 = now w"
    using v by (auto simp: validateReceivers_def map_range_def)
  have all: "verr = None \<longleftrightarrow> (\<forall>rid r. map_get receivers rid = Some (Some r) \<longrightarrow> valid_receiver r)"
    using validateReceivers_None[of "normalizeReceivers receivers" w] all_valid_normalized[OF assms(1)] v by simp
  show ?thesis
  proof (cases "1 \<le> cfg_capacity cfg \<and> 1 \<le> cfg_workers cfg \<and> verr = None")
    case True
    then have "made = Inr (newDispatcher (normalizeReceivers receivers) (case lg of None \<Rightarrow> Discard | Some l \<Rightarrow> l)
        (nat (cfg_workers cfg)) (cfg_onComplete cfg), new_manager (nat (cfg_capacity cfg)))" and "w' = w1"
      using assms(3) v by (auto simp: NewManager_def assms(2)[symmetric] Let_def)
    moreover have "\<forall>(rid, r) \<in> set (normalizeReceivers receivers). valid_receiver r"
      using True v validateReceivers_None[of "normalizeReceivers receivers" w] by simp
    ultimately show ?thesis
      using True w1 all by (simp add: valid_dispatcher_def newDispatcher_def map_get_normalizeReceivers[OF assms(1)])
  next
    case False
    then have "(\<exists>e. made = Inl e) \<and> (w' = w \<or> w' = w1)"
      using assms(3) v by (auto simp: NewManager_def assms(2)[symmetric] Let_def split: option.splits if_splits)
    then show ?thesis using False w1 all by auto
  qed
qed

lemma NewManager_valid_witness:
  "\<exists>d w'. NewManager [(ReceiverID ''x'', None), (ReceiverID ''ops'', Some (NewReceiver (ReceiverID ''ops'') [Some accepting]))] None
       [None, Some (WithQueueCapacity 2), Some (WithWorkers (-3)), Some (WithWorkers 4)] demo_world = (Inr (d, new_manager 2), w')
     \<and> valid_dispatcher d \<and> d_workers d = 4 \<and> map_get (d_receivers d) (ReceiverID ''x'') = None \<and>
     map_get (d_receivers d) (ReceiverID ''ops'') = Some (NewReceiver (ReceiverID ''ops'') [Some accepting])"
proof -
  let ?r = "NewReceiver (ReceiverID ''ops'') [Some accepting]"
  let ?rs = "[(ReceiverID ''x'', None), (ReceiverID ''ops'', Some ?r)]"
  let ?opts = "[None, Some (WithQueueCapacity 2), Some (WithWorkers (-3)), Some (WithWorkers 4)]"
  have cfg: "\<lparr>cfg_workers = 4, cfg_capacity = 2, cfg_onComplete = False\<rparr> =
      apply_options ?opts \<lparr>cfg_workers = 1, cfg_capacity = 128, cfg_onComplete = False\<rparr>"
    by (simp add: apply_options_def WithQueueCapacity_def WithWorkers_def)
  have ok: "map_ok ?rs" by (simp add: map_ok_def)
  have valid: "\<not> (\<exists>rid r. map_get ?rs rid = Some (Some r) \<and> \<not> valid_receiver r)"
    by (auto simp: NewReceiver_def valid_receiver_def split: if_splits)
  have norm: "normalize_receiver (ReceiverID ''ops'') ?r = ?r"
    by (simp add: normalize_receiver_def NewReceiver_def cmp_Or_def)
  obtain made w' where run: "NewManager ?rs None ?opts demo_world = (made, w')" by fastforce
  note made = NewManager_valid[OF ok cfg run]
  show ?thesis
  proof (cases made)
    case (Inl e)
    then show ?thesis using made valid by simp
  next
    case (Inr dm)
    obtain d m where dm: "dm = (d, m)" by fastforce
    then have "m = new_manager 2" "valid_dispatcher d" "d_workers d = 4"
      and look: "\<forall>rid. map_get (d_receivers d) rid = (case map_get ?rs rid of
        Some (Some r) \<Rightarrow> Some (normalize_receiver rid r) | _ \<Rightarrow> None)"
      using made Inr by simp_all
    moreover have "map_get (d_receivers d) (ReceiverID ''x'') = None" "map_get (d_receivers d) (ReceiverID ''ops'') = Some ?r"
      using look[rule_format, of "ReceiverID ''x''"] look[rule_format, of "ReceiverID ''ops''"] norm by simp_all
    ultimately show ?thesis using run Inr dm by blast
  qed
qed

text \<open>
  At most one \<open>finish\<close> runs, exactly the configured number of workers exists once the
  manager is started, \<open>done\<close> is closed by the last step of \<open>finish\<close> only, and a second
  \<open>Start\<close> changes nothing and reports \<open>ErrManagerStarted\<close>.
\<close>

lemma one_start_one_finish:
  assumes "reachable d cap m" and "valid_dispatcher d"
  shows "length (finishers m) \<le> 1 \<and> length (workers m) = (if started m then d_workers d else 0) \<and>
    (chan_closed (m_done m) \<longleftrightarrow> finishers m = [FDone]) \<and>
    (started m \<longrightarrow> Start_error m = Some ErrManagerStarted \<and> (lock m = None \<longrightarrow> Start d (Some None) m = Some m))"
proof -
  have inv: "minv d cap m" using reachable_minv[OF assms] .
  have flags: "inv_flags d m" using inv by (rule minvD)
  have "chan_closed (m_done m)" if "finishers m = [FDone]"
    using flags that by (simp add: inv_flags_def)
  then have "chan_closed (m_done m) \<longleftrightarrow> finishers m = [FDone]" using done_state(2)[OF inv] by blast
  moreover have "length (finishers m) \<le> 1" using flags unfolding inv_flags_def by (metis le_refl zero_le_one)
  moreover have "length (workers m) = (if started m then d_workers d else 0)" using flags unfolding inv_flags_def by blast
  moreover have "started m \<longrightarrow> Start_error m = Some ErrManagerStarted \<and> (lock m = None \<longrightarrow> Start d (Some None) m = Some m)"
    by (simp add: Start_def Start_error_def Start_args_def)
  ultimately show ?thesis by blast
qed

lemma one_start_one_finish_witness:
  "\<exists>m. reachable demo_dispatcher 2 m \<and> length (workers m) = d_workers demo_dispatcher \<and>
     Start_error m = Some ErrManagerStarted"
proof -
  obtain m where m: "reachable demo_dispatcher 2 m" "started m" using demo_reachable[OF run_accepted] by auto
  then show ?thesis using one_start_one_finish[OF m(1) demo_valid] by (intro exI[of _ m]) simp
qed

section \<open>Progress, refinement, order\<close>

text \<open>
  C7: a started manager completes what it accepts, without being stopped. Its goroutines and
  the calls waiting on it take at most \<open>work m\<close> steps by themselves; while one is left, some
  goroutine can take it; when none is left every accepted notification has been completed,
  the store is empty and every call of \<open>Enqueue\<close> has returned; and every run can be
  continued to there.
\<close>

theorem running_manager_completes:
  assumes "reachable d cap m" and "valid_dispatcher d" and "started m" and "0 < cap" and "list_all internal evs"
    and "mrun d evs m = Some m'"
  shows "int (length evs) \<le> work m \<and>
    ((\<exists>ev m''. internal ev \<and> mstep d ev m' = Some m'') \<or> all_completed m') \<and>
    (\<exists>more m''. list_all internal more \<and> mrun d more m' = Some m'' \<and> all_completed m'')"
proof -
  have inv: "minv d cap m" using reachable_minv[OF assms(1,2)] .
  have after: "inv_after m" using reachable_inv_after[OF assms(1)] .
  have inv': "minv d cap m'" and after': "inv_after m'" and started': "started m'"
    using mrun_minv[OF assms(6) inv assms(2)] mrun_inv_after[OF assms(6) after] mrun_started[OF assms(6,3)] .
  have fin: "finishing m" "finishing m'"
    using minvD(3)[OF inv] minvD(3)[OF inv'] assms(3) started' by (simp_all add: inv_flags_def)
  obtain more m'' where more: "list_all internal more" "mrun d more m' = Some m''" "at_rest d m''"
    using comes_to_rest[OF inv' assms(2) fin(2)] by blast
  have "all_completed m''"
    using rest_completed[OF mrun_minv[OF more(2) inv' assms(2)] assms(2) mrun_inv_after[OF more(2) after'] more(3)
        mrun_started[OF more(2) started'] assms(4)] .
  moreover have "int (length evs) \<le> work m"
    using mrun_internal[OF assms(6,5) inv assms(2) fin(1)] work_nonneg[of m'] by simp
  moreover have "(\<exists>ev m''. internal ev \<and> mstep d ev m' = Some m'') \<or> all_completed m'"
    using rest_completed[OF inv' assms(2) after' _ started' assms(4)] unfolding at_rest_def by (metis option.exhaust)
  ultimately show ?thesis using more(1,2) by blast
qed

lemma running_manager_completes_witness:
  "\<exists>m evs m'. reachable demo_dispatcher 2 m \<and> \<not> stopped m \<and> map at_got (workers m) = [True, False] \<and>
     mrun demo_dispatcher evs m = Some m' \<and> all_completed m'"
proof -
  obtain m where m: "reachable demo_dispatcher 2 m"
      "(map at_got (workers m), started m, stopped m) = ([True, False], True, False)"
    using demo_reachable[OF run_accepted] by (elim exE conjE)
  then have s: "map at_got (workers m) = [True, False]" "started m" "stopped m = False" by (simp_all only: prod.inject)
  obtain evs m' where "mrun demo_dispatcher evs m = Some m'" "all_completed m'"
    using running_manager_completes[OF m(1) demo_valid s(2), of "[]" m] by auto
  then show ?thesis using m(1) s by (intro exI[of _ m] exI[of _ evs] exI[of _ m'] conjI) simp_all
qed

text \<open>
  C3: the manager refines a first-in first-out queue. The queue read off a reachable state is
  one the specification reaches; every step of a goroutine, a call or the environment is a
  step of the specification or invisible to it; at every moment an accepted ID is waiting,
  handed out or reported, exactly once; the callbacks are the reports; the IDs
  calls of \<open>Enqueue\<close> have returned without an error are exactly the accepted ones, so that one
  that returned an error has queued nothing; and the queue has ended when \<open>Shutdown\<close> or \<open>Wait\<close> returns nil.
\<close>

theorem manager_refines_queue:
  assumes "reachable d cap m" and "valid_dispatcher d"
  shows "queue_reachable d cap (queue_of m) \<and> queue_conserves cap (queue_of m) \<and>
    (\<forall>ev m'. mstep d ev m = Some m' \<longrightarrow> queue_of m' = queue_of m \<or> queue_step d cap (queue_of m) (queue_of m')) \<and>
    callbacks m = (if d_onComplete d then map fst (q_reports (queue_of m)) else []) \<and>
    mset (concat (map returned_ids (producers m))) = mset (map fst (q_accepted (queue_of m))) \<and>
    (CReturn None \<in> set (callers m) \<longrightarrow> q_ended (queue_of m))"
proof -
  have inv: "minv d cap m" using reachable_minv[OF assms] .
  have "queue_of m' = queue_of m \<or> queue_step d cap (queue_of m) (queue_of m')" if "mstep d ev m = Some m'" for ev m'
    using mtrans_queue_move[OF mstep_mtrans[OF that] inv] by (simp add: queue_move_def)
  then show ?thesis
    using reachable_queue[OF assms] minvD(6)[OF inv] reachable_returns[OF assms(1)] reachable_returned[OF assms]
    by (simp add: queue_of_def inv_data_def inv_returns_def inv_returned_def)
qed

lemma manager_refines_queue_witness:
  "\<exists>m. reachable demo_dispatcher 2 m \<and> queue_reachable demo_dispatcher 2 (queue_of m) \<and> q_ended (queue_of m) \<and>
     map fst (q_accepted (queue_of m)) = [1, 2]"
proof -
  obtain m where m: "reachable demo_dispatcher 2 m" "callers m = [CReturn None]" "map fst (admitted m) = [1, 2]"
    using demo_reachable[OF run_end] by auto
  have "map fst (q_accepted (queue_of m)) = [1, 2]" using m(3) by (simp add: queue_of_def)
  then show ?thesis using manager_refines_queue[OF m(1) demo_valid] m(1,2) by auto
qed

text \<open>
  C8: with one worker notifications complete in the order in which they were accepted,
  whether they are delivered or discarded: the callbacks made so far are for the first IDs
  accepted, in that order.
\<close>

theorem single_worker_in_order:
  assumes "reachable d cap m" and "valid_dispatcher d" and "d_workers d = 1" and "d_onComplete d"
  shows "\<exists>rest. map fst (admitted m) = map QueueID (callbacks m) @ rest"
  using reachable_in_order[OF assms(1-3)] callback_ids[OF minvD(6)[OF reachable_minv[OF assms(1,2)]] assms(4)]
  unfolding in_order_def by metis

lemma single_worker_in_order_witness:
  "\<exists>m rest. reachable (demo_dispatcher\<lparr>d_workers := 1\<rparr>) 2 m \<and> map QueueID (callbacks m) = [1] \<and>
     map fst (admitted m) = [1] @ rest \<and> rest \<noteq> []"
proof -
  let ?d = "demo_dispatcher\<lparr>d_workers := 1\<rparr>"
  obtain m where m: "mrun ?d (demo_accept @ demo_deliver) (new_manager 2) = Some m"
      "map QueueID (callbacks m) = [1]" "map fst (admitted m) = [1, 2]"
    using run_single by (auto simp: map_option_case split: option.splits)
  have r: "reachable ?d 2 m"
    using reachable_by_run[OF reachable_by.init _ m(1)] by (simp add: list_all_iff)
  have "valid_dispatcher ?d" using demo_valid by (simp add: valid_dispatcher_def)
  then obtain rest where "map fst (admitted m) = map QueueID (callbacks m) @ rest"
    using single_worker_in_order[OF r] demo_callback by auto
  then show ?thesis using r m(2,3) by auto
qed

end
