(* ===== verification/Notebook.thy ===== *)
theory Notebook
  imports Go_Runtime
begin

text \<open>
  A notebook beside the world: a runtime state in which what a parameter of the model is asked,
  or answers, can be written down. The code sees the world only through its parameters, so it
  does with a notebook what it does without; statements about the calls it makes are made
  over the notebook.
\<close>

definition beside :: "'n \<Rightarrow> 'x runtime \<Rightarrow> ('x \<times> 'n) runtime" where
  "beside as w = \<lparr>now = now w, entropy = entropy w, logs = logs w, world = (world w, as)\<rparr>"

definition without :: "('x \<times> 'n) runtime \<Rightarrow> 'x runtime" where
  "without w = \<lparr>now = now w, entropy = entropy w, logs = logs w, world = fst (world w)\<rparr>"

lemma beside_sel [simp]:
  "now (beside as w) = now w" "entropy (beside as w) = entropy w" "logs (beside as w) = logs w"
  "world (beside as w) = (world w, as)"
  by (simp_all add: beside_def)

lemma without_beside [simp]: "without (beside as w) = w"
  by (simp add: without_def)

lemma log_beside [simp]: "log_to lg lv m ps (beside as w) = beside as (log_to lg lv m ps w)"
  by (cases lg) (simp_all add: beside_def)

lemma ctx_Err_beside [simp]: "ctx_Err ctx (beside as w) = ctx_Err ctx w"
  by (simp add: ctx_Err_def split: option.split)

lemma beside_now [simp]: "(beside as w)\<lparr>now := t\<rparr> = beside as (w\<lparr>now := t\<rparr>)"
  by (simp add: beside_def)

lemma draw_beside: "draw (beside as w) = map_prod id (beside as) (draw w)"
  by (simp add: draw_def beside_def split: list.split)

lemma beside_entropy [simp]: "(beside as w)\<lparr>entropy := rs\<rparr> = beside as (w\<lparr>entropy := rs\<rparr>)"
  by (simp add: beside_def)

lemma map_range_beside: "map_range m (beside as w) = map_prod id (beside as) (map_range m w)"
  by (simp add: map_range_def)

end
