(* ===== verification/Retry_Record.thy ===== *)
theory Retry_Record
  imports Retry Notebook
begin

text \<open>
  The attempts of a run of the retry loop, one by one: the answer of every call of the target is
  written into a notebook. The loop returns what it returns without.
\<close>

section \<open>A target that keeps its answers\<close>

type_synonym answers = "(delivery_result \<times> go_error option) list"

definition recorded :: "'x send_call \<Rightarrow> ('x \<times> answers) send_call" where
  "recorded fn w = (let (answer, w1) = fn (without w) in (answer, beside (snd (world w) @ [answer]) w1))"

text \<open>The answers of the calls a run makes, in order.\<close>

definition attempts :: "go_context \<Rightarrow> logger \<Rightarrow> retry_config \<Rightarrow> 'x send_call \<Rightarrow> 'x runtime \<Rightarrow> answers" where
  "attempts ctx lg cfg fn w = snd (world (snd (withRetry ctx lg cfg (recorded fn) (beside [] w))))"

lemma recorded_beside [simp]:
  "recorded fn (beside as w) = (let (answer, w1) = fn w in (answer, beside (as @ [answer]) w1))"
  by (simp add: recorded_def)

lemma retryDelay_beside: "retryDelay cfg a r (beside as w) = map_prod id (beside as) (retryDelay cfg a r w)"
  by (simp add: retryDelay_def retryBackoff_def jitterBackoff_def rand_Int64N_def draw_beside split_beta)

lemma waitForRetry_beside: "waitForRetry ctx d (beside as w) = map_prod id (beside as) (waitForRetry ctx d w)"
  by (simp add: waitForRetry_def Let_def draw_beside split_beta split: option.split)

lemma before_attempt_beside:
  "before_attempt ctx lg cfg a r (beside as w) = map_prod id (beside as) (before_attempt ctx lg cfg a r w)"
  by (simp add: before_attempt_def retryDelay_beside waitForRetry_beside Let_def split_beta)

section \<open>The loop and its attempts\<close>

text \<open>An answer after which the loop goes on: a failure the policy wants tried again.\<close>

definition tried_again :: "retry_config \<Rightarrow> delivery_result \<times> go_error option \<Rightarrow> bool" where
  "tried_again cfg = (\<lambda>(r, e). e \<noteq> None \<and> \<not> gives_up cfg r e)"

text \<open>
  What a run that has been left with result \<open>r\<close> and error \<open>e\<close> made of its calls \<open>new\<close>.
\<close>

definition ended_by :: "go_context \<Rightarrow> retry_config \<Rightarrow> answers \<Rightarrow> delivery_result \<Rightarrow> bool \<Rightarrow> go_error option \<Rightarrow> 'x runtime \<Rightarrow> bool" where
  "ended_by ctx cfg new r used_up e w \<longleftrightarrow> (case e of
       None \<Rightarrow> new \<noteq> [] \<and> last new = (r, None)
     | Some err \<Rightarrow> ctx_Err ctx w = Some err \<or>
         new \<noteq> [] \<and> last new = (r, Some err) \<and> (used_up \<or> gives_up cfg r (Some err)))"

lemma before_attempt_ended: "before_attempt ctx lg cfg a r w = (Some e, w1) \<Longrightarrow> ctx_Err ctx w1 = Some e"
  using waitForRetry_Some by (fastforce simp: before_attempt_def Let_def split: if_splits prod.splits)

lemma retry_loop_recorded:
  assumes "retry_loop ctx lg cfg fn m n a r e x w = ((r', x', e'), w')" and "0 < n" and "x + int n = m"
  shows "\<exists>new. retry_loop ctx lg cfg (recorded fn) m n a r e x (beside as w) = ((r', x', e'), beside (as @ new) w') \<and>
    x' = x + int (length new) \<and> list_all (tried_again cfg) (butlast new) \<and>
    r' = (if new = [] then r else fst (last new)) \<and> ended_by ctx cfg new r' (x' = m) e' w'"
  using assms
proof (induction n arbitrary: a r e x w as)
  case 0
  then show ?case by simp
next
  case (Suc n)
  obtain b w1 where b: "before_attempt ctx lg cfg a r w = (b, w1)" by force
  show ?case
  proof (cases "b \<noteq> None \<or> ctx_Err ctx w1 \<noteq> None")
    case True
    then obtain err where err: "b = Some err \<or> b = None \<and> ctx_Err ctx w1 = Some err" "ctx_Err ctx w1 = Some err"
      using before_attempt_ended[of ctx lg cfg a r w _ w1] b by (cases b) auto
    then have "r' = r" "x' = x" "e' = Some err" "w' = w1" using Suc.prems(1) b by auto
    then show ?thesis
      using err b by (intro exI[of _ "[]"]) (auto simp: before_attempt_beside ended_by_def)
  next
    case False
    then have act: "b = None" "ctx_Err ctx w1 = None" by simp_all
    let ?v = "log_to lg LevelDebug ''notification target attempt''
                [(''attempt'', AInt (a + 1)), (''maxAttempts'', AInt m)] w1"
    obtain res err w3 where f: "fn ?v = ((res, err), w3)" by (metis prod.collapse)
    show ?thesis
    proof (cases "err = None \<or> ctx_Err ctx w3 \<noteq> None \<or> m \<le> x + 1 \<or> gives_up cfg res err")
      case True
      then show ?thesis
        using Suc.prems b act f
        by (intro exI[of _ "[(res, err)]"]; cases "ctx_Err ctx w3")
          (auto simp: before_attempt_beside Let_def gives_up_def ended_by_def split: option.splits if_splits)
    next
      case go_on: False
      then have again: "tried_again cfg (res, err)" and n: "0 < n" using Suc.prems(3) by (auto simp: tried_again_def)
      have "retry_loop ctx lg cfg fn m n (a + 1) res err (x + 1) w3 = ((r', x', e'), w')"
        using Suc.prems(1) b act f go_on by (auto simp: Let_def gives_up_def)
      from Suc.IH[OF this n, of "as @ [(res, err)]"] Suc.prems(3) obtain new where
        run: "retry_loop ctx lg cfg (recorded fn) m n (a + 1) res err (x + 1) (beside (as @ [(res, err)]) w3)
          = ((r', x', e'), beside (as @ (res, err) # new) w')"
        and new: "x' = x + 1 + int (length new)" "list_all (tried_again cfg) (butlast new)"
          "r' = (if new = [] then res else fst (last new))" "ended_by ctx cfg new r' (x' = m) e' w'"
        by auto
      have "retry_loop ctx lg cfg (recorded fn) m (Suc n) a r e x (beside as w)
          = ((r', x', e'), beside (as @ (res, err) # new) w')"
        using run b act f go_on by (auto simp: before_attempt_beside Let_def gives_up_def)
      moreover have "ended_by ctx cfg ((res, err) # new) r' (x' = m) e' w'"
        using new(4) by (auto simp: ended_by_def split: option.splits)
      ultimately show ?thesis using new again by (intro exI[of _ "(res, err) # new"]) simp
    qed
  qed
qed

lemma withRetry_attempts:
  assumes "withRetry ctx lg cfg fn w = ((r, x, e), w')" and "as = attempts ctx lg cfg fn w"
  shows "withRetry ctx lg cfg (recorded fn) (beside [] w) = ((r, x, e), beside as w')"
    and "x = int (length as)" and "list_all (tried_again cfg) (butlast as)"
    and "r = (if as = [] then zero_result else fst (last as))"
    and "ended_by ctx cfg as r (x = max_attempts cfg) e w'"
proof -
  obtain new where new: "withRetry ctx lg cfg (recorded fn) (beside [] w) = ((r, x, e), beside new w')"
      "x = int (length new)" "list_all (tried_again cfg) (butlast new)"
      "r = (if new = [] then zero_result else fst (last new))"
      "ended_by ctx cfg new r (x = max_attempts cfg) e w'"
    using retry_loop_recorded[OF assms(1)[unfolded withRetry_def], of "[]"] by (auto simp: withRetry_def simp del: int_nat_eq)
  moreover have "as = new" by (simp add: assms(2) attempts_def new(1))
  ultimately show "withRetry ctx lg cfg (recorded fn) (beside [] w) = ((r, x, e), beside as w')"
    and "x = int (length as)" and "list_all (tried_again cfg) (butlast as)"
    and "r = (if as = [] then zero_result else fst (last as))"
    and "ended_by ctx cfg as r (x = max_attempts cfg) e w'" by blast+
qed

lemma tried_again_before: "list_all (tried_again cfg) (butlast as) \<Longrightarrow> Suc i < length as \<Longrightarrow> tried_again cfg (as ! i)"
  by (auto simp: list_all_length nth_butlast)

text \<open>A policy that keeps its contract never goes on after a permanent error.\<close>

context safe_policy
begin

lemma permanent_is_last:
  assumes "withRetry ctx lg cfg fn w = ((r, x, e), w')" and "Policy cfg = Some policy"
    and "i < length (attempts ctx lg cfg fn w)" and "IsPermanent (snd (attempts ctx lg cfg fn w ! i))"
  shows "length (attempts ctx lg cfg fn w) = Suc i"
proof (rule ccontr)
  assume "length (attempts ctx lg cfg fn w) \<noteq> Suc i"
  then have "tried_again cfg (attempts ctx lg cfg fn w ! i)"
    using tried_again_before[OF withRetry_attempts(3)[OF assms(1) refl]] assms(3) by simp
  then show False
    using assms(2,4) permanent by (auto simp: tried_again_def gives_up_def split: prod.splits)
qed

end

end
