(* ===== verification/Notify_Properties.thy ===== *)
theory Notify_Properties
  imports Receivers Retry_Record
begin

text \<open>
  The properties of the delivery core: error classification, retry policies, backoff, the
  retry loop, the delivery engine, routing and the synchronous \<open>Send\<close>.
\<close>

section \<open>The retry loop\<close>

text \<open>
  C13: against a scripted target and a context that never ends, the retry loop consumes the
  answers up to the first one that is a success or that the policy refuses to retry, but at
  most \<open>Count + 1\<close> of them; it returns that answer and the number of answers consumed, and
  without jitter it takes exactly the time of the calls and of the waits between them.
\<close>

theorem withRetry_reference:
  assumes "int64 (Count cfg)" and "0 \<le> Count cfg" and "Count cfg < int64_max"
    and "Count cfg < int (length (world w))"
    and "k = last_index cfg (Suc (nat (Count cfg))) (world w)"
    and "withRetry Background lg cfg scripted w = ((r, x, e), w')"
  shows "(r, e) = (fst (world w ! k), fst (snd (world w ! k))) \<and> x = int k + 1 \<and> int k \<le> Count cfg \<and>
    world w' = drop (Suc k) (world w) \<and>
    (\<not> Jitter cfg \<longrightarrow> now w' = now w + script_time cfg 0 (world w) k)"
proof -
  have m: "nat (max_attempts cfg) = Suc (nat (Count cfg))"
    using max_attempts_eq[OF assms(1,3)] assms(2) by (simp add: nat_add_distrib)
  have len: "nat (max_attempts cfg) \<le> length (world w)" using m assms(2,4) by linarith
  have "k < Suc (nat (Count cfg))" using last_index_less[of "Suc (nat (Count cfg))" cfg "world w"] assms(5) by simp
  then show ?thesis
    using withRetry_scripted[of cfg w lg, OF len] assms(2,6) unfolding m assms(5)[symmetric]
    by (auto simp: Let_def)
qed

definition retry_demo :: retry_config where
  "retry_demo = \<lparr>Count = 3, Backoff = 100, MaxBackoff = 150, Jitter = False, Policy = Some DefaultRetryPolicy\<rparr>"

lemma retry_demo_sel [simp]:
  "Count retry_demo = 3" "Backoff retry_demo = 100" "MaxBackoff retry_demo = 150" "\<not> Jitter retry_demo"
  "Policy retry_demo = Some DefaultRetryPolicy"
  by (simp_all add: retry_demo_def)

definition script_demo :: "script runtime" where
  "script_demo = \<lparr>now = 0, entropy = [], logs = [],
     world = [(zero_result\<lparr>StatusCode := 503\<rparr>, Some (ErrorString ''busy''), 7),
              (zero_result\<lparr>StatusCode := 429, RetryAfter := 1000\<rparr>, Some (ErrorString ''slow''), 7),
              (zero_result\<lparr>StatusCode := 200\<rparr>, None, 7), (zero_result, None, 7)]\<rparr>"

lemma demo_retries:
  "last_index retry_demo (Suc (nat (Count retry_demo))) (world script_demo) = 2"
  "script_time retry_demo 0 (world script_demo) 2 = 1121"
proof -
  have "retryable retry_demo (zero_result\<lparr>StatusCode := 503\<rparr>, Some (ErrorString ''busy''), 7)"
    "retryable retry_demo (zero_result\<lparr>StatusCode := 429, RetryAfter := 1000\<rparr>, Some (ErrorString ''slow''), 7)"
    "\<not> retryable retry_demo (zero_result\<lparr>StatusCode := 200\<rparr>, None, 7)"
    by (simp_all add: retryable_def gives_up_def retry_demo_def DefaultRetryPolicy_iff classification)
  then show "last_index retry_demo (Suc (nat (Count retry_demo))) (world script_demo) = 2"
    by (simp add: last_index_def script_demo_def)
  show "script_time retry_demo 0 (world script_demo) 2 = 1121"
    by (simp add: script_time_def retry_wait_def script_demo_def retry_demo_def local_backoff_def
        zero_result_def eval_nat_numeral lessThan_Suc atMost_Suc)
qed

lemma withRetry_reference_witness:
  "\<exists>r w'. withRetry Background Discard retry_demo scripted script_demo = ((r, 3, None), w') \<and> now w' = 1121"
proof -
  obtain r x e w' where out: "withRetry Background Discard retry_demo scripted script_demo = ((r, x, e), w')"
    by (metis prod.collapse)
  have "(r, e) = (fst (world script_demo ! 2), fst (snd (world script_demo ! 2))) \<and> x = int 2 + 1 \<and>
      int 2 \<le> Count retry_demo \<and> world w' = drop (Suc 2) (world script_demo) \<and>
      (\<not> Jitter retry_demo \<longrightarrow> now w' = now script_demo + script_time retry_demo 0 (world script_demo) 2)"
    by (rule withRetry_reference[OF _ _ _ _ demo_retries(1)[symmetric] out])
      (simp_all add: int64_def script_demo_def)
  then show ?thesis using out demo_retries(2) by (auto simp: script_demo_def)
qed

text \<open>
  C14: the loop calls its target once per counted attempt, at most \<open>Count + 1\<close> times, and at
  least one try is allowed. It goes on only after a failure that the policy wants tried again
  (a nil policy wants none), and returns the result of the last attempt for one of three
  reasons: that attempt succeeded; the context is done and its error is what is returned; or
  that attempt failed with the error returned, and the attempts are used up or the policy
  refused. \<open>attempts\<close> are the answers of the calls: the run on a target that keeps them beside
  its world returns the same.
\<close>

theorem withRetry_outcome:
  assumes "int64 (Count cfg)" and "Count cfg < int64_max"
    and "withRetry ctx lg cfg fn w = ((r, x, e), w')" and "as = attempts ctx lg cfg fn w"
  shows "withRetry ctx lg cfg (recorded fn) (beside [] w) = ((r, x, e), beside as w') \<and>
    x = int (length as) \<and> x \<le> max (Count cfg + 1) 1 \<and>
    (\<forall>i. Suc i < length as \<longrightarrow> snd (as ! i) \<noteq> None \<and>
       (\<exists>p. Policy cfg = Some p \<and> p (fst (as ! i)) (snd (as ! i)))) \<and>
    r = (if as = [] then zero_result else fst (last as)) \<and>
    (case e of
       None \<Rightarrow> as \<noteq> [] \<and> snd (last as) = None
     | Some err \<Rightarrow> ctx_Err ctx w' = Some err \<or>
         as \<noteq> [] \<and> snd (last as) = Some err \<and>
           (x = max (Count cfg + 1) 1 \<or> (case Policy cfg of None \<Rightarrow> True | Some p \<Rightarrow> \<not> p r (Some err))))"
proof -
  note run = withRetry_attempts[OF assms(3,4)]
  have "snd (as ! i) \<noteq> None \<and> (\<exists>p. Policy cfg = Some p \<and> p (fst (as ! i)) (snd (as ! i)))" if "Suc i < length as" for i
    using tried_again_before[OF run(3) that]
    by (auto simp: tried_again_def gives_up_def split: prod.splits option.splits)
  moreover have "x \<le> max (Count cfg + 1) 1"
    using withRetry_executed[OF assms(3)] max_attempts_eq[OF assms(1,2)] by simp
  moreover have "case e of
       None \<Rightarrow> as \<noteq> [] \<and> snd (last as) = None
     | Some err \<Rightarrow> ctx_Err ctx w' = Some err \<or>
         as \<noteq> [] \<and> snd (last as) = Some err \<and>
           (x = max (Count cfg + 1) 1 \<or> (case Policy cfg of None \<Rightarrow> True | Some p \<Rightarrow> \<not> p r (Some err)))"
    using run(5) max_attempts_eq[OF assms(1,2)] by (cases e) (auto simp: ended_by_def gives_up_def)
  ultimately show ?thesis using run(1,2,4) by blast
qed

lemma demo_out:
  "\<exists>w'. withRetry Background Discard retry_demo scripted script_demo =
     ((fst (world script_demo ! 2), 3, fst (snd (world script_demo ! 2))), w')"
proof -
  have "nat (max_attempts retry_demo) = Suc (nat (Count retry_demo))"
    by (simp add: max_attempts_def wrap64_def)
  then show ?thesis
    using withRetry_scripted[of retry_demo script_demo Discard] demo_retries(1)
    by (auto simp: Let_def script_demo_def)
qed

lemma withRetry_outcome_witness:
  "\<exists>as. as = attempts Background Discard retry_demo scripted script_demo \<and> length as = 3 \<and>
     snd (as ! 0) \<noteq> None \<and> snd (as ! 1) \<noteq> None \<and> snd (last as) = None"
proof -
  let ?as = "attempts Background Discard retry_demo scripted script_demo"
  obtain r w' where out: "withRetry Background Discard retry_demo scripted script_demo = ((r, 3, None), w')"
    using demo_out by (auto simp: script_demo_def)
  have "int64 (Count retry_demo)" and "Count retry_demo < int64_max"
    by (simp_all add: int64_def)
  note all = withRetry_outcome[OF this out refl]
  then have len: "length ?as = 3" by linarith
  have "snd (?as ! i) \<noteq> None" if "Suc i < 3" for i
    using all that len by metis
  from this[of 0] this[of 1] show ?thesis using all len by simp
qed

text \<open>
  The policies of the library: the five built in, \<open>RetryOnStatusCode\<close> for any codes, and
  \<open>AnyRetryPolicy\<close> of policies of the library, nil ones among them or not.
\<close>

inductive builtin_policy :: "retry_policy \<Rightarrow> bool" where
  "builtin_policy DefaultRetryPolicy"
| "builtin_policy RetryOnError"
| "builtin_policy RetryOnServerError"
| "builtin_policy RetryOnTimeout"
| "builtin_policy RetryOnNetworkError"
| "builtin_policy (RetryOnStatusCode codes)"
| "(\<And>p. Some p \<in> set ps \<Longrightarrow> builtin_policy p) \<Longrightarrow> builtin_policy (AnyRetryPolicy ps)"

lemma builtin_safe: "builtin_policy p \<Longrightarrow> safe_policy p"
proof (induction rule: builtin_policy.induct)
  case (7 ps)
  show ?case by (rule safe_AnyRetryPolicy) (rule 7(2))
qed (rule default_policy.safe_policy_axioms on_error.safe_policy_axioms on_server_error.safe_policy_axioms
    on_timeout.safe_policy_axioms on_network_error.safe_policy_axioms on_status.safe_policy_axioms)+

text \<open>
  C15: with a policy of the library a permanent error ends the loop after the attempt that
  produced it, whichever attempt that was and whatever \<open>Count\<close> is: no call follows, the result
  is that of the attempt, and the error is the permanent one, or that of the context if the
  attempt left it done.
\<close>

theorem permanent_error_not_retried:
  assumes "Policy cfg = Some p" and "builtin_policy p"
    and "withRetry ctx lg cfg fn w = ((r, x, e), w')" and "as = attempts ctx lg cfg fn w"
    and "i < length as" and "IsPermanent (snd (as ! i))"
  shows "length as = Suc i \<and> x = int (Suc i) \<and> r = fst (as ! i) \<and>
    (e = snd (as ! i) \<or> e \<noteq> None \<and> e = ctx_Err ctx w')"
proof -
  have len: "length as = Suc i"
    using safe_policy.permanent_is_last[OF builtin_safe[OF assms(2)] assms(3,1), of i] assms(4-6) by simp
  have as: "as \<noteq> []" using len by auto
  then have last: "last as = as ! i" using len by (simp add: last_conv_nth)
  note run = withRetry_attempts[OF assms(3,4)]
  obtain res err where answer: "as ! i = (res, err)" by fastforce
  then have "err \<noteq> None" using assms(6) by (cases err) auto
  then show ?thesis
    using run(2,4,5) len as last answer by (cases e) (auto simp: ended_by_def)
qed

text \<open>A server that is busy once and then refuses for good.\<close>

definition refusing :: script where
  "refusing = [(zero_result\<lparr>StatusCode := 503\<rparr>, Some (ErrorString ''busy''), 7),
     (zero_result\<lparr>StatusCode := 503\<rparr>, Permanent (Some EOF), 7), (zero_result, None, 7), (zero_result, None, 7)]"

definition patient :: retry_config where
  "patient = retry_demo\<lparr>Policy := Some (AnyRetryPolicy [None, Some RetryOnServerError, Some RetryOnError])\<rparr>"

lemma refusing_attempts:
  "attempts Background Discard patient scripted (script_demo\<lparr>world := refusing\<rparr>) =
     [(zero_result\<lparr>StatusCode := 503\<rparr>, Some (ErrorString ''busy'')), (zero_result\<lparr>StatusCode := 503\<rparr>, Permanent (Some EOF))]"
  by code_simp

lemma permanent_error_not_retried_witness:
  "\<exists>w'. withRetry Background Discard patient scripted (script_demo\<lparr>world := refusing\<rparr>) =
     ((zero_result\<lparr>StatusCode := 503\<rparr>, 2, Some (PermanentError EOF)), w')"
proof -
  let ?w = "script_demo\<lparr>world := refusing\<rparr>"
  let ?as = "attempts Background Discard patient scripted ?w"
  obtain r x e w' where run: "withRetry Background Discard patient scripted ?w = ((r, x, e), w')" by (metis prod.collapse)
  have "Policy patient = Some (AnyRetryPolicy [None, Some RetryOnServerError, Some RetryOnError])"
    by (simp add: patient_def)
  moreover have "builtin_policy (AnyRetryPolicy [None, Some RetryOnServerError, Some RetryOnError])"
    by (rule builtin_policy.intros(7)) (auto intro: builtin_policy.intros)
  ultimately have "length ?as = Suc 1 \<and> x = int (Suc 1) \<and> r = fst (?as ! 1) \<and> (e = snd (?as ! 1) \<or> e \<noteq> None \<and> e = ctx_Err Background w')"
    by (rule permanent_error_not_retried[OF _ _ run refl]) (simp_all add: refusing_attempts)
  then show ?thesis using run
    by (auto simp: refusing_attempts Permanent_def IsPermanent_Some)
qed

text \<open>
  C16: the target is never called in a state in which the context is done: two targets that
  agree on the other states give the same result, and with a context that is done from the
  start the target is not called at all.
\<close>

theorem no_attempt_after_cancellation:
  assumes "\<And>v. ctx_Err ctx v = None \<Longrightarrow> fn v = fn' v"
  shows "withRetry ctx lg cfg fn w = withRetry ctx lg cfg fn' w \<and>
    (case ctx_Err ctx w of None \<Rightarrow> True | Some e \<Rightarrow> withRetry ctx lg cfg fn w = ((zero_result, 0, Some e), w))"
  using retry_loop_cong_fn[OF assms] withRetry_done[of ctx w _ lg cfg fn]
  by (auto simp: withRetry_def split: option.splits)

lemma no_attempt_after_cancellation_witness:
  "withRetry (Background\<lparr>cancel_at := Some (10, ContextCanceled)\<rparr>) Discard retry_demo
     (\<lambda>v. if now v < 10 then ((zero_result, Some EOF), v) else ((zero_result, None), v\<lparr>world := True\<rparr>))
     \<lparr>now = 3, entropy = [], logs = [], world = False\<rparr> =
   withRetry (Background\<lparr>cancel_at := Some (10, ContextCanceled)\<rparr>) Discard retry_demo
     (\<lambda>v. ((zero_result, Some EOF), v)) \<lparr>now = 3, entropy = [], logs = [], world = False\<rparr>"
  by (rule no_attempt_after_cancellation[THEN conjunct1]) (simp add: ctx_Err_def split: if_splits)

section \<open>Backoff\<close>

text \<open>
  C17: the wait before retry \<open>k\<close> doubles with every retry and saturates at \<open>MaxBackoff\<close>, or at
  the largest duration when there is no cap: it never overflows. Jitter only shortens it,
  and a target's \<open>RetryAfter\<close> is a minimum that no cap shortens.
\<close>

theorem retry_delay_bounds:
  assumes "config_ok cfg" and "0 < Backoff cfg"
  shows "local_backoff cfg k = min (Backoff cfg * 2 ^ nat (k - 1))
      (if 0 < MaxBackoff cfg then MaxBackoff cfg else int64_max) \<and>
    0 \<le> fst (retryBackoff cfg k w) \<and> fst (retryBackoff cfg k w) \<le> local_backoff cfg k \<and>
    (\<not> Jitter cfg \<and> 0 < k \<longrightarrow> fst (retryBackoff cfg k w) = local_backoff cfg k) \<and>
    fst (retryDelay cfg k result w) = max (fst (retryBackoff cfg k w)) (RetryAfter result)"
  using local_backoff_closed[OF assms, of k] local_backoff_pos[OF assms, of k] assms(2)
    jitterBackoff_bounds[of "local_backoff cfg k" w]
  by (auto simp: backoff_cap_def retryBackoff_def retryDelay_eq)

lemma retry_delay_bounds_witness:
  "local_backoff retry_demo 100 = 150 \<and> fst (retryBackoff (retry_demo\<lparr>MaxBackoff := 0\<rparr>) 100 script_demo) = int64_max"
proof -
  have ok: "config_ok retry_demo" "config_ok (retry_demo\<lparr>MaxBackoff := 0\<rparr>)"
    by (simp_all add: config_ok_def int64_def)
  show ?thesis
    using retry_delay_bounds[OF ok(1), where k = 100 and w = script_demo and result = zero_result]
      retry_delay_bounds[OF ok(2), where k = 100 and w = script_demo and result = zero_result]
    by simp
qed

text \<open>
  The number of attempts allowed is \<open>Count + 1\<close>, and 1 for a negative \<open>Count\<close>. For the
  largest \<open>int\<close> the addition wraps around, and a configuration that asks for the most
  retries gets none.
\<close>

lemma attempts_allowed:
  assumes "int64 (Count cfg)"
  shows "max_attempts cfg = (if Count cfg = int64_max \<or> Count cfg < 0 then 1 else Count cfg + 1)"
  using max_attempts_eq[OF assms] max_attempts_overflow[of cfg] assms by (auto simp: int64_def max_def)

lemma attempts_allowed_witness:
  "max_attempts (retry_demo\<lparr>Count := 9223372036854775807\<rparr>) = 1 \<and> max_attempts retry_demo = 4"
  using attempts_allowed[of retry_demo] attempts_allowed[of "retry_demo\<lparr>Count := 9223372036854775807\<rparr>"]
  by (simp add: retry_demo_def int64_def)

section \<open>Delivery\<close>

text \<open>
  C18: the delivery engine sends to every target of every receiver, in order, whatever the
  targets before it returned. The error it returns holds, per receiver and in target order,
  exactly the failed targets with their index, and is nil exactly when none failed.
\<close>

theorem dispatch_reaches_every_target:
  assumes "\<forall>r \<in> set rs. valid_receiver r" and "run_receivers ctx lg p rs w = (outs, w')"
  shows "dispatch ctx lg p rs w =
      Some (errors_Join (List.map_filter errors_Join (map2 receiver_failures rs outs)), w') \<and>
    length outs = length rs \<and>
    (\<forall>(r, os) \<in> set (zip rs outs). length os = length (Targets r) \<and>
       receiver_failures r os = concat (map (\<lambda>i. target_failure r (map the (Targets r) ! i) (int i) (os ! i))
         [0..<length (Targets r)]))"
proof (intro conjI ballI)
  show "dispatch ctx lg p rs w = Some (errors_Join (List.map_filter errors_Join (map2 receiver_failures rs outs)), w')"
    using dispatch_run[OF assms(1), of ctx lg p w] by (simp add: assms(2))
  show "length outs = length rs" using length_run_receivers[of ctx lg p rs w] by (simp add: assms(2))
  fix x assume "x \<in> set (zip rs outs)"
  then obtain r os where x: "x = (r, os)" "(r, os) \<in> set (zip rs outs)" by (metis surj_pair)
  then have len: "length os = length (Targets r)"
    using run_receivers_lengths[of r os rs ctx lg p w] by (simp add: assms(2))
  show "case x of (r, os) \<Rightarrow> length os = length (Targets r) \<and>
     receiver_failures r os = concat (map (\<lambda>i. target_failure r (map the (Targets r) ! i) (int i) (os ! i)) [0..<length (Targets r)])"
    using len failures_by_index[of os "map the (Targets r)" r 0] by (simp add: x(1) receiver_failures_def)
qed

text \<open>A target that fails for good and one that succeeds.\<close>

definition failing :: "(unit, nat) target" where
  "failing = \<lparr>Type = ''fail'', Send = (\<lambda>ctx p w. ((zero_result, Permanent (Some EOF)), w\<lparr>world := world w + 1\<rparr>))\<rparr>"

definition working :: "(unit, nat) target" where
  "working = \<lparr>Type = ''work'', Send = (\<lambda>ctx p w. ((zero_result, None), w\<lparr>world := world w + 10\<rparr>))\<rparr>"

definition two_targets :: "(unit, nat) receiver" where
  "two_targets = NewReceiver (ReceiverID ''ops'') [Some failing, Some working]"

definition quiet :: "nat runtime" where
  "quiet = \<lparr>now = 0, entropy = [], logs = [], world = 0\<rparr>"

definition note_demo :: "unit notification" where
  "note_demo = \<lparr>NotificationID = ''n1'', NotificationData = (\<lambda>_ _ _. ()), Router = None\<rparr>"

lemma two_targets_sel [simp]:
  "Targets two_targets = [Some failing, Some working]" "ID two_targets = ReceiverID ''ops''"
  "valid_receiver two_targets"
  by (simp_all add: two_targets_def NewReceiver_def valid_receiver_def)

lemma single_attempt:
  assumes "Send t Background (target_payload r p) w = ((res, e), w')" and "Retry r = zero_retry"
  shows "send_target Background Discard r p i t w = ((res, 1, e), w')"
proof -
  have "first_state Discard zero_retry w = w" by (simp add: first_state_def)
  then have "withRetry Background Discard zero_retry (Send t Background (target_payload r p)) w = ((res, 1, e), w')"
    using withRetry_stops_at_first[of Background w "Send t Background (target_payload r p)" Discard zero_retry res e w'] assms(1)
    by (simp add: gives_up_def zero_retry_def)
  then show ?thesis using assms(2) by (simp add: send_target_def target_logger_def split: option.splits)
qed

lemma two_targets_run:
  "run_receivers Background Discard p [two_targets] quiet =
     ([[(zero_result, 1, Permanent (Some EOF)), (zero_result, 1, None)]], quiet\<lparr>world := 11\<rparr>)"
proof -
  have r: "Retry two_targets = zero_retry" by (simp add: two_targets_def NewReceiver_def)
  have "send_target Background Discard two_targets p i failing w = ((zero_result, 1, Permanent (Some EOF)), w\<lparr>world := world w + 1\<rparr>)"
    "send_target Background Discard two_targets p i working w = ((zero_result, 1, None), w\<lparr>world := world w + 10\<rparr>)" for i w
    by (rule single_attempt[OF _ r], simp add: failing_def working_def)+
  then show ?thesis by (simp add: quiet_def)
qed

lemma dispatch_reaches_every_target_witness:
  "dispatch Background Discard \<lparr>Notification = Some note_demo, PayloadReceiver = [], PayloadCustomData = None\<rparr>
     [two_targets] quiet = Some (Some (JoinError [JoinError [DeliveryError (ReceiverID ''ops'') ''fail'' 0 1 zero_result (PermanentError EOF)]]),
           quiet\<lparr>world := 11\<rparr>)"
  using dispatch_reaches_every_target[OF _ two_targets_run]
  by (simp add: receiver_failures_def Permanent_def IsPermanent_Some failing_def map_filter_def)

section \<open>The synchronous Send\<close>

text \<open>An error, and nothing sent, logged or waited for.\<close>

definition rejected :: "go_error option \<Rightarrow> 'x runtime \<Rightarrow> 'x runtime \<Rightarrow> bool" where
  "rejected err w w' \<longleftrightarrow> err \<noteq> None \<and> world w' = world w \<and> logs w' = logs w \<and> now w' = now w"

text \<open>
  C19: \<open>Send\<close> never panics, whatever its arguments are, nil ones included; a nil logger discards.
  With a nil context, a nil notification, an empty ID or an invalid receiver it returns an error
  before anything is sent or logged. Otherwise it returns nil exactly when routing found at
  least one receiver and every target of every receiver it found was delivered.
\<close>

theorem Send_result:
  assumes "map_ok receivers"
  shows "\<exists>err w'. SendSync ctx n receivers lg w = Some (err, w') \<and>
    (case (ctx, n) of
       (Some c, Some n0) \<Rightarrow>
         if NotificationID n0 = [] \<or> (\<exists>rid r. map_get receivers rid = Some (Some r) \<and> \<not> valid_receiver r)
         then rejected err w w'
         else
           (let rs = normalizeReceivers receivers; l = (case lg of None \<Rightarrow> Discard | Some l \<Rightarrow> l);
                (resolved, w2) = resolveReceivers l rs (receiverIDs n0) (snd (validateReceivers rs w));
                p = \<lparr>Notification = Some n0, PayloadReceiver = [], PayloadCustomData = None\<rparr>;
                (outs, w3) = run_receivers c l p resolved w2
            in if resolved = [] then err = Some (ErrorString ''no receivers resolved'') \<and> w' = w2
               else w' = w3 \<and> (err = None \<longleftrightarrow> (\<forall>os \<in> set outs. \<forall>(result, attempts, e) \<in> set os. e = None)))
     | _ \<Rightarrow> rejected err w w')"
proof (cases "\<exists>c n0. ctx = Some c \<and> n = Some n0 \<and> NotificationID n0 \<noteq> []")
  case False
  then show ?thesis
    by (auto simp: SendSync_def validateNotificationID_def rejected_def split: option.split)
next
  case True
  then obtain c n0 where cn: "ctx = Some c" "n = Some n0" "NotificationID n0 \<noteq> []" by blast
  let ?l = "case lg of None \<Rightarrow> Discard | Some l \<Rightarrow> l" and ?rs = "normalizeReceivers receivers"
  let ?p = "\<lparr>Notification = Some n0, PayloadReceiver = [], PayloadCustomData = None\<rparr>"
  let ?bad = "\<exists>rid r. map_get receivers rid = Some (Some r) \<and> \<not> valid_receiver r"
  have v: "fst (validateReceivers ?rs w) = None \<longleftrightarrow> \<not> ?bad"
    using validateReceivers_None[of ?rs w] all_valid_normalized[OF assms] by simp
  obtain verr w1 where val: "validateReceivers ?rs w = (verr, w1)" by fastforce
  show ?thesis
  proof (cases verr)
    case (Some e)
    then have ?bad using v val by simp
    moreover have "world w1 = world w" "logs w1 = logs w" "now w1 = now w"
      using val by (auto simp: validateReceivers_def map_range_def)
    ultimately show ?thesis
      using cn val Some by (simp add: SendSync_def validateNotificationID_def rejected_def)
  next
    case None
    then have ok: "\<not> ?bad" using v val by simp
    obtain resolved w2 where res: "resolveReceivers ?l ?rs (receiverIDs n0) w1 = (resolved, w2)" by fastforce
    obtain outs w3 where outs: "run_receivers c ?l ?p resolved w2 = (outs, w3)" by fastforce
    have "\<forall>(rid, r) \<in> set ?rs. valid_receiver r" using None val validateReceivers_None[of ?rs w] by simp
    then have valid: "\<forall>r \<in> set resolved. valid_receiver r"
      using resolved_valid[of ?rs ?l "receiverIDs n0" w1] res by simp
    have send: "SendSync ctx n receivers lg w =
        (if resolved = [] then Some (Some (ErrorString ''no receivers resolved''), w2) else dispatch c ?l ?p resolved w2)"
      using cn val None res by (simp add: SendSync_def validateNotificationID_def Let_def)
    have d: "dispatch c ?l ?p resolved w2 =
        Some (errors_Join (List.map_filter errors_Join (map2 receiver_failures resolved outs)), w3)"
      using dispatch_run[OF valid, of c ?l ?p w2] outs by simp
    note nil = no_failures[OF outs[symmetric]]
    have "\<not> (NotificationID n0 = [] \<or> ?bad)" using cn(3) ok by blast
    then show ?thesis using send d nil cn(1,2) val res outs by (simp only: if_False prod.case option.case Let_def snd_conv) simp
  qed
qed

lemma Send_result_witness:
  "\<exists>e w'. SendSync (Some Background) (Some note_demo) [(ReceiverID ''ops'', Some two_targets)] None quiet
     = Some (Some e, w') \<and> world w' = 11"
proof -
  let ?rs = "[(ReceiverID ''ops'', Some two_targets)]"
  have norm: "normalizeReceivers ?rs = [(ReceiverID ''ops'', two_targets)]"
    by (simp add: normalizeReceivers_def normalize_receiver_def two_targets_def NewReceiver_def cmp_Or_def map_set_def)
  have range: "map_range [(ReceiverID ''ops'', two_targets)] quiet = ([(ReceiverID ''ops'', two_targets)], quiet)"
    by (simp add: map_range_def quiet_def)
  have val: "snd (validateReceivers (normalizeReceivers ?rs) quiet) = quiet"
    by (simp add: norm validateReceivers_def range)
  have res: "resolveReceivers Discard (normalizeReceivers ?rs) (receiverIDs note_demo) quiet = ([two_targets], quiet)"
    by (simp add: norm resolveReceivers_def range receiverIDs_def note_demo_def)
  have ok: "map_ok ?rs" by (simp add: map_ok_def)
  have "\<not> (NotificationID note_demo = [] \<or> (\<exists>rid r. map_get ?rs rid = Some (Some r) \<and> \<not> valid_receiver r))"
    by (auto simp: note_demo_def split: if_splits)
  then show ?thesis
    using Send_result[OF ok, of "Some Background" "Some note_demo" None quiet]
    by (simp only: prod.case option.case if_False Let_def val res two_targets_run) auto
qed

section \<open>Routing\<close>

text \<open>
  C20: a notification that names receivers goes to those, in the order of their first
  mention, once each; an ID that is unknown or maps to a nil receiver is skipped.
\<close>

theorem routing_by_id:
  assumes "map_ok receivers" and "ids \<noteq> []"
  shows "fst (resolveReceivers lg (normalizeReceivers receivers) ids w) =
    List.map_filter (\<lambda>rid. case map_get receivers rid of
        Some (Some r) \<Rightarrow> Some (normalize_receiver rid r)
      | _ \<Rightarrow> None) (first_occurrences ids)"
proof -
  have "map_get (normalizeReceivers receivers) = (\<lambda>rid. case map_get receivers rid of
      Some (Some r) \<Rightarrow> Some (normalize_receiver rid r) | _ \<Rightarrow> None)"
    by (intro ext) (rule map_get_normalizeReceivers[OF assms(1)])
  then show ?thesis using resolveReceivers_routed[OF assms(2), of lg "normalizeReceivers receivers" w] by simp
qed

lemma routing_by_id_witness:
  "fst (resolveReceivers Discard (normalizeReceivers [(ReceiverID ''ops'', Some two_targets), (ReceiverID ''x'', None)])
      [ReceiverID ''x'', ReceiverID ''ops'', ReceiverID ''y'', ReceiverID ''ops''] quiet) = [two_targets]"
proof -
  have "normalize_receiver (ReceiverID ''ops'') two_targets = two_targets"
    by (simp add: normalize_receiver_def two_targets_def NewReceiver_def cmp_Or_def)
  then show ?thesis
    using routing_by_id[of "[(ReceiverID ''ops'', Some two_targets), (ReceiverID ''x'', None)]"
        "[ReceiverID ''x'', ReceiverID ''ops'', ReceiverID ''y'', ReceiverID ''ops'']" Discard quiet]
    by (simp add: map_ok_def first_occurrences_def map_filter_def)
qed

text \<open>
  C21: a broadcast goes to every receiver exactly once, in the order of the receiver IDs. The
  order is the same whatever order the map is iterated in, provided the IDs are distinct.
\<close>

theorem broadcast_order:
  assumes "map_ok receivers" and "rs = normalizeReceivers receivers"
  shows "sorted (map ID (fst (resolveReceivers lg rs [] w))) \<and>
    mset (fst (resolveReceivers lg rs [] w)) = mset (map snd rs) \<and>
    (distinct (map (ID \<circ> snd) rs) \<longrightarrow>
       fst (resolveReceivers lg rs [] w) = fst (resolveReceivers lg' rs [] w'))"
  using resolveReceivers_all resolveReceivers_deterministic by blast

lemma broadcast_order_witness:
  "\<exists>rs. rs = normalizeReceivers [(ReceiverID ''b'', Some (NewReceiver (ReceiverID ''b'') [Some working])),
        (ReceiverID ''a'', Some (NewReceiver (ReceiverID ''a'') [Some working]))] \<and> distinct (map (ID \<circ> snd) rs) \<and>
     fst (resolveReceivers Discard rs [] quiet) = fst (resolveReceivers Discard rs [] (quiet\<lparr>entropy := [1]\<rparr>))"
proof -
  let ?R = "[(ReceiverID ''b'', Some (NewReceiver (ReceiverID ''b'') [Some working])),
        (ReceiverID ''a'', Some (NewReceiver (ReceiverID ''a'') [Some working]))]"
  have "map_ok ?R" by (simp add: map_ok_def)
  moreover have "distinct (map (ID \<circ> snd) (normalizeReceivers ?R))"
    by (simp add: normalizeReceivers_def normalize_receiver_def NewReceiver_def cmp_Or_def map_set_def)
  ultimately show ?thesis using broadcast_order[OF _ refl, of ?R] by blast
qed

text \<open>
  \<open>NewReceivers\<close> keys every receiver by its ID, skips nil arguments, lets the last
  receiver with an ID win, and sets empty names to the ID.
\<close>

lemma NewReceivers_lookup:
  "map_ok (NewReceivers rs) \<and>
   map_get (NewReceivers rs) rid = map_option (normalize_receiver rid)
     (List.find (\<lambda>r. ID r = rid) (rev (List.map_filter id rs)))"
  using map_get_NewReceivers by (simp add: NewReceivers_def)

section \<open>Errors and policies\<close>

text \<open>
  An error is never both permanent and transport. \<open>Permanent\<close> and \<open>Transport\<close> keep nil,
  do nothing when applied a second time, and \<open>Transport\<close> never overrides a permanent mark.
\<close>

lemma classification_laws:
  "\<not> (IsPermanent err \<and> IsTransport err) \<and>
   (Permanent err = None \<longleftrightarrow> err = None) \<and> (Transport err = None \<longleftrightarrow> err = None) \<and>
   Permanent (Permanent err) = Permanent err \<and> Transport (Transport err) = Transport err \<and>
   Transport (Permanent err) = Permanent err \<and>
   IsPermanent (Permanent err) = (err \<noteq> None) \<and>
   IsTransport (Transport err) = (err \<noteq> None \<and> \<not> IsPermanent err)"
proof (cases err)
  case None
  then show ?thesis by simp
next
  case (Some e)
  have p: "IsPermanent (Permanent err)" by (simp add: Some)
  then have "Permanent (Permanent err) = Permanent err" and "Transport (Permanent err) = Permanent err"
    by (auto simp: Permanent_def[of "Permanent err"] Transport_def[of "Permanent err"] split: option.splits)
  moreover have t: "IsTransport (Transport err) \<longleftrightarrow> \<not> IsPermanent err" by (simp add: Some IsTransport_Transport)
  moreover have "IsPermanent (Transport err) = IsPermanent err"
    by (auto simp: Some Transport_def)
  then have "Transport (Transport err) = Transport err"
    using t by (auto simp: Transport_def[of "Transport err"] split: option.splits)
  ultimately show ?thesis using p IsPermanent_not_IsTransport by (auto simp: Some)
qed

text \<open>
  The default policy retries exactly the transport failures, and the failures that are
  not permanent with status 408, 429 or 500 to 599.
\<close>

lemma DefaultRetryPolicy_exact:
  "DefaultRetryPolicy r err = (IsTransport err \<or>
     (err \<noteq> None \<and> \<not> IsPermanent err \<and> (StatusCode r = 408 \<or> StatusCode r = 429 \<or> 500 \<le> StatusCode r \<and> StatusCode r \<le> 599)))"
  by (auto simp: DefaultRetryPolicy_iff)

lemma DefaultRetryPolicy_exact_witness:
  "DefaultRetryPolicy (zero_result\<lparr>StatusCode := 599\<rparr>) (Some EOF) \<and> \<not> DefaultRetryPolicy (zero_result\<lparr>StatusCode := 404\<rparr>) (Some EOF) \<and>
   DefaultRetryPolicy zero_result (Transport (Some EOF))"
  using DefaultRetryPolicy_exact[of "zero_result\<lparr>StatusCode := 599\<rparr>" "Some EOF"]
    DefaultRetryPolicy_exact[of "zero_result\<lparr>StatusCode := 404\<rparr>" "Some EOF"]
    DefaultRetryPolicy_exact[of zero_result "Transport (Some EOF)"]
  by (auto simp: zero_result_def IsTransport_Transport classification)

end
