(* ===== verification/Go_Strings.thy ===== *)
theory Go_Strings
  imports Prelude
begin

text \<open>
  Go strings, and what the targets use of \<open>strings\<close>, \<open>unicode/utf8\<close>, \<open>strconv\<close> and
  \<open>net\<close>. A string is a list of bytes (HOL's \<open>char\<close> is a byte); a \<open>range\<close> loop over it
  yields runes, decoded from UTF-8 as the runtime does: an invalid sequence yields U+FFFD
  and skips one byte.
\<close>

section \<open>Runes\<close>

type_synonym rune = nat

abbreviation byte :: "char \<Rightarrow> nat" where
  "byte c \<equiv> of_char c"

definition rune_error :: rune where
  "rune_error = 65533"

definition continuation :: "nat \<Rightarrow> bool" where
  "continuation b \<longleftrightarrow> 128 \<le> b \<and> b \<le> 191"

text \<open>The range of the second byte after the leading byte \<open>b\<close> of a longer sequence.\<close>

definition second_ok :: "nat \<Rightarrow> nat \<Rightarrow> bool" where
  "second_ok b b1 \<longleftrightarrow> (if b = 224 then 160 \<le> b1 \<and> b1 \<le> 191 else if b = 237 then 128 \<le> b1 \<and> b1 \<le> 159
     else if b = 240 then 144 \<le> b1 \<and> b1 \<le> 191 else if b = 244 then 128 \<le> b1 \<and> b1 \<le> 143
     else continuation b1)"

text \<open>\<open>utf8.DecodeRuneInString\<close>: the first rune and its width.\<close>

fun decode_tail :: "nat \<Rightarrow> nat list \<Rightarrow> rune \<times> nat" where
  "decode_tail b (b1 # bs) =
     (if b < 194 \<or> 244 < b \<or> \<not> second_ok b b1 then (rune_error, 1)
      else if b < 224 then ((b - 192) * 64 + (b1 - 128), 2)
      else case bs of
        b2 # bs' \<Rightarrow>
          if \<not> continuation b2 then (rune_error, 1)
          else if b < 240 then ((b - 224) * 4096 + (b1 - 128) * 64 + (b2 - 128), 3)
          else (case bs' of
              b3 # _ \<Rightarrow> if \<not> continuation b3 then (rune_error, 1)
                else ((b - 240) * 262144 + (b1 - 128) * 4096 + (b2 - 128) * 64 + (b3 - 128), 4)
            | [] \<Rightarrow> (rune_error, 1))
      | [] \<Rightarrow> (rune_error, 1))"
| "decode_tail b [] = (rune_error, 1)"

fun decode_rune :: "string \<Rightarrow> rune \<times> nat" where
  "decode_rune [] = (rune_error, 0)"
| "decode_rune (c # cs) = (if byte c < 128 then (byte c, 1) else decode_tail (byte c) (map byte (take 3 cs)))"

text \<open>The runes a \<open>range\<close> loop yields.\<close>

fun runes :: "string \<Rightarrow> rune list" where
  "runes [] = []"
| "runes (c # cs) = (let (r, n) = decode_rune (c # cs) in r # runes (drop (n - 1) cs))"

definition rune_start :: "char \<Rightarrow> bool" where
  "rune_start c \<longleftrightarrow> \<not> continuation (byte c)"

text \<open>
  \<open>utf8.DecodeLastRuneInString\<close> looks back at most four bytes for the start of a rune;
  \<open>last_width\<close> is how far it goes.
\<close>

definition last_width :: "string \<Rightarrow> nat" where
  "last_width s = (case List.find (\<lambda>k. k \<le> length s \<and> rune_start (s ! (length s - k))) [2, 3, 4] of
     Some k \<Rightarrow> k | None \<Rightarrow> min 5 (length s))"

definition decode_last_rune :: "string \<Rightarrow> rune \<times> nat" where
  "decode_last_rune s =
     (if s = [] then (rune_error, 0)
      else if byte (last s) < 128 then (byte (last s), 1)
      else let k = last_width s; (r, n) = decode_rune (drop (length s - k) s)
           in if n = k then (r, n) else (rune_error, 1))"

section \<open>Trimming\<close>

text \<open>\<open>unicode.IsSpace\<close>.\<close>

definition is_space :: "rune \<Rightarrow> bool" where
  "is_space r \<longleftrightarrow> (9 \<le> r \<and> r \<le> 13) \<or> r \<in> {32, 133, 160, 5760, 8232, 8233, 8239, 8287, 12288} \<or>
     (8192 \<le> r \<and> r \<le> 8202)"

fun trim_left :: "string \<Rightarrow> string" where
  "trim_left [] = []"
| "trim_left (c # cs) = (let (r, n) = decode_rune (c # cs)
     in if is_space r then trim_left (drop (n - 1) cs) else c # cs)"

lemma decode_rune_width: "s \<noteq> [] \<Longrightarrow> 1 \<le> snd (decode_rune s) \<and> snd (decode_rune s) \<le> length s"
proof (induction s rule: decode_rune.induct)
  case (2 c cs)
  have "1 \<le> snd (decode_tail b bs) \<and> snd (decode_tail b bs) \<le> Suc (length bs)" for b bs
    by (induction b bs rule: decode_tail.induct) (auto split: list.splits)
  from this[of "byte c" "map byte (take 3 cs)"] show ?case by auto
qed simp

lemma last_width_bounds: "s \<noteq> [] \<Longrightarrow> 1 \<le> last_width s \<and> last_width s \<le> length s"
  by (auto simp: last_width_def Suc_le_eq split: option.splits)

lemma decode_last_rune_width: "s \<noteq> [] \<Longrightarrow> 1 \<le> snd (decode_last_rune s) \<and> snd (decode_last_rune s) \<le> length s"
  using last_width_bounds[of s] by (auto simp: decode_last_rune_def Let_def Suc_le_eq split: prod.splits)

function trim_right :: "string \<Rightarrow> string" where
  "trim_right s =
     (if s = [] then []
      else if is_space (fst (decode_last_rune s)) then trim_right (take (length s - snd (decode_last_rune s)) s)
      else s)"
  by pat_completeness auto
termination
proof (relation "measure length")
  fix s :: string
  assume "s \<noteq> []" and "is_space (fst (decode_last_rune s))"
  then show "(take (length s - snd (decode_last_rune s)) s, s) \<in> measure length"
    using decode_last_rune_width[of s] by simp
qed simp

declare trim_right.simps [simp del]

definition TrimSpace :: "string \<Rightarrow> string" where
  "TrimSpace s = trim_right (trim_left s)"

lemma length_trim_left: "length (trim_left s) \<le> length s"
proof (induction s rule: trim_left.induct)
  case (2 c cs)
  show ?case
  proof (cases "is_space (fst (decode_rune (c # cs)))")
    case True
    then have "length (trim_left (drop (snd (decode_rune (c # cs)) - 1) cs)) \<le> length cs"
      using "2.IH"[OF refl prod.collapse] by simp
    then show ?thesis using True by (simp add: split_beta Let_def del: decode_rune.simps)
  qed (simp add: split_beta Let_def del: decode_rune.simps)
qed simp

lemma length_trim_right: "length (trim_right s) \<le> length s"
proof (induction s rule: trim_right.induct)
  case (1 s)
  then show ?case by (subst trim_right.simps) auto
qed

lemma length_TrimSpace: "length (TrimSpace s) \<le> length s"
  unfolding TrimSpace_def using length_trim_right[of "trim_left s"] length_trim_left[of s] by linarith

lemma set_trim_left: "set (trim_left s) \<subseteq> set s"
proof (induction s rule: trim_left.induct)
  case (2 c cs)
  show ?case
  proof (cases "is_space (fst (decode_rune (c # cs)))")
    case True
    then have "set (trim_left (drop (snd (decode_rune (c # cs)) - 1) cs)) \<subseteq> set cs"
      using "2.IH"[OF refl prod.collapse] set_drop_subset by fastforce
    then show ?thesis using True by (auto simp add: split_beta Let_def simp del: decode_rune.simps)
  qed (simp add: split_beta Let_def del: decode_rune.simps)
qed simp

lemma set_trim_right: "set (trim_right s) \<subseteq> set s"
proof (induction s rule: trim_right.induct)
  case (1 s)
  then show ?case by (subst trim_right.simps) (auto dest: in_set_takeD)
qed

lemma set_TrimSpace: "set (TrimSpace s) \<subseteq> set s"
  unfolding TrimSpace_def using set_trim_right set_trim_left by fastforce

end
