(* ===== verification/Go_Text.thy ===== *)
theory Go_Text
  imports Go_Strings
begin

text \<open>
  Searching, replacing and case in strings, and decimal numbers: the functions of
  \<open>strings\<close> and \<open>strconv\<close> the targets and the templates call.
\<close>

section \<open>Searching and replacing\<close>

text \<open>\<open>''prefix''\<close> tests work on bytes.\<close>

fun HasPrefix :: "string \<Rightarrow> string \<Rightarrow> bool" where
  "HasPrefix s [] = True"
| "HasPrefix (c # s) (d # p) = (c = d \<and> HasPrefix s p)"
| "HasPrefix [] (d # p) = False"

definition HasSuffix :: "string \<Rightarrow> string \<Rightarrow> bool" where
  "HasSuffix s p = HasPrefix (rev s) (rev p)"

definition TrimPrefix :: "string \<Rightarrow> string \<Rightarrow> string" where
  "TrimPrefix s p = (if HasPrefix s p then drop (length p) s else s)"

definition TrimSuffix :: "string \<Rightarrow> string \<Rightarrow> string" where
  "TrimSuffix s p = (if HasSuffix s p then take (length s - length p) s else s)"

definition ContainsByte :: "string \<Rightarrow> char \<Rightarrow> bool" where
  "ContainsByte s c \<longleftrightarrow> c \<in> set s"

text \<open>\<open>strings.ContainsAny\<close> for a set of ASCII characters.\<close>

definition ContainsAny :: "string \<Rightarrow> string \<Rightarrow> bool" where
  "ContainsAny s cs \<longleftrightarrow> list_ex (\<lambda>c. c \<in> set cs) s"

text \<open>\<open>strings.ReplaceAll\<close> of a non-empty string: leftmost occurrences, left to right.\<close>

function ReplaceAll :: "string \<Rightarrow> string \<Rightarrow> string \<Rightarrow> string" where
  "ReplaceAll s old new =
     (if s = [] \<or> old = [] then s
      else if HasPrefix s old then new @ ReplaceAll (drop (length old) s) old new
      else hd s # ReplaceAll (tl s) old new)"
  by pat_completeness auto
termination by (relation "measure (\<lambda>(s, _, _). length s)") auto

declare ReplaceAll.simps [simp del]

fun strings_Join :: "string list \<Rightarrow> string \<Rightarrow> string" where
  "strings_Join [] sep = []"
| "strings_Join [s] sep = s"
| "strings_Join (s # ss) sep = s @ sep @ strings_Join ss sep"

lemma HasPrefix_iff: "HasPrefix s p \<longleftrightarrow> (\<exists>t. s = p @ t)"
  by (induction s p rule: HasPrefix.induct) auto

lemma HasSuffix_iff: "HasSuffix s p \<longleftrightarrow> (\<exists>t. s = t @ p)"
proof -
  have "(\<exists>t. rev s = rev p @ t) \<longleftrightarrow> (\<exists>t. s = t @ p)"
    by (metis rev_append rev_rev_ident)
  then show ?thesis by (simp add: HasSuffix_def HasPrefix_iff)
qed

lemma TrimPrefix_append [simp]: "TrimPrefix (p @ s) p = s"
  by (auto simp: TrimPrefix_def HasPrefix_iff)

lemma TrimSuffix_append [simp]: "TrimSuffix (s @ p) p = s"
  by (auto simp: TrimSuffix_def HasSuffix_iff)

lemma ContainsAny_iff: "ContainsAny s cs \<longleftrightarrow> (\<exists>c \<in> set s. c \<in> set cs)"
  by (auto simp: ContainsAny_def list_ex_iff)

lemma set_strings_Join: "set (strings_Join ss sep) \<subseteq> (\<Union>s \<in> set ss. set s) \<union> set sep"
  by (induction ss sep rule: strings_Join.induct) auto

section \<open>Case\<close>

text \<open>
  \<open>strings.ToLower\<close> and \<open>strings.EqualFold\<close> are only compared with ASCII literals. Besides
  A to Z the runes with an ASCII lower case are U+0130 and U+212A; the runes that fold to an
  ASCII letter are U+017F and U+212A. Any other rune stays outside ASCII, so the comparison
  does not depend on what it is mapped to.
\<close>

definition lower_rune :: "rune \<Rightarrow> rune" where
  "lower_rune r = (if 65 \<le> r \<and> r \<le> 90 then r + 32 else if r = 304 then 105 else if r = 8490 then 107 else r)"

definition ToLower_is :: "string \<Rightarrow> string \<Rightarrow> bool" where
  "ToLower_is s lit \<longleftrightarrow> map lower_rune (runes s) = map byte lit"

definition fold_rune :: "rune \<Rightarrow> rune" where
  "fold_rune r = (if 65 \<le> r \<and> r \<le> 90 then r + 32 else if r = 383 then 115 else if r = 8490 then 107 else r)"

definition EqualFold :: "string \<Rightarrow> string \<Rightarrow> bool" where
  "EqualFold s lit \<longleftrightarrow> map fold_rune (runes s) = map (fold_rune \<circ> byte) lit"

section \<open>Decimal numbers\<close>

fun digits :: "nat \<Rightarrow> string" where
  "digits n = (if n < 10 then [char_of (48 + n)] else digits (n div 10) @ [char_of (48 + n mod 10)])"

declare digits.simps [simp del]

definition Itoa :: "int \<Rightarrow> string" where
  "Itoa i = (if i < 0 then CHR ''-'' # digits (nat (- i)) else digits (nat i))"

definition is_digit :: "char \<Rightarrow> bool" where
  "is_digit c \<longleftrightarrow> 48 \<le> byte c \<and> byte c \<le> 57"

definition digits_value :: "string \<Rightarrow> int" where
  "digits_value = foldl (\<lambda>v c. 10 * v + (int (byte c) - 48)) 0"

text \<open>\<open>strconv.ParseInt(s, 10, 64)\<close>; \<open>None\<close> is a syntax or a range error.\<close>

definition ParseInt :: "string \<Rightarrow> int option" where
  "ParseInt s =
     (let (neg, ds) = (case s of c # cs \<Rightarrow> if c = CHR ''-'' then (True, cs) else if c = CHR ''+'' then (False, cs) else (False, s)
                       | [] \<Rightarrow> (False, s));
          v = (if neg then - digits_value ds else digits_value ds)
      in if ds = [] \<or> \<not> list_all is_digit ds \<or> \<not> int64 v then None else Some v)"

lemma byte_char_of [simp]: "k < 256 \<Longrightarrow> byte (char_of k) = k"
  by (simp add: take_bit_eq_mod flip: take_bit_eq_mod[of 8, simplified])

lemma digits_not_Nil [simp]: "digits n \<noteq> []"
  by (subst digits.simps) auto

lemma digits_are_digits: "c \<in> set (digits n) \<Longrightarrow> is_digit c"
proof (induction n rule: digits.induct)
  case (1 n)
  then show ?case
    by (subst (asm) digits.simps) (auto simp: is_digit_def split: if_splits)
qed

lemma digits_value_digits: "digits_value (digits n) = int n"
proof (induction n rule: digits.induct)
  case (1 n)
  then show ?case
    by (subst digits.simps) (simp add: digits_value_def zdiv_int zmod_int)
qed

lemma ParseInt_range: "ParseInt s = Some v \<Longrightarrow> int64 v"
  by (auto simp: ParseInt_def Let_def split: list.splits if_splits)

lemma list_all_digits [simp]: "list_all is_digit (digits n)"
  using digits_are_digits by (auto simp: list_all_iff)

lemma ParseInt_Itoa_nonneg: "0 \<le> i \<Longrightarrow> ParseInt (Itoa i) = (if int64 i then Some i else None)"
proof -
  assume "0 \<le> i"
  obtain c cs where c: "digits (nat i) = c # cs" by (cases "digits (nat i)") auto
  have "is_digit c" using digits_are_digits[of c "nat i"] c by simp
  then have "c \<noteq> CHR ''-''" and "c \<noteq> CHR ''+''" by (auto simp: is_digit_def)
  then show ?thesis using \<open>0 \<le> i\<close> list_all_digits[of "nat i"] digits_value_digits[of "nat i"]
    by (simp add: ParseInt_def Itoa_def c)
qed

lemma ParseInt_Itoa: "int64 i \<Longrightarrow> ParseInt (Itoa i) = Some i"
proof (cases "i < 0")
  case True
  assume "int64 i"
  then show ?thesis using True by (simp add: ParseInt_def Itoa_def digits_value_digits)
qed (simp add: ParseInt_Itoa_nonneg)

end
