(* ===== verification/Header.thy ===== *)
theory Header
  imports Go_Strings Go_Text
begin

text \<open>
  \<open>internal/header\<close>: which names and values the targets accept for header fields.
\<close>

definition ValidFieldNameChar :: "rune \<Rightarrow> bool" where
  "ValidFieldNameChar r \<longleftrightarrow>
     (if byte (CHR ''a'') \<le> r \<and> r \<le> byte (CHR ''z'') then True
      else if byte (CHR ''A'') \<le> r \<and> r \<le> byte (CHR ''Z'') then True
      else if byte (CHR ''0'') \<le> r \<and> r \<le> byte (CHR ''9'') then True
      else r \<in> set (map byte ''!#$%&'' @ [39] @ map byte ''*+-.^_`|~''))"

definition ValidFieldName :: "string \<Rightarrow> bool" where
  "ValidFieldName name \<longleftrightarrow>
     (if name = [] \<or> TrimSpace name \<noteq> name then False else list_all ValidFieldNameChar (runes name))"

definition ContainsNewline :: "string \<Rightarrow> bool" where
  "ContainsNewline v \<longleftrightarrow> ContainsAny v [CHR 0x0D, CHR 0x0A]"

section \<open>Lemmas\<close>

lemma ValidFieldNameChar_ascii: "ValidFieldNameChar r \<Longrightarrow> 33 \<le> r \<and> r < 128"
  by (auto simp: ValidFieldNameChar_def split: if_splits)

lemma ValidFieldNameChar_not_space: "ValidFieldNameChar r \<Longrightarrow> \<not> is_space r"
  using ValidFieldNameChar_ascii[of r] by (auto simp: is_space_def)

lemma decode_tail_not_ascii: "128 \<le> b \<Longrightarrow> 128 \<le> fst (decode_tail b bs)"
  by (induction b bs rule: decode_tail.induct)
    (auto simp: rune_error_def second_ok_def continuation_def split: list.splits if_splits)

lemma runes_valid:
  assumes "\<And>r. P r \<Longrightarrow> r < 128"
  shows "list_all P (runes s) \<longleftrightarrow> list_all (\<lambda>c. P (byte c)) s"
proof (induction s rule: runes.induct)
  case (2 c cs)
  show ?case
  proof (cases "byte c < 128")
    case True
    then show ?thesis using 2[of "(byte c, 1)" "byte c" 1] by simp
  next
    case False
    then have "\<not> P (fst (decode_rune (c # cs)))" and "\<not> P (byte c)"
      using decode_tail_not_ascii[of "byte c" "map byte (take 3 cs)"] assms
      by (auto dest: assms)
    then show ?thesis by (simp add: split_beta Let_def del: decode_rune.simps)
  qed
qed simp

lemma trim_left_id: "s \<noteq> [] \<Longrightarrow> byte (hd s) < 128 \<Longrightarrow> \<not> is_space (byte (hd s)) \<Longrightarrow> trim_left s = s"
  by (cases s) auto

lemma trim_right_id: "s \<noteq> [] \<Longrightarrow> byte (last s) < 128 \<Longrightarrow> \<not> is_space (byte (last s)) \<Longrightarrow> trim_right s = s"
  by (subst trim_right.simps) (simp add: decode_last_rune_def)

lemma TrimSpace_ascii:
  assumes "s \<noteq> []" and "byte (hd s) < 128 \<and> \<not> is_space (byte (hd s))"
    and "byte (last s) < 128 \<and> \<not> is_space (byte (last s))"
  shows "TrimSpace s = s"
  using assms by (simp add: TrimSpace_def trim_left_id trim_right_id)

lemma TrimSpace_id:
  assumes "s \<noteq> []" and "list_all (\<lambda>c. ValidFieldNameChar (byte c)) s"
  shows "TrimSpace s = s"
proof -
  have "ValidFieldNameChar (byte (hd s))" "ValidFieldNameChar (byte (last s))"
    using assms by (auto simp: list_all_iff)
  then show ?thesis
    using assms(1) ValidFieldNameChar_ascii ValidFieldNameChar_not_space
    by (simp add: TrimSpace_ascii)
qed

lemma ValidFieldName_bytes:
  "ValidFieldName s \<longleftrightarrow> s \<noteq> [] \<and> list_all (\<lambda>c. ValidFieldNameChar (byte c)) s"
  using runes_valid[of ValidFieldNameChar s] ValidFieldNameChar_ascii TrimSpace_id[of s]
  by (auto simp: ValidFieldName_def)

lemma ValidFieldName_byte: "ValidFieldName s \<Longrightarrow> c \<in> set s \<Longrightarrow> ValidFieldNameChar (byte c)"
  by (simp add: ValidFieldName_bytes list_all_iff)

lemma ContainsNewline_iff: "ContainsNewline v \<longleftrightarrow> CHR 0x0D \<in> set v \<or> CHR 0x0A \<in> set v"
  by (auto simp: ContainsNewline_def ContainsAny_iff)

lemma ValidFieldName_no_newline: "ValidFieldName s \<Longrightarrow> \<not> ContainsNewline s"
  using ValidFieldName_byte[of s "CHR 0x0D"] ValidFieldName_byte[of s "CHR 0x0A"]
  by (auto simp: ContainsNewline_iff dest!: ValidFieldNameChar_ascii)

lemma ValidFieldName_no_colon: "ValidFieldName s \<Longrightarrow> CHR '':'' \<notin> set s"
  using ValidFieldName_byte[of s "CHR '':''"] by (auto simp: ValidFieldNameChar_def)

end
