(* ===== verification/Go_Net.thy ===== *)
theory Go_Net
  imports Go_Text
begin

text \<open>
  \<open>net.JoinHostPort\<close>, the host and port of a URL authority (\<open>net/url\<close>), and base64, with
  the inverse a proxy applies to the credentials it is sent.
\<close>

section \<open>Host and port\<close>

definition JoinHostPort :: "string \<Rightarrow> string \<Rightarrow> string" where
  "JoinHostPort host port =
     (if ContainsByte host (CHR '':'') then ''['' @ host @ '']:'' @ port else host @ '':'' @ port)"

text \<open>The text before and after the last occurrence of a byte.\<close>

definition split_last :: "char \<Rightarrow> string \<Rightarrow> (string \<times> string) option" where
  "split_last c s = (let after = rev (takeWhile (\<lambda>d. d \<noteq> c) (rev s))
     in if ContainsByte s c then Some (take (length s - length after - 1) s, after) else None)"

definition strip_brackets :: "string \<Rightarrow> string" where
  "strip_brackets h = (if HasPrefix h ''['' \<and> HasSuffix h '']'' then butlast (tl h) else h)"

text \<open>\<open>splitHostPort\<close> of \<open>net/url\<close>, which \<open>Hostname\<close> and \<open>Port\<close> call.\<close>

definition splitHostPort :: "string \<Rightarrow> string \<times> string" where
  "splitHostPort hp = (case split_last (CHR '':'') hp of
       Some (h, p) \<Rightarrow> if list_all is_digit p then (strip_brackets h, p) else (strip_brackets hp, [])
     | None \<Rightarrow> (strip_brackets hp, []))"

lemma split_last_append: "c \<notin> set p \<Longrightarrow> split_last c (h @ c # p) = Some (h, p)"
proof -
  assume "c \<notin> set p"
  then have "takeWhile (\<lambda>d. d \<noteq> c) (rev p @ c # rev h) = rev p"
    by (subst takeWhile_append2) auto
  then show ?thesis by (simp add: split_last_def ContainsByte_def)
qed

definition bracketed :: "string \<Rightarrow> bool" where
  "bracketed h \<longleftrightarrow> HasPrefix h ''['' \<and> HasSuffix h '']''"

lemma strip_brackets_wrap [simp]: "strip_brackets (CHR ''['' # h @ '']'') = h"
  by (simp add: strip_brackets_def HasSuffix_iff)

lemma strip_brackets_id [simp]: "\<not> bracketed h \<Longrightarrow> strip_brackets h = h"
  by (auto simp: strip_brackets_def bracketed_def)

lemma colon_not_digit: "list_all is_digit p \<Longrightarrow> CHR '':'' \<notin> set p"
  by (auto simp: list_all_iff is_digit_def)

lemma split_join_host_port:
  assumes "list_all is_digit p" and "CHR '':'' \<in> set h \<or> \<not> bracketed h"
  shows "splitHostPort (JoinHostPort h p) = (h, p)"
proof (cases "CHR '':'' \<in> set h")
  case True
  have "JoinHostPort h p = (CHR ''['' # h @ '']'') @ CHR '':'' # p"
    using True by (simp add: JoinHostPort_def ContainsByte_def)
  then show ?thesis
    using split_last_append[OF colon_not_digit[OF assms(1)], of "CHR ''['' # h @ '']''"] assms(1)
    by (simp add: splitHostPort_def)
next
  case False
  then show ?thesis
    using split_last_append[OF colon_not_digit[OF assms(1)], of h] assms
    by (simp add: splitHostPort_def JoinHostPort_def ContainsByte_def)
qed

section \<open>Base64\<close>

definition b64_char :: "nat \<Rightarrow> char" where
  "b64_char k = char_of (if k < 26 then 65 + k else if k < 52 then 71 + k else if k < 62 then k - 4
     else if k = 62 then 43 else 47)"

definition b64_value :: "char \<Rightarrow> nat" where
  "b64_value c = (let b = byte c in
     if 65 \<le> b \<and> b \<le> 90 then b - 65 else if 97 \<le> b \<and> b \<le> 122 then b - 71
     else if 48 \<le> b \<and> b \<le> 57 then b + 4 else if b = 43 then 62 else 63)"

text \<open>\<open>base64.StdEncoding.EncodeToString\<close>.\<close>

fun b64_encode :: "string \<Rightarrow> string" where
  "b64_encode [] = []"
| "b64_encode [a] =
     [b64_char (byte a div 4), b64_char (byte a mod 4 * 16), CHR ''='', CHR ''='']"
| "b64_encode [a, b] =
     [b64_char (byte a div 4), b64_char (byte a mod 4 * 16 + byte b div 16),
      b64_char (byte b mod 16 * 4), CHR ''='']"
| "b64_encode (a # b # c # s) =
     b64_char (byte a div 4) # b64_char (byte a mod 4 * 16 + byte b div 16) #
     b64_char (byte b mod 16 * 4 + byte c div 64) # b64_char (byte c mod 64) # b64_encode s"

definition b64_first :: "char \<Rightarrow> char \<Rightarrow> char" where
  "b64_first w x = char_of (b64_value w * 4 + b64_value x div 16)"

definition b64_second :: "char \<Rightarrow> char \<Rightarrow> char" where
  "b64_second x y = char_of (b64_value x mod 16 * 16 + b64_value y div 4)"

definition b64_third :: "char \<Rightarrow> char \<Rightarrow> char" where
  "b64_third y z = char_of (b64_value y mod 4 * 64 + b64_value z)"

fun b64_decode :: "string \<Rightarrow> string" where
  "b64_decode (w # x # y # z # s) =
     (if z = CHR ''='' then if y = CHR ''='' then [b64_first w x] else [b64_first w x, b64_second x y]
      else b64_first w x # b64_second x y # b64_third y z # b64_decode s)"
| "b64_decode _ = []"

lemma byte_less: "byte c < 256"
  by (simp add: of_char_def nat_of_char_less_256[unfolded of_char_def])

lemma byte_b64_char: "k < 64 \<Longrightarrow> byte (b64_char k) =
    (if k < 26 then 65 + k else if k < 52 then 71 + k else if k < 62 then k - 4 else if k = 62 then 43 else 47)"
  unfolding b64_char_def by (rule byte_char_of) (auto split: if_splits)

lemma b64_char_facts [simp]:
  assumes "k < 64"
  shows "b64_value (b64_char k) = k" and "b64_char k \<noteq> CHR ''=''"
    and "b64_char k \<noteq> CHR 0x0D" and "b64_char k \<noteq> CHR 0x0A"
proof -
  show "b64_value (b64_char k) = k"
    unfolding b64_value_def Let_def byte_b64_char[OF assms] using assms by (auto split: if_splits)
  have "byte (b64_char k) \<noteq> 61 \<and> byte (b64_char k) \<noteq> 13 \<and> byte (b64_char k) \<noteq> 10"
    unfolding byte_b64_char[OF assms] using assms by (auto split: if_splits)
  moreover have "byte (CHR ''='') = 61" "byte (CHR 0x0D) = 13" "byte (CHR 0x0A) = 10"
    by simp_all
  ultimately show "b64_char k \<noteq> CHR ''=''" and "b64_char k \<noteq> CHR 0x0D" and "b64_char k \<noteq> CHR 0x0A"
    by metis+
qed

text \<open>The six-bit groups of three bytes, and the bytes again.\<close>

lemma b64_groups:
  fixes m n k :: nat
  assumes "m < 256" and "n < 256" and "k < 256"
  shows "m div 4 < 64" "m mod 4 * 16 < 64" "m mod 4 * 16 + n div 16 < 64" "n mod 16 * 4 < 64"
    "n mod 16 * 4 + k div 64 < 64" "k mod 64 < 64"
proof -
  have "m mod 4 \<le> 3" "n div 16 \<le> 15" "n mod 16 \<le> 15" "k div 64 \<le> 3" "m div 4 \<le> 63"
    using assms by simp_all
  then show "m div 4 < 64" "m mod 4 * 16 < 64" "m mod 4 * 16 + n div 16 < 64" "n mod 16 * 4 < 64"
    "n mod 16 * 4 + k div 64 < 64" by linarith+
qed simp

lemma b64_bytes:
  fixes m n k :: nat
  assumes "n < 256" and "k < 256"
  shows "m div 4 * 4 + m mod 4 * 16 div 16 = m"
    and "m div 4 * 4 + (m mod 4 * 16 + n div 16) div 16 = m"
    and "(m mod 4 * 16 + n div 16) mod 16 * 16 + n mod 16 * 4 div 4 = n"
    and "(m mod 4 * 16 + n div 16) mod 16 * 16 + (n mod 16 * 4 + k div 64) div 4 = n"
    and "(n mod 16 * 4 + k div 64) mod 4 * 64 + k mod 64 = k"
proof -
  have lt: "n div 16 < 16" "k div 64 < 4" using assms by simp_all
  have q: "(m mod 4 * 16 + n div 16) div 16 = m mod 4" "(m mod 4 * 16 + n div 16) mod 16 = n div 16"
    "(n mod 16 * 4 + k div 64) div 4 = n mod 16" "(n mod 16 * 4 + k div 64) mod 4 = k div 64"
    using lt by simp_all
  show "m div 4 * 4 + m mod 4 * 16 div 16 = m" by simp
  show "m div 4 * 4 + (m mod 4 * 16 + n div 16) div 16 = m" unfolding q by simp
  show "(m mod 4 * 16 + n div 16) mod 16 * 16 + n mod 16 * 4 div 4 = n" unfolding q by simp
  show "(m mod 4 * 16 + n div 16) mod 16 * 16 + (n mod 16 * 4 + k div 64) div 4 = n" unfolding q by simp
  show "(n mod 16 * 4 + k div 64) mod 4 * 64 + k mod 64 = k" unfolding q by simp
qed

lemmas b64_parts = b64_groups[OF byte_less byte_less byte_less]

lemma b64_join [simp]:
  "b64_first (b64_char (byte a div 4)) (b64_char (byte a mod 4 * 16)) = a"
  "b64_first (b64_char (byte a div 4)) (b64_char (byte a mod 4 * 16 + byte b div 16)) = a"
  "b64_second (b64_char (byte a mod 4 * 16 + byte b div 16)) (b64_char (byte b mod 16 * 4)) = b"
  "b64_second (b64_char (byte a mod 4 * 16 + byte b div 16)) (b64_char (byte b mod 16 * 4 + byte c div 64)) = b"
  "b64_third (b64_char (byte b mod 16 * 4 + byte c div 64)) (b64_char (byte c mod 64)) = c"
  unfolding b64_first_def b64_second_def b64_third_def
  by (simp_all only: b64_char_facts(1)[OF b64_parts(1)] b64_char_facts(1)[OF b64_parts(2)]
      b64_char_facts(1)[OF b64_parts(3)] b64_char_facts(1)[OF b64_parts(4)]
      b64_char_facts(1)[OF b64_parts(5)] b64_char_facts(1)[OF b64_parts(6)]
      b64_bytes[OF byte_less byte_less] char_of_char)

lemma b64_roundtrip: "b64_decode (b64_encode s) = s"
  by (induction s rule: b64_encode.induct) (simp_all add: b64_parts)

lemma b64_one_line: "CHR 0x0D \<notin> set (b64_encode s) \<and> CHR 0x0A \<notin> set (b64_encode s)"
  by (induction s rule: b64_encode.induct) (auto simp: b64_parts dest: sym)

end
