(* ===== verification/Templates.thy ===== *)
theory Templates
  imports Go_Runtime Go_Net
begin

text \<open>
  \<open>templates/templates.go\<close> and \<open>templates/html.go\<close>: parse options, template sources,
  loading and rendering.

  A parsed template is its \<open>Execute\<close> function: the bytes written for some data, or the
  error (what was written before an error is thrown away). \<open>'v\<close> is the type of \<open>any\<close>, \<open>'f\<close>
  that of template functions. Parsing (\<open>text/template\<close>, \<open>html/template\<close>), the helper
  functions of \<open>tmplfuncs\<close> and the files are parameters, the record \<open>template_lib\<close>.
  \<open>Funcs\<close> panics on a bad function map: a call that panics is \<open>None\<close>.
\<close>

type_synonym 'v execute = "'v \<Rightarrow> go_error + string"
type_synonym 'f func_map = "(string, 'f) go_map"
type_synonym 'a call = "(go_error + 'a) option"

record ('v, 'f) template_lib =
  text_Parse :: "string \<Rightarrow> string \<Rightarrow> 'f func_map \<Rightarrow> string \<Rightarrow> go_error + 'v execute"
  html_Parse :: "string \<Rightarrow> string \<Rightarrow> 'f func_map \<Rightarrow> string \<Rightarrow> go_error + 'v execute"
  Funcs_panics :: "'f func_map \<Rightarrow> bool"
  tmplfuncs_FuncMap :: "'f func_map"
  os_ReadFile :: "string \<Rightarrow> go_error + string"

text \<open>An \<open>fs.FS\<close>: \<open>Open\<close> and then reading all of the file, \<open>fs.ReadFile\<close> and \<open>fs.ReadDir\<close>.\<close>

record fs =
  fs_Open :: "string \<Rightarrow> go_error + (go_error + string)"
  fs_ReadFile :: "string \<Rightarrow> go_error + string"
  fs_ReadDir :: "string \<Rightarrow> go_error + (string \<times> bool) list"

section \<open>Options\<close>

definition MissingKeyDefault :: string where "MissingKeyDefault = ''default''"
definition MissingKeyZero :: string where "MissingKeyZero = ''zero''"
definition MissingKeyError :: string where "MissingKeyError = ''error''"

record 'f options =
  missingKey :: string
  funcs :: "'f func_map option"
  useDefaultFuncs :: bool

type_synonym 'f template_option = "('f options \<Rightarrow> 'f options) option"

definition WithMissingKey :: "string \<Rightarrow> 'f template_option" where
  "WithMissingKey policy = Some (\<lambda>cfg. cfg\<lparr>missingKey := policy\<rparr>)"

definition WithDefaultFuncs :: "'f template_option" where
  "WithDefaultFuncs = Some (\<lambda>cfg. cfg\<lparr>useDefaultFuncs := True\<rparr>)"

definition WithFunc :: "string \<Rightarrow> 'f \<Rightarrow> 'f template_option" where
  "WithFunc name f = Some (\<lambda>cfg. cfg\<lparr>funcs := Some (map_set name f (case funcs cfg of None \<Rightarrow> [] | Some m \<Rightarrow> m))\<rparr>)"

definition WithFuncs :: "'f func_map \<Rightarrow> 'f template_option" where
  "WithFuncs fm = Some (\<lambda>cfg. if fm = [] then cfg
     else cfg\<lparr>funcs := Some (maps_Copy (case funcs cfg of None \<Rightarrow> [] | Some m \<Rightarrow> m) fm)\<rparr>)"

definition validateMissingKey :: "string \<Rightarrow> go_error option" where
  "validateMissingKey policy =
     (if policy \<in> {MissingKeyDefault, MissingKeyZero, MissingKeyError} then None
      else Some (Errorf ''invalid missing key policy %q'' [Quo policy] None))"

text \<open>The loops over options, here and in the targets, skip nil options.\<close>

fun apply_opts :: "('t \<Rightarrow> 't) option list \<Rightarrow> 't \<Rightarrow> 't" where
  "apply_opts [] t = t"
| "apply_opts (None # opts) t = apply_opts opts t"
| "apply_opts (Some opt # opts) t = apply_opts opts (opt t)"

definition parseOptions :: "'f template_option list \<Rightarrow> go_error + 'f options" where
  "parseOptions opts =
     (let cfg = apply_opts opts \<lparr>missingKey = MissingKeyError, funcs = None, useDefaultFuncs = False\<rparr>;
          cfg = cfg\<lparr>missingKey := cmp_Or [] (missingKey cfg) MissingKeyError\<rparr>
      in case validateMissingKey (missingKey cfg) of Some e \<Rightarrow> Inl e | None \<Rightarrow> Inr cfg)"

lemma parseOptions_policy:
  assumes "parseOptions opts = Inr cfg"
  shows "missingKey cfg \<in> {''default'', ''zero'', ''error''}" and "opts = [] \<longrightarrow> missingKey cfg = ''error''"
  using assms
  by (auto simp: parseOptions_def validateMissingKey_def Let_def MissingKeyDefault_def MissingKeyZero_def
      MissingKeyError_def cmp_Or_def simp del: insert_iff split: if_splits)

definition templateOption :: "'f options \<Rightarrow> string" where
  "templateOption cfg = ''missingkey='' @ missingKey cfg"

definition DefaultFuncs :: "('v, 'f) template_lib \<Rightarrow> 'f func_map" where
  "DefaultFuncs lib = tmplfuncs_FuncMap lib"

text \<open>The function map a parse uses: the helpers, if enabled, overridden by the custom functions.\<close>

definition parse_funcs :: "('v, 'f) template_lib \<Rightarrow> 'f options \<Rightarrow> 'f func_map" where
  "parse_funcs lib cfg =
     (let fm = (if useDefaultFuncs cfg then maps_Copy [] (DefaultFuncs lib) else [])
      in maps_Copy fm (case funcs cfg of None \<Rightarrow> [] | Some m \<Rightarrow> m))"

section \<open>Built-in templates\<close>

definition builtinPrefix :: string where "builtinPrefix = ''builtin:''"

definition isBuiltin :: "string \<Rightarrow> bool" where
  "isBuiltin source \<longleftrightarrow> HasPrefix (TrimSpace source) builtinPrefix"

definition builtinName :: "string \<Rightarrow> string" where
  "builtinName source = TrimSpace (TrimPrefix (TrimSpace source) builtinPrefix)"

type_synonym builtinTemplates = "fs option"

definition newBuiltins :: "fs option \<Rightarrow> builtinTemplates" where
  "newBuiltins files = files"

definition read_builtin :: "builtinTemplates \<Rightarrow> string \<Rightarrow> go_error + string \<times> string" where
  "read_builtin t source =
     (let name = builtinName source in
      if name = [] then Inl (Errorf ''built-in template name must not be empty'' [] None)
      else if ContainsByte name (CHR ''/'') \<or> ContainsByte name (CHR 0x5C)
      then Inl (Errorf ''built-in template name %q must not contain path separators'' [Quo name] None)
      else case t of
        None \<Rightarrow> Inl (Errorf ''built-in templates are not configured'' [] None)
      | Some files \<Rightarrow>
          let filename = name @ ''.tmpl'' in
          (case fs_ReadFile files filename of
             Inl e \<Rightarrow> Inl (Errorf ''read built-in template %q: %w'' [Quo name] (Some e))
           | Inr body \<Rightarrow> Inr (filename, body)))"

definition builtin_exists :: "builtinTemplates \<Rightarrow> string \<Rightarrow> go_error option" where
  "builtin_exists t source = (case read_builtin t source of Inl e \<Rightarrow> Some e | Inr _ \<Rightarrow> None)"

text \<open>\<open>path.Ext\<close>: the suffix of the last path element from its last dot.\<close>

definition path_Ext :: "string \<Rightarrow> string" where
  "path_Ext p = (case split_last (CHR ''.'') (rev (takeWhile (\<lambda>c. c \<noteq> CHR ''/'') (rev p))) of
     Some (_, e) \<Rightarrow> CHR ''.'' # e | None \<Rightarrow> [])"

definition builtin_names :: "builtinTemplates \<Rightarrow> string list" where
  "builtin_names t = (case t of None \<Rightarrow> [] | Some files \<Rightarrow>
     (case fs_ReadDir files ''.'' of Inl _ \<Rightarrow> []
      | Inr entries \<Rightarrow> sort (map (\<lambda>(n, _). TrimSuffix n ''.tmpl'')
          (filter (\<lambda>(n, dir). \<not> (dir \<or> path_Ext n \<noteq> ''.tmpl'')) entries))))"

section \<open>Parsing and loading\<close>

datatype 'v template = Template "'v execute option"
datatype 'v string_template = StringTemplate "'v execute option"
datatype 'v html_template = HTMLTemplate "'v execute option"

definition parse :: "('v, 'f) template_lib \<Rightarrow> string \<Rightarrow> string \<Rightarrow> 'f template_option list \<Rightarrow> 'v execute call" where
  "parse lib name value opts = (case parseOptions opts of
       Inl e \<Rightarrow> Some (Inl e)
     | Inr cfg \<Rightarrow> let fm = parse_funcs lib cfg in
         if Funcs_panics lib fm then None
         else Some (case text_Parse lib name (templateOption cfg) fm value of
             Inl e \<Rightarrow> Inl (Errorf ''parse %s: %w'' [Str name] (Some e))
           | Inr x \<Rightarrow> Inr x))"

text \<open>The result of a call with the value of a success wrapped, as \<open>&Template{tmpl: parsed}\<close>.\<close>

definition wrap_call :: "('a \<Rightarrow> 'b) \<Rightarrow> 'a call \<Rightarrow> 'b call" where
  "wrap_call f = map_option (map_sum id f)"

lemma map_sum_Inr: "map_sum id f r = Inr y \<Longrightarrow> (\<And>x. r = Inr x \<Longrightarrow> y = f x \<Longrightarrow> P) \<Longrightarrow> P"
  by (cases r) auto

definition ParseTemplate ::
  "('v, 'f) template_lib \<Rightarrow> string \<Rightarrow> string \<Rightarrow> 'f template_option list \<Rightarrow> 'v template call" where
  "ParseTemplate lib name input opts =
     (if input = [] then Some (Inl (ErrorString ''template input is required''))
      else wrap_call (Template \<circ> Some) (parse lib name input opts))"

definition ParseStringTemplate ::
  "('v, 'f) template_lib \<Rightarrow> string \<Rightarrow> string \<Rightarrow> 'f template_option list \<Rightarrow> 'v string_template call" where
  "ParseStringTemplate lib name input opts =
     (if input = [] then Some (Inl (ErrorString ''template input is required''))
      else wrap_call (StringTemplate \<circ> Some) (parse lib name input opts))"

text \<open>\<open>filepath.Base\<close> with the separator of Unix.\<close>

definition filepath_Base :: "string \<Rightarrow> string" where
  "filepath_Base p =
     (if p = [] then ''.''
      else let q = rev (takeWhile (\<lambda>c. c \<noteq> CHR ''/'') (dropWhile (\<lambda>c. c = CHR ''/'') (rev p)))
        in if q = [] then ''/'' else q)"

definition Load :: "('v, 'f) template_lib \<Rightarrow> string \<Rightarrow> 'f template_option list \<Rightarrow> 'v template call" where
  "Load lib path opts =
     (if path = [] then Some (Inl (ErrorString ''template path is required''))
      else case os_ReadFile lib path of
        Inl e \<Rightarrow> Some (Inl (Errorf ''read template: %w'' [] (Some e)))
      | Inr data \<Rightarrow> ParseTemplate lib (filepath_Base path) data opts)"

definition LoadString :: "('v, 'f) template_lib \<Rightarrow> string \<Rightarrow> 'f template_option list \<Rightarrow> 'v string_template call" where
  "LoadString lib path opts =
     (if path = [] then Some (Inl (ErrorString ''template path is required''))
      else case os_ReadFile lib path of
        Inl e \<Rightarrow> Some (Inl (Errorf ''read template: %w'' [] (Some e)))
      | Inr data \<Rightarrow> ParseStringTemplate lib (filepath_Base path) data opts)"

definition LoadFromFS ::
  "('v, 'f) template_lib \<Rightarrow> fs option \<Rightarrow> string \<Rightarrow> 'f template_option list \<Rightarrow> 'v template call" where
  "LoadFromFS lib tmplFS path opts = (case tmplFS of
       None \<Rightarrow> Some (Inl (ErrorString ''template filesystem is required''))
     | Some files \<Rightarrow>
         if path = [] then Some (Inl (ErrorString ''template path is required''))
         else (case fs_Open files path of
             Inl e \<Rightarrow> Some (Inl (Errorf ''read template: %w'' [] (Some e)))
           | Inr (Inl e) \<Rightarrow> Some (Inl (Errorf ''read template: %w'' [] (Some e)))
           | Inr (Inr data) \<Rightarrow> ParseTemplate lib path data opts))"

definition LoadStringFromFS ::
  "('v, 'f) template_lib \<Rightarrow> fs option \<Rightarrow> string \<Rightarrow> 'f template_option list \<Rightarrow> 'v string_template call" where
  "LoadStringFromFS lib tmplFS path opts = (case tmplFS of
       None \<Rightarrow> Some (Inl (ErrorString ''template filesystem is required''))
     | Some files \<Rightarrow>
         if path = [] then Some (Inl (ErrorString ''template path is required''))
         else (case fs_Open files path of
             Inl e \<Rightarrow> Some (Inl (Errorf ''read template: %w'' [] (Some e)))
           | Inr (Inl e) \<Rightarrow> Some (Inl (Errorf ''read template: %w'' [] (Some e)))
           | Inr (Inr data) \<Rightarrow> ParseStringTemplate lib path data opts))"

definition readSource :: "('v, 'f) template_lib \<Rightarrow> fs option \<Rightarrow> string \<Rightarrow> go_error + string \<times> string" where
  "readSource lib templateFS src =
     (let source = TrimSpace src in
      if source = [] then Inl (ErrorString ''template source is required'')
      else if isBuiltin source then read_builtin (newBuiltins templateFS) source
      else case os_ReadFile lib source of
        Inl e \<Rightarrow> Inl (Errorf ''read template %q: %w'' [Quo source] (Some e))
      | Inr body \<Rightarrow> Inr (filepath_Base source, body))"

definition parseSource ::
  "('v, 'f) template_lib \<Rightarrow> fs option \<Rightarrow> string \<Rightarrow> 'f template_option list \<Rightarrow> 'v execute call" where
  "parseSource lib templateFS source opts = (case readSource lib templateFS source of
       Inl e \<Rightarrow> Some (Inl e)
     | Inr (name, body) \<Rightarrow> (case parse lib name body opts of
           None \<Rightarrow> None
         | Some (Inl e) \<Rightarrow> Some (Inl (Errorf ''parse template %q: %w'' [Quo source] (Some e)))
         | Some (Inr x) \<Rightarrow> Some (Inr x)))"

definition LoadSource ::
  "('v, 'f) template_lib \<Rightarrow> fs option \<Rightarrow> string \<Rightarrow> 'f template_option list \<Rightarrow> 'v template call" where
  "LoadSource lib templateFS source opts = wrap_call (Template \<circ> Some) (parseSource lib templateFS source opts)"

definition ParseHTMLTemplate ::
  "('v, 'f) template_lib \<Rightarrow> string \<Rightarrow> string \<Rightarrow> 'f template_option list \<Rightarrow> 'v html_template call" where
  "ParseHTMLTemplate lib name input opts =
     (if input = [] then Some (Inl (ErrorString ''template input is required''))
      else case parseOptions opts of
        Inl e \<Rightarrow> Some (Inl e)
      | Inr cfg \<Rightarrow> let fm = parse_funcs lib cfg in
          if Funcs_panics lib fm then None
          else Some (case html_Parse lib name (templateOption cfg) fm input of
              Inl e \<Rightarrow> Inl (Errorf ''parse HTML %s: %w'' [Str name] (Some e))
            | Inr x \<Rightarrow> Inr (HTMLTemplate (Some x))))"

definition LoadHTMLSource ::
  "('v, 'f) template_lib \<Rightarrow> fs option \<Rightarrow> string \<Rightarrow> 'f template_option list \<Rightarrow> 'v html_template call" where
  "LoadHTMLSource lib files source opts = (case readSource lib files source of
       Inl e \<Rightarrow> Some (Inl e)
     | Inr (name, body) \<Rightarrow> ParseHTMLTemplate lib name body opts)"

section \<open>Rendering\<close>

text \<open>\<open>Renderer\<close> is the interface of one method; the pointer receivers may be nil.\<close>

type_synonym 'v renderer = "'v \<Rightarrow> go_error + string"

definition execute_template :: "'v execute \<Rightarrow> 'v \<Rightarrow> go_error + string" where
  "execute_template tmpl data = (case tmpl data of
       Inl e \<Rightarrow> Inl (Errorf ''execute template: %w'' [] (Some e))
     | Inr s \<Rightarrow> Inr s)"

fun Template_Render :: "'v template option \<Rightarrow> 'v renderer" where
  "Template_Render (Some (Template (Some tmpl))) data = (case tmpl data of
       Inl e \<Rightarrow> Inl (Errorf ''execute template: %w'' [] (Some e))
     | Inr s \<Rightarrow> Inr s)"
| "Template_Render _ data = Inl (ErrorString ''template is nil'')"

fun StringTemplate_Render :: "'v string_template option \<Rightarrow> 'v renderer" where
  "StringTemplate_Render (Some (StringTemplate (Some tmpl))) data = execute_template tmpl data"
| "StringTemplate_Render _ data = Inl (ErrorString ''template is nil'')"

fun HTMLTemplate_Render :: "'v html_template option \<Rightarrow> 'v renderer" where
  "HTMLTemplate_Render (Some (HTMLTemplate (Some tmpl))) data = (case tmpl data of
       Inl e \<Rightarrow> Inl (Errorf ''execute HTML template: %w'' [] (Some e))
     | Inr s \<Rightarrow> Inr s)"
| "HTMLTemplate_Render _ data = Inl (ErrorString ''HTML template is nil'')"

end
