(* ===== verification/Go_Time.thy ===== *)
theory Go_Time
  imports Go_Text
begin

text \<open>
  \<open>time.Duration\<close> as text, and its rounding: what the targets log and report as the time a
  delivery took. A duration is a number of nanoseconds.
\<close>

abbreviation Millisecond :: int where
  "Millisecond \<equiv> 1000000"

abbreviation Second :: int where
  "Second \<equiv> 1000000000"

text \<open>\<open>Round\<close> rounds half away from zero and saturates.\<close>

definition Round :: "int \<Rightarrow> int \<Rightarrow> int" where
  "Round m d =
     (if m \<le> 0 then d
      else let r = \<bar>d\<bar> mod m in
        if d < 0 then if r + r < m then d + r else max int64_min (d - m + r)
        else if r + r < m then d - r else min int64_max (d + m - r))"

fun pad_zeros :: "nat \<Rightarrow> string \<Rightarrow> string" where
  "pad_zeros k s = replicate (k - length s) (CHR ''0'') @ s"

text \<open>The fraction \<open>v / 10^k\<close> without trailing zeros, with its point unless it is zero.\<close>

definition fmt_frac :: "nat \<Rightarrow> nat \<Rightarrow> string" where
  "fmt_frac v k = (let ds = rev (dropWhile (\<lambda>c. c = CHR ''0'') (rev (pad_zeros k (digits (v mod 10 ^ k)))))
     in if ds = [] then [] else CHR ''.'' # ds)"

definition micro_sign :: string where
  "micro_sign = [CHR 0xC2, CHR 0xB5]"

definition Duration_String :: "int \<Rightarrow> string" where
  "Duration_String d =
     (let u = nat \<bar>d\<bar>;
          body = (if u = 0 then ''0s''
            else if u < 1000 then digits u @ ''ns''
            else if u < 1000000 then digits (u div 1000) @ fmt_frac u 3 @ micro_sign @ ''s''
            else if u < 1000000000 then digits (u div 1000000) @ fmt_frac u 6 @ ''ms''
            else let s = u div 1000000000; m = s div 60; h = m div 60
              in (if 0 < h then digits h @ ''h'' else []) @ (if 0 < m then digits (m mod 60) @ ''m'' else []) @
                 digits (s mod 60) @ fmt_frac u 9 @ ''s'')
      in if d < 0 then CHR ''-'' # body else body)"

definition rounded_string :: "int \<Rightarrow> string" where
  "rounded_string d = Duration_String (Round Millisecond d)"

lemma Round_cases:
  assumes "0 < m" and "int64_min + m \<le> d" and "d \<le> int64_max - m" and "r = \<bar>d\<bar> mod m"
  shows "Round m d = (if d < 0 then if r + r < m then d + r else d - m + r
    else if r + r < m then d - r else d + m - r)"
proof -
  have "0 \<le> r" "r < m" using assms by simp_all
  then have "max int64_min (d - m + r) = d - m + r" "min int64_max (d + m - r) = d + m - r"
    using assms(2,3) by linarith+
  then show ?thesis using assms(1) unfolding Round_def Let_def assms(4)[symmetric] by simp
qed

lemma Round_close:
  assumes "0 < m" and "int64_min + m \<le> d" and "d \<le> int64_max - m"
  shows "m dvd Round m d \<and> 2 * \<bar>Round m d - d\<bar> \<le> m"
proof -
  define r where "r = \<bar>d\<bar> mod m"
  have r: "0 \<le> r" "r < m" using assms(1) by (simp_all add: r_def)
  have dv: "m dvd \<bar>d\<bar> - r" by (simp add: r_def)
  show ?thesis
  proof (cases "d < 0")
    case True
    have "m dvd - (\<bar>d\<bar> - r)" using dv by (rule dvd_minus_iff[THEN iffD2])
    then have "m dvd d + r" using True by (simp add: add.commute)
    moreover from this have "m dvd (d + r) - m" by simp
    ultimately show ?thesis
      using True r Round_cases[OF assms r_def] by (simp add: algebra_simps)
  next
    case False
    then have "m dvd d - r" using dv by simp
    moreover from this have "m dvd (d - r) + m" by simp
    ultimately show ?thesis
      using False r Round_cases[OF assms r_def] by (simp add: algebra_simps)
  qed
qed

end
