(* ===== verification/Webhook.thy ===== *)
theory Webhook
  imports Types Header Templates Go_Time
begin

text \<open>
  \<open>targets/webhook/webhook.go\<close>: the webhook target, its options and defaults, rendering,
  validation, the HTTP exchange, response reading, logging and the redaction of errors.

  \<open>net/http\<close>, \<open>encoding/json\<close> and the server are parameters, the record \<open>http_lib\<close>: what
  \<open>NewRequest\<close> makes of a method and a URL, \<open>json.Valid\<close>, \<open>http.ParseTime\<close> (the moment on
  the runtime's clock), and \<open>Do\<close>, which answers a request or fails, taking some time.
\<close>

section \<open>HTTP\<close>

text \<open>The transport is the one \<open>NewClient\<close> builds, or one of the application's own.\<close>

datatype round_tripper =
    HttpTransport (InsecureSkipVerify: bool) (UsesProxyFromEnvironment: bool)
  | RoundTripper nat

record http_client =
  ClientTimeout :: int
  Transport_of :: round_tripper

type_synonym http_header = "(string, string list) go_map"

record http_request =
  Req_method :: string
  Req_url :: string
  Req_header :: http_header
  Req_body :: string

text \<open>
  A body is a reader: the bytes it yields and the error that follows them, if the stream does
  not end properly.
\<close>

record http_response =
  Resp_Status :: string
  Resp_StatusCode :: int
  Resp_Header :: http_header
  Resp_Body :: "string \<times> go_error option"

record 'x http_lib =
  NewRequest :: "string \<Rightarrow> string \<Rightarrow> go_error + string \<times> string"
  json_Valid :: "string \<Rightarrow> bool"
  ParseTime :: "string \<Rightarrow> int option"
  Do :: "http_client \<Rightarrow> go_context \<Rightarrow> http_request \<Rightarrow> 'x runtime \<Rightarrow> (go_error + http_response) \<times> 'x runtime"

text \<open>\<open>NewRequest\<close> yields the scheme and the host of the parsed URL.\<close>

definition upper_byte :: "char \<Rightarrow> char" where
  "upper_byte c = (if 97 \<le> byte c \<and> byte c \<le> 122 then char_of (byte c - 32) else c)"

definition lower_byte :: "char \<Rightarrow> char" where
  "lower_byte c = (if 65 \<le> byte c \<and> byte c \<le> 90 then char_of (byte c + 32) else c)"

fun canonical_bytes :: "bool \<Rightarrow> string \<Rightarrow> string" where
  "canonical_bytes up [] = []"
| "canonical_bytes up (c # s) = (if up then upper_byte c else lower_byte c) # canonical_bytes (c = CHR ''-'') s"

text \<open>\<open>CanonicalMIMEHeaderKey\<close>: a key with a byte no token has stays as it is.\<close>

definition canonical_key :: "string \<Rightarrow> string" where
  "canonical_key k = (if list_all (\<lambda>c. ValidFieldNameChar (byte c)) k then canonical_bytes True k else k)"

definition header_Set :: "http_header \<Rightarrow> string \<Rightarrow> string \<Rightarrow> http_header" where
  "header_Set h name v = map_set (canonical_key name) [v] h"

definition header_Get :: "http_header \<Rightarrow> string \<Rightarrow> string" where
  "header_Get h name = (case map_get h (canonical_key name) of Some (v # _) \<Rightarrow> v | _ \<Rightarrow> [])"

section \<open>The target\<close>

definition LogResponseSummary :: string where "LogResponseSummary = ''summary''"
definition LogResponseBody :: string where "LogResponseBody = ''body''"
definition LogResponseFull :: string where "LogResponseFull = ''full''"
definition LogResponseNone :: string where "LogResponseNone = ''none''"

record 'v webhook =
  wh_Name :: string
  wh_URL :: string
  wh_Method :: string
  wh_Headers :: "(string, string) go_map"
  wh_Template :: "'v template option"
  wh_TitleTmpl :: "'v string_template option"
  wh_Client :: "http_client option"
  wh_Logger :: "logger option"
  wh_ValidateJSON :: bool
  wh_LogResponse :: string
  wh_ResponseBodyLimit :: int

definition zero_webhook :: "'v webhook" where
  "zero_webhook = \<lparr>wh_Name = [], wh_URL = [], wh_Method = [], wh_Headers = [], wh_Template = None,
     wh_TitleTmpl = None, wh_Client = None, wh_Logger = None, wh_ValidateJSON = False,
     wh_LogResponse = [], wh_ResponseBodyLimit = 0\<rparr>"

record clientOptions =
  proxyFromEnvironment :: bool
  skipTLSVerify :: bool

type_synonym client_option = "(clientOptions \<Rightarrow> clientOptions) option"

definition WithProxyFromEnvironment :: client_option where
  "WithProxyFromEnvironment = Some (\<lambda>cfg. cfg\<lparr>proxyFromEnvironment := True\<rparr>)"

definition WithSkipTLSVerify :: client_option where
  "WithSkipTLSVerify = Some (\<lambda>cfg. cfg\<lparr>skipTLSVerify := True\<rparr>)"

definition NewClient :: "int \<Rightarrow> client_option list \<Rightarrow> http_client" where
  "NewClient timeout opts =
     (let timeout = (if timeout \<le> 0 then 10 * Second else timeout);
          cfg = apply_opts opts \<lparr>proxyFromEnvironment = False, skipTLSVerify = False\<rparr>
      in \<lparr>ClientTimeout = timeout, Transport_of = HttpTransport (skipTLSVerify cfg) (proxyFromEnvironment cfg)\<rparr>)"

definition wh_applyDefaults :: "'v webhook \<Rightarrow> 'v webhook" where
  "wh_applyDefaults t =
     t\<lparr>wh_Method := cmp_Or [] (wh_Method t) ''POST'',
       wh_Client := Some (case wh_Client t of None \<Rightarrow> NewClient (10 * Second) [] | Some c \<Rightarrow> c),
       wh_Logger := Some (case wh_Logger t of None \<Rightarrow> Discard | Some l \<Rightarrow> l),
       wh_LogResponse := cmp_Or [] (wh_LogResponse t) LogResponseSummary,
       wh_ResponseBodyLimit := cmp_Or 0 (wh_ResponseBodyLimit t) 4096\<rparr>"

type_synonym 'v webhook_option = "('v webhook \<Rightarrow> 'v webhook) option"

definition wh_New :: "'v webhook_option list \<Rightarrow> 'v webhook" where
  "wh_New opts = wh_applyDefaults (apply_opts opts zero_webhook)"

definition wh_NewFromTarget :: "'v webhook \<Rightarrow> 'v webhook_option list \<Rightarrow> 'v webhook" where
  "wh_NewFromTarget target opts = wh_applyDefaults (apply_opts opts target)"

definition wh_WithName :: "string \<Rightarrow> 'v webhook_option" where
  "wh_WithName name = Some (\<lambda>t. t\<lparr>wh_Name := name\<rparr>)"

definition wh_WithURL :: "string \<Rightarrow> 'v webhook_option" where
  "wh_WithURL url = Some (\<lambda>t. t\<lparr>wh_URL := url\<rparr>)"

definition wh_WithMethod :: "string \<Rightarrow> 'v webhook_option" where
  "wh_WithMethod method = Some (\<lambda>t. t\<lparr>wh_Method := method\<rparr>)"

definition wh_WithHeaders :: "(string, string) go_map \<Rightarrow> 'v webhook_option" where
  "wh_WithHeaders headers = Some (\<lambda>t. if headers = [] then t
     else t\<lparr>wh_Headers := maps_Copy (wh_Headers t) headers\<rparr>)"

definition wh_WithHeader :: "string \<Rightarrow> string \<Rightarrow> 'v webhook_option" where
  "wh_WithHeader name v = wh_WithHeaders [(name, v)]"

definition wh_WithTemplate :: "'v template option \<Rightarrow> 'v webhook_option" where
  "wh_WithTemplate tmpl = Some (\<lambda>t. t\<lparr>wh_Template := tmpl\<rparr>)"

definition wh_WithTitleTemplate :: "'v string_template option \<Rightarrow> 'v webhook_option" where
  "wh_WithTitleTemplate tmpl = Some (\<lambda>t. t\<lparr>wh_TitleTmpl := tmpl\<rparr>)"

definition wh_WithClient :: "http_client option \<Rightarrow> 'v webhook_option" where
  "wh_WithClient client = Some (\<lambda>t. t\<lparr>wh_Client := client\<rparr>)"

definition wh_WithLogger :: "logger option \<Rightarrow> 'v webhook_option" where
  "wh_WithLogger lg = Some (\<lambda>t. t\<lparr>wh_Logger := lg\<rparr>)"

definition wh_WithValidateJSON :: "'v webhook_option" where
  "wh_WithValidateJSON = Some (\<lambda>t. t\<lparr>wh_ValidateJSON := True\<rparr>)"

definition wh_WithLogResponse :: "string \<Rightarrow> 'v webhook_option" where
  "wh_WithLogResponse mode = Some (\<lambda>t. t\<lparr>wh_LogResponse := mode\<rparr>)"

definition wh_WithResponseBodyLimit :: "int \<Rightarrow> 'v webhook_option" where
  "wh_WithResponseBodyLimit limit = Some (\<lambda>t. t\<lparr>wh_ResponseBodyLimit := limit\<rparr>)"

section \<open>Rendering and validation\<close>

text \<open>\<open>bytes.TrimSpace\<close> trims as \<open>strings.TrimSpace\<close> does.\<close>

definition wh_Render :: "'x http_lib \<Rightarrow> 'v \<Rightarrow> 'v webhook option \<Rightarrow> 'v payload \<Rightarrow> go_error + string" where
  "wh_Render lib nil_any target p = (case target of
       None \<Rightarrow> Inl (ErrorString ''webhook target is nil'')
     | Some t \<Rightarrow>
         if wh_Template t = None then Inl (ErrorString ''webhook template is nil'')
         else if wh_TitleTmpl t = None then Inl (ErrorString ''webhook title template is nil'')
         else (case StringTemplate_Render (wh_TitleTmpl t) (Payload_Data nil_any p []) of
             Inl e \<Rightarrow> Inl (Errorf ''render webhook title: %w'' [] (Some e))
           | Inr title \<Rightarrow> (case Template_Render (wh_Template t) (Payload_Data nil_any p title) of
               Inl e \<Rightarrow> Inl (Errorf ''render webhook template: %w'' [] (Some e))
             | Inr body \<Rightarrow>
                 let body = TrimSpace body in
                 if wh_ValidateJSON t \<and> \<not> json_Valid lib body
                 then Inl (Errorf ''render webhook template: result is not valid JSON'' [] None)
                 else Inr body)))"

definition wh_validateHeaderName :: "string \<Rightarrow> go_error option" where
  "wh_validateHeaderName name =
     (if name = [] then Some (ErrorString ''webhook header name must not be empty'')
      else if TrimSpace name \<noteq> name
      then Some (Errorf ''webhook header %q must not have leading or trailing whitespace'' [Quo name] None)
      else if \<not> ValidFieldName name
      then Some (Errorf ''webhook header %q contains invalid character'' [Quo name] None)
      else None)"

definition wh_validateHeaderValue :: "string \<Rightarrow> string \<Rightarrow> go_error option" where
  "wh_validateHeaderValue name v =
     (if ContainsNewline v
      then Some (Errorf ''webhook header %q value must not contain newline characters'' [Quo name] None)
      else None)"

text \<open>The first failure in the order in which the loop sees the headers.\<close>

fun wh_check_headers :: "(string \<times> string) list \<Rightarrow> go_error option" where
  "wh_check_headers [] = None"
| "wh_check_headers ((name, v) # hs) =
     (case wh_validateHeaderName name of Some e \<Rightarrow> Some e
      | None \<Rightarrow> (case wh_validateHeaderValue name v of Some e \<Rightarrow> Some e | None \<Rightarrow> wh_check_headers hs))"

definition wh_validateHeaders :: "(string, string) go_map \<Rightarrow> 'x runtime \<Rightarrow> go_error option \<times> 'x runtime" where
  "wh_validateHeaders headers w = (let (hs, w1) = map_range headers w in (wh_check_headers hs, w1))"

text \<open>
  \<open>safeWebhookError\<close> hides an error that carries a URL behind a fixed message and keeps it as
  the cause.
\<close>

fun is_redacted :: "go_error \<Rightarrow> bool" where
  "is_redacted (RedactedError _ _) = True"
| "is_redacted _ = False"

fun is_url_error :: "go_error \<Rightarrow> bool" where
  "is_url_error (UrlError _ _ _) = True"
| "is_url_error _ = False"

definition safeWebhookError :: "go_error option \<Rightarrow> go_error option" where
  "safeWebhookError err = (case err of None \<Rightarrow> None
     | Some e \<Rightarrow>
         if errors_As is_redacted e \<noteq> None then err
         else if errors_As is_url_error e \<noteq> None
         then Some (RedactedError e ''webhook URL or request failed'')
         else err)"

definition validateRequestURL :: "string \<times> string \<Rightarrow> go_error option" where
  "validateRequestURL url = (let (scheme, host) = url in
     if \<not> (ToLower_is scheme ''http'' \<or> ToLower_is scheme ''https'')
     then Some (ErrorString ''webhook URL must use http or https'')
     else if host = [] then Some (ErrorString ''webhook URL host is required'')
     else None)"

definition validateEndpoint :: "'x http_lib \<Rightarrow> string \<Rightarrow> string \<Rightarrow> go_error option" where
  "validateEndpoint lib method endpoint = (case NewRequest lib method endpoint of
       Inl e \<Rightarrow> safeWebhookError (Some e)
     | Inr url \<Rightarrow> validateRequestURL url)"

definition wh_Validate ::
  "'x http_lib \<Rightarrow> 'v \<Rightarrow> 'v webhook option \<Rightarrow> 'v payload \<Rightarrow> 'x runtime \<Rightarrow> go_error option \<times> 'x runtime" where
  "wh_Validate lib nil_any t p w = (case t of
       None \<Rightarrow> (Some (ErrorString ''webhook target is nil''), w)
     | Some t \<Rightarrow>
         let target = wh_applyDefaults t in
         (case wh_Render lib nil_any (Some target) p of
            Inl e \<Rightarrow> (Some e, w)
          | Inr _ \<Rightarrow> (case wh_validateHeaders (wh_Headers target) w of
              (Some e, w1) \<Rightarrow> (Some e, w1)
            | (None, w1) \<Rightarrow> (validateEndpoint lib (wh_Method target) (wh_URL target), w1))))"

section \<open>Responses\<close>

text \<open>\<open>Time.Sub\<close> saturates.\<close>

definition time_Sub :: "int \<Rightarrow> int \<Rightarrow> int" where
  "time_Sub t u = max int64_min (min int64_max (t - u))"

text \<open>\<open>Retry-After\<close> as delay seconds, which \<open>parseRetryAfter\<close> tries first.\<close>

definition retry_seconds :: "string \<Rightarrow> int option" where
  "retry_seconds v = (case ParseInt v of None \<Rightarrow> None
     | Some seconds \<Rightarrow>
         if seconds < 0 then None
         else if int64_max div Second < seconds then Some int64_max
         else Some (wrap64 (seconds * Second)))"

definition parseRetryAfter :: "'x http_lib \<Rightarrow> string \<Rightarrow> int \<Rightarrow> int" where
  "parseRetryAfter lib v at =
     (let v = TrimSpace v in
      if v = [] then 0
      else case retry_seconds v of Some d \<Rightarrow> d
      | None \<Rightarrow> (case ParseTime lib v of None \<Rightarrow> 0
          | Some retryAt \<Rightarrow> let wait = time_Sub retryAt at in if wait \<le> 0 then 0 else wait))"

text \<open>
  \<open>io.ReadAll\<close> of \<open>io.LimitReader\<close>: at most \<open>readLimit\<close> bytes, and the reader's error only
  if it is reached before the limit.
\<close>

definition read_limited :: "string \<times> go_error option \<Rightarrow> int \<Rightarrow> go_error + string" where
  "read_limited body readLimit = (let (bytes, err) = body in
     if readLimit \<le> int (length bytes) then Inr (take (nat readLimit) bytes)
     else case err of Some e \<Rightarrow> Inl e | None \<Rightarrow> Inr bytes)"

definition readResponseBody :: "string \<times> go_error option \<Rightarrow> int \<Rightarrow> go_error + string \<times> bool" where
  "readResponseBody body limit =
     (let limit = (if limit \<le> 0 then 4096 else limit);
          readLimit = (if limit < int64_max then limit + 1 else limit)
      in case read_limited body readLimit of
        Inl e \<Rightarrow> Inl e
      | Inr data \<Rightarrow>
          let truncated = limit < int (length data);
              data = (if truncated then take (nat limit) data else data)
          in Inr (TrimSpace data, truncated))"

definition truncateBody :: "string \<Rightarrow> int \<Rightarrow> string" where
  "truncateBody body limit =
     (if limit \<le> 0 \<or> int (length body) \<le> limit then body else take (nat limit) body @ ''...'')"

definition responseError :: "string \<Rightarrow> string \<Rightarrow> go_error" where
  "responseError target status = Errorf ''webhook %q delivery failed: %s'' [Quo target, Str status] None"

section \<open>Logging\<close>

definition wh_label :: "'v webhook \<Rightarrow> string" where
  "wh_label t = cmp_Or [] (wh_Name t) ''webhook''"

definition responseLogFields ::
  "'v webhook \<Rightarrow> http_response \<Rightarrow> string \<Rightarrow> bool \<Rightarrow> int \<Rightarrow> string \<Rightarrow> (string \<times> attr) list" where
  "responseLogFields t resp body truncated duration mode =
     [(''target'', AStr (wh_label t)), (''status'', AStr (Resp_Status resp)),
      (''statusCode'', AInt (Resp_StatusCode resp)), (''duration'', AStr (rounded_string duration)),
      (''responseTruncated'', ABool truncated)] @
     (if mode = LogResponseBody \<or> mode = LogResponseFull then [(''responseBody'', AStr body)] else []) @
     (if mode = LogResponseFull then [(''responseHeaders'', AHeader (Resp_Header resp))] else [])"

text \<open>The target's logger and client are set once the defaults have been applied.\<close>

definition logSuccessfulResponse ::
  "'v webhook \<Rightarrow> http_response \<Rightarrow> string \<Rightarrow> bool \<Rightarrow> int \<Rightarrow> 'x runtime \<Rightarrow> 'x runtime" where
  "logSuccessfulResponse t resp body truncated duration w =
     (if wh_LogResponse t = LogResponseNone then w
      else if wh_LogResponse t = LogResponseBody \<or> wh_LogResponse t = LogResponseFull
      then log_to (the (wh_Logger t)) LevelInfo ''webhook delivered''
             (responseLogFields t resp body truncated duration (wh_LogResponse t)) w
      else log_to (the (wh_Logger t)) LevelInfo ''webhook delivered''
             (responseLogFields t resp body truncated duration LogResponseSummary) w)"

definition logFailedResponse ::
  "'v webhook \<Rightarrow> http_response \<Rightarrow> string \<Rightarrow> bool \<Rightarrow> int \<Rightarrow> go_error \<Rightarrow> 'x runtime \<Rightarrow> 'x runtime" where
  "logFailedResponse t resp body truncated duration err w =
     (let mode = (if wh_LogResponse t = LogResponseBody \<or> wh_LogResponse t = LogResponseFull
                  then wh_LogResponse t else LogResponseSummary)
      in log_to (the (wh_Logger t)) LevelError ''webhook delivery failed''
           (responseLogFields t resp body truncated duration mode @ [(''error'', AErr err)]) w)"

section \<open>Sending\<close>

text \<open>The request \<open>post\<close> builds: the default content type, then the target's headers.\<close>

definition wh_request :: "'v webhook \<Rightarrow> string \<Rightarrow> 'x runtime \<Rightarrow> http_request \<times> 'x runtime" where
  "wh_request t body w =
     (let h = header_Set [] ''Content-Type'' ''application/json; charset=utf-8'';
          (hs, w1) = map_range (wh_Headers t) w
      in (\<lparr>Req_method = wh_Method t, Req_url = wh_URL t,
           Req_header = fold (\<lambda>(name, v) h. header_Set h name v) hs h, Req_body = body\<rparr>, w1))"

type_synonym post_result = "string \<times> int \<times> string \<times> int \<times> go_error option"

definition read_failed :: "go_error \<Rightarrow> go_error" where
  "read_failed e = RedactedError e ''webhook response read failed''"

text \<open>What \<open>post\<close> does with a response.\<close>

definition wh_receive :: "'x http_lib \<Rightarrow> 'v webhook \<Rightarrow> http_response \<Rightarrow> int \<Rightarrow> 'x runtime \<Rightarrow> post_result \<times> 'x runtime" where
  "wh_receive lib t resp duration w =
     (let retryAfter = parseRetryAfter lib (header_Get (Resp_Header resp) ''Retry-After'') (now w)
      in case readResponseBody (Resp_Body resp) (wh_ResponseBodyLimit t) of
        Inl e \<Rightarrow>
          ((Resp_Status resp, Resp_StatusCode resp, [], retryAfter, Transport (Some (read_failed e))),
           log_to (the (wh_Logger t)) LevelError ''webhook response read failed''
             [(''status'', AStr (Resp_Status resp)), (''statusCode'', AInt (Resp_StatusCode resp)),
              (''duration'', AStr (rounded_string duration)), (''error'', AErr (read_failed e))] w)
      | Inr (body, truncated) \<Rightarrow>
          if Resp_StatusCode resp < 200 \<or> 300 \<le> Resp_StatusCode resp
          then let err = responseError (wh_label t) (Resp_Status resp)
            in ((Resp_Status resp, Resp_StatusCode resp, body, retryAfter, Some err),
                logFailedResponse t resp body truncated duration err w)
          else ((Resp_Status resp, Resp_StatusCode resp, body, retryAfter, None),
                logSuccessfulResponse t resp body truncated duration w))"

definition wh_post :: "'x http_lib \<Rightarrow> 'v webhook \<Rightarrow> go_context \<Rightarrow> string \<Rightarrow> 'x runtime \<Rightarrow> post_result \<times> 'x runtime" where
  "wh_post lib t ctx body w = (case NewRequest lib (wh_Method t) (wh_URL t) of
       Inl e \<Rightarrow> (([], 0, [], 0, Permanent (safeWebhookError (Some e))), w)
     | Inr _ \<Rightarrow>
         let (req, w1) = wh_request t body w;
             start = now w1;
             (answer, w2) = Do lib (the (wh_Client t)) ctx req w1;
             duration = now w2 - start
         in case answer of
           Inl e \<Rightarrow>
             (([], 0, [], 0, Transport (safeWebhookError (Some e))),
              log_to (the (wh_Logger t)) LevelError ''webhook request failed''
                [(''duration'', AStr (rounded_string duration)), (''error'', AErr (the (safeWebhookError (Some e))))] w2)
         | Inr resp \<Rightarrow> wh_receive lib t resp duration w2)"

text \<open>A \<open>ctx\<close> that is nil is \<open>None\<close>.\<close>

definition wh_SendResult ::
  "'x http_lib \<Rightarrow> 'v \<Rightarrow> 'v webhook option \<Rightarrow> go_context option \<Rightarrow> 'v payload \<Rightarrow> 'x send_call" where
  "wh_SendResult lib nil_any t ctx p w = (case t of
       None \<Rightarrow> ((zero_result, Permanent (Some (ErrorString ''webhook target is nil''))), w)
     | Some t \<Rightarrow> (case ctx of
         None \<Rightarrow> ((zero_result, Permanent (Some (ErrorString ''context is nil''))), w)
       | Some ctx \<Rightarrow>
         let target = wh_applyDefaults t in
         (case wh_Render lib nil_any (Some target) p of
            Inl e \<Rightarrow> ((zero_result, Permanent (safeWebhookError (Some e))), w)
          | Inr body \<Rightarrow> (case wh_validateHeaders (wh_Headers target) w of
              (Some e, w1) \<Rightarrow> ((zero_result, Permanent (safeWebhookError (Some e))), w1)
            | (None, w1) \<Rightarrow> (case validateEndpoint lib (wh_Method target) (wh_URL target) of
                Some e \<Rightarrow> ((zero_result, Permanent (safeWebhookError (Some e))), w1)
              | None \<Rightarrow>
                  let ((status, code, response, retryAfter, err), w2) = wh_post lib target ctx body w1
                  in ((\<lparr>Status = status, StatusCode = code,
                        Response = truncateBody response (wh_ResponseBodyLimit target),
                        RetryAfter = retryAfter\<rparr>, err), w2))))))"

text \<open>The target as the delivery engine sees it; the engine never passes a nil context.\<close>

definition webhook_target :: "'x http_lib \<Rightarrow> 'v \<Rightarrow> 'v webhook option \<Rightarrow> ('v, 'x) target" where
  "webhook_target lib nil_any t =
     \<lparr>Type = ''webhook'', Send = (\<lambda>ctx p. wh_SendResult lib nil_any t (Some ctx) p)\<rparr>"

end
