(* ===== verification/Target_Contract.thy ===== *)
theory Target_Contract
  imports Retry Types
begin

text \<open>
  What the delivery core relies on in a target it retries: a send that cannot succeed for
  reasons of configuration or rendering fails with a permanent error and touches nothing.
  Every target of the library is an instance; the retry loop is the client.
\<close>

locale delivery_target =
  fixes send :: "go_context \<Rightarrow> 'v payload \<Rightarrow> 'x send_call"
    and ready :: "'v payload \<Rightarrow> bool"
  assumes refuses: "\<not> ready p \<Longrightarrow> ctx_Err ctx w = None \<Longrightarrow>
    \<exists>r e w'. send ctx p w = ((r, Permanent (Some e)), w') \<and> now w' = now w \<and> logs w' = logs w \<and> world w' = world w"
begin

lemma refused_once:
  assumes "\<not> ready p" and "ctx_Err ctx w = None" and "Policy cfg = Some pol" and "safe_policy pol"
  shows "\<exists>r e w'. withRetry ctx lg cfg (send ctx p) w = ((r, 1, Some e), w') \<and> IsPermanent (Some e) \<and>
    now w' = now w \<and> world w' = world w"
proof -
  let ?w1 = "first_state lg cfg w"
  have now1: "now ?w1 = now w" and world1: "world ?w1 = world w"
    by (simp_all add: first_state_def)
  have "ctx_Err ctx ?w1 = None" using assms(2) ctx_Err_cong[OF now1] by simp
  then obtain r e w' where s: "send ctx p ?w1 = ((r, Permanent (Some e)), w')"
    and w': "now w' = now ?w1" "world w' = world ?w1"
    using refuses[OF assms(1)] by blast
  have "ctx_Err ctx w' = None"
    using assms(2) ctx_Err_cong[of w' w ctx] w'(1) now1 by simp
  then have "withRetry ctx lg cfg (send ctx p) w = ((r, 1, Permanent (Some e)), w')"
    by (rule safe_policy.permanent_stops[OF assms(4) assms(2), where fn = "send ctx p", OF s assms(3)])
  moreover have "Permanent (Some e) \<noteq> None" and "IsPermanent (Permanent (Some e))" by simp_all
  ultimately show ?thesis using w' now1 world1 by (cases "Permanent (Some e)") auto
qed

end

end
