(* ===== verification/Webhook_Facts.thy ===== *)
theory Webhook_Facts
  imports Webhook Target_Contract Notebook
begin

text \<open>
  Lemmas on the webhook target: when a target is ready to send, which requests the client gets
  and what they carry, how responses are read, what is logged of them.
\<close>

section \<open>Readiness\<close>

text \<open>
  The configuration a send needs, without an order of checks: the templates render, every
  header is a token with a one-line value, the URL is absolute HTTP(S).
\<close>

definition valid_headers :: "(string \<times> string) list \<Rightarrow> bool" where
  "valid_headers hs \<longleftrightarrow> list_all (\<lambda>(n, v). ValidFieldName n \<and> \<not> ContainsNewline v) hs"

definition wh_valid_url :: "'x http_lib \<Rightarrow> 'v webhook \<Rightarrow> bool" where
  "wh_valid_url lib t = (case NewRequest lib (wh_Method t) (wh_URL t) of Inl _ \<Rightarrow> False
     | Inr (scheme, host) \<Rightarrow> (ToLower_is scheme ''http'' \<or> ToLower_is scheme ''https'') \<and> host \<noteq> [])"

definition wh_ready :: "'x http_lib \<Rightarrow> 'v \<Rightarrow> 'v webhook option \<Rightarrow> 'v payload \<Rightarrow> string option" where
  "wh_ready lib nil_any t p = (case map_option wh_applyDefaults t of None \<Rightarrow> None
     | Some t \<Rightarrow> (case wh_Render lib nil_any (Some t) p of Inl _ \<Rightarrow> None
         | Inr body \<Rightarrow> if valid_headers (wh_Headers t) \<and> wh_valid_url lib t then Some body else None))"

lemma valid_headers_perm: "set hs' = set hs \<Longrightarrow> valid_headers hs' = valid_headers hs"
  by (simp add: valid_headers_def list_all_iff)

lemma wh_validateHeaderName_None: "wh_validateHeaderName n = None \<longleftrightarrow> ValidFieldName n"
  by (simp add: wh_validateHeaderName_def ValidFieldName_def)

lemma wh_check_headers_None: "wh_check_headers hs = None \<longleftrightarrow> valid_headers hs"
  by (induction hs rule: wh_check_headers.induct)
    (auto simp: valid_headers_def wh_validateHeaderName_None[symmetric] wh_validateHeaderValue_def split: option.splits)

lemma wh_validateHeaders_None: "fst (wh_validateHeaders hs w) = None \<longleftrightarrow> valid_headers hs"
  using valid_headers_perm[OF set_map_range[of hs w]]
  by (simp add: wh_validateHeaders_def split_beta wh_check_headers_None)

lemma wh_validateHeaders_frame [simp]:
  "now (snd (wh_validateHeaders hs w)) = now w" "logs (snd (wh_validateHeaders hs w)) = logs w"
  "world (snd (wh_validateHeaders hs w)) = world w"
  by (simp_all add: wh_validateHeaders_def split_beta)

lemma safeWebhookError_None [simp]: "safeWebhookError err = None \<longleftrightarrow> err = None"
  by (simp add: safeWebhookError_def split: option.splits)

lemma validateEndpoint_None: "validateEndpoint lib (wh_Method t) (wh_URL t) = None \<longleftrightarrow> wh_valid_url lib t"
  by (auto simp: validateEndpoint_def wh_valid_url_def validateRequestURL_def split: sum.splits prod.splits)

lemma Some_safe: "\<exists>e'. safeWebhookError (Some e) = Some e'"
  using safeWebhookError_None[of "Some e"] by (cases "safeWebhookError (Some e)") auto

lemma wh_SendResult_not_ready:
  assumes "wh_ready lib nil_any t p = None"
  shows "\<exists>e w'. wh_SendResult lib nil_any t ctx p w = ((zero_result, Permanent (Some e)), w') \<and>
    now w' = now w \<and> logs w' = logs w \<and> world w' = world w"
proof (cases "t = None \<or> ctx = None")
  case True
  then show ?thesis by (auto simp: wh_SendResult_def split: option.splits)
next
  case False
  then obtain t0 c where tc: "t = Some t0" "ctx = Some c" by auto
  let ?t = "wh_applyDefaults t0"
  obtain err w1 where h: "wh_validateHeaders (wh_Headers ?t) w = (err, w1)" by fastforce
  have frame: "now w1 = now w" "logs w1 = logs w" "world w1 = world w"
    using wh_validateHeaders_frame[of "wh_Headers ?t" w] by (simp_all add: h)
  have hv: "err = None \<longleftrightarrow> valid_headers (wh_Headers ?t)"
    using wh_validateHeaders_None[of "wh_Headers ?t" w] by (simp add: h)
  show ?thesis
  proof (cases "wh_Render lib nil_any (Some ?t) p")
    case (Inl e)
    then show ?thesis using Some_safe[of e] by (auto simp: wh_SendResult_def tc Let_def)
  next
    case (Inr body)
    then have bad: "\<not> (valid_headers (wh_Headers ?t) \<and> wh_valid_url lib ?t)"
      using assms by (simp add: wh_ready_def tc split: if_splits)
    show ?thesis
    proof (cases err)
      case None
      then obtain e where e: "validateEndpoint lib (wh_Method ?t) (wh_URL ?t) = Some e"
        using bad hv validateEndpoint_None[of lib ?t] by auto
      then show ?thesis
        using None Inr Some_safe[of e] frame by (auto simp: wh_SendResult_def tc Let_def h)
    next
      case (Some e)
      then show ?thesis
        using Inr Some_safe[of e] frame by (auto simp: wh_SendResult_def tc Let_def h)
    qed
  qed
qed

interpretation webhook: delivery_target "\<lambda>ctx. wh_SendResult lib nil_any t (Some ctx)" "\<lambda>p. wh_ready lib nil_any t p \<noteq> None"
  by unfold_locales (use wh_SendResult_not_ready in fastforce)

section \<open>Sending\<close>

lemma wh_request_frame [simp]:
  "now (snd (wh_request t body w)) = now w" "logs (snd (wh_request t body w)) = logs w"
  "world (snd (wh_request t body w)) = world w"
  by (simp_all add: wh_request_def split_beta)

text \<open>A ready target sends exactly one request; the rest is what comes back.\<close>

lemma wh_SendResult_ready:
  assumes "wh_ready lib nil_any (Some t) p = Some body"
  shows "\<exists>w1. now w1 = now w \<and> logs w1 = logs w \<and> world w1 = world w \<and>
    wh_SendResult lib nil_any (Some t) (Some ctx) p w =
      (let t = wh_applyDefaults t;
           ((status, code, response, retryAfter, err), w2) = wh_post lib t ctx body w1
       in ((\<lparr>Status = status, StatusCode = code,
             Response = truncateBody response (wh_ResponseBodyLimit t), RetryAfter = retryAfter\<rparr>, err), w2))"
proof -
  let ?t = "wh_applyDefaults t"
  obtain err w1 where h: "wh_validateHeaders (wh_Headers ?t) w = (err, w1)" by fastforce
  have frame: "now w1 = now w" "logs w1 = logs w" "world w1 = world w"
    using wh_validateHeaders_frame[of "wh_Headers ?t" w] by (simp_all add: h)
  have r: "wh_Render lib nil_any (Some ?t) p = Inr body"
    and v: "valid_headers (wh_Headers ?t)" "wh_valid_url lib ?t"
    using assms by (auto simp: wh_ready_def split: sum.splits if_splits)
  have "err = None" using wh_validateHeaders_None[of "wh_Headers ?t" w] v by (simp add: h)
  then have "wh_SendResult lib nil_any (Some t) (Some ctx) p w =
      (let ((status, code, response, retryAfter, err), w2) = wh_post lib ?t ctx body w1
       in ((\<lparr>Status = status, StatusCode = code,
             Response = truncateBody response (wh_ResponseBodyLimit ?t), RetryAfter = retryAfter\<rparr>, err), w2))"
    using r v validateEndpoint_None[of lib ?t] h by (simp add: wh_SendResult_def Let_def)
  then show ?thesis using frame by (auto simp: Let_def)
qed

lemma wh_ready_NewRequest:
  "wh_ready lib nil_any (Some t) p = Some body \<Longrightarrow>
   \<exists>u. NewRequest lib (wh_Method (wh_applyDefaults t)) (wh_URL (wh_applyDefaults t)) = Inr u"
  by (auto simp: wh_ready_def wh_valid_url_def split: sum.splits if_splits)

text \<open>
  The request in the state where it is sent. \<open>sent_request\<close> and \<open>answered\<close> give the request and
  the server's answer to it, for a state that differs from the initial one only in the
  choices of the runtime.
\<close>

lemma wh_post_simp:
  assumes "NewRequest lib (wh_Method t) (wh_URL t) = Inr u" and "wh_request t body w = (req, w1)"
    and "Do lib (the (wh_Client t)) ctx req w1 = (a, w2)"
  shows "wh_post lib t ctx body w = (case a of
      Inl e \<Rightarrow> (([], 0, [], 0, Transport (safeWebhookError (Some e))),
         log_to (the (wh_Logger t)) LevelError ''webhook request failed''
           [(''duration'', AStr (rounded_string (now w2 - now w))), (''error'', AErr (the (safeWebhookError (Some e))))] w2)
    | Inr resp \<Rightarrow> wh_receive lib t resp (now w2 - now w) w2)"
proof -
  have "now w1 = now w" using wh_request_frame(1)[of t body w] by (simp add: assms(2))
  then show ?thesis using assms by (simp add: wh_post_def Let_def split: sum.splits)
qed

section \<open>Reading responses\<close>

definition body_limit :: "int \<Rightarrow> int" where
  "body_limit limit = (if limit \<le> 0 then 4096 else limit)"

lemma readResponseBody_Inr:
  assumes "readResponseBody (bytes, e) limit = Inr (text, truncated)" and "int64 limit"
  shows "text = TrimSpace (take (nat (body_limit limit)) bytes)"
    and "truncated \<longrightarrow> body_limit limit < int (length bytes)"
    and "limit < int64_max \<longrightarrow> truncated = (body_limit limit < int (length bytes))"
  using assms by (auto simp: readResponseBody_def read_limited_def Let_def body_limit_def int64_def
      min_def split: option.splits if_splits)

lemma readResponseBody_ok: "\<exists>shown tr. readResponseBody (bytes, None) limit = Inr (shown, tr)"
  by (auto simp: readResponseBody_def read_limited_def Let_def split: sum.split)

lemma readResponseBody_length:
  assumes "readResponseBody b limit = Inr (text, truncated)" and "int64 limit"
  shows "int (length text) \<le> body_limit limit"
proof -
  obtain bytes e where b: "b = (bytes, e)" by fastforce
  have "length text \<le> length (take (nat (body_limit limit)) bytes)"
    using readResponseBody_Inr(1)[OF assms[unfolded b]] length_TrimSpace by metis
  then have "length text \<le> nat (body_limit limit)" by simp
  moreover have "0 < body_limit limit" by (simp add: body_limit_def)
  ultimately show ?thesis by linarith
qed

text \<open>What \<open>SendResult\<close> truncates has been read within the limit already.\<close>

lemma truncateBody_id: "int (length body) \<le> body_limit limit \<Longrightarrow> truncateBody body limit = body"
  by (auto simp: truncateBody_def body_limit_def)

text \<open>What \<open>post\<close> makes of a response, case by case.\<close>

lemma wh_receive_outcome:
  assumes "wh_receive lib t resp d w = ((status, code, response, ra, e), v)"
  shows "world v = world w \<and> now v = now w \<and> status = Resp_Status resp \<and> code = Resp_StatusCode resp \<and>
    (case readResponseBody (Resp_Body resp) (wh_ResponseBodyLimit t) of
       Inl d \<Rightarrow> e = Transport (Some (read_failed d)) \<and> response = []
     | Inr (shown, truncated) \<Rightarrow> \<not> IsPermanent e \<and> \<not> IsTransport e \<and>
         (e = None \<longleftrightarrow> 200 \<le> Resp_StatusCode resp \<and> Resp_StatusCode resp < 300))"
proof -
  have "\<not> IsPermanent (Some (responseError a b)) \<and> \<not> IsTransport (Some (responseError a b))" for a b
    by (simp add: classification responseError_def)
  then show ?thesis
    using assms by (auto simp: wh_receive_def Let_def logSuccessfulResponse_def logFailedResponse_def
        split: sum.splits prod.splits if_splits)
qed

lemma wh_receive_read:
  "readResponseBody (Resp_Body resp) (wh_ResponseBodyLimit t) = Inr (b, tr) \<Longrightarrow>
   \<exists>s c ra e v. wh_receive lib t resp d w = ((s, c, b, ra, e), v)"
  by (auto simp: wh_receive_def Let_def)

section \<open>Headers of the request\<close>

lemma fold_header_Set:
  "fold (\<lambda>(name, v) h. header_Set h name v) hs h = maps_Copy h (map (\<lambda>(n, v). (canonical_key n, [v])) hs)"
  unfolding maps_Copy_def by (induction hs arbitrary: h) (auto simp: header_Set_def)

lemma request_header:
  assumes "distinct (map (canonical_key \<circ> fst) (wh_Headers t))"
  shows "map_get (Req_header (fst (wh_request t body w))) k =
    (case map_get (map (\<lambda>(n, v). (canonical_key n, [v])) (wh_Headers t)) k of
       Some v \<Rightarrow> Some v
     | None \<Rightarrow> if k = ''Content-Type'' then Some [''application/json; charset=utf-8''] else None)"
proof -
  let ?c = "map (\<lambda>(n, v). (canonical_key n, [v]))"
  obtain hs w1 where r: "map_range (wh_Headers t) w = (hs, w1)" by fastforce
  have perm: "mset hs = mset (wh_Headers t)" using mset_map_range[of "wh_Headers t" w] by (simp add: r)
  have ok: "map_ok (?c (wh_Headers t))"
    using assms by (simp add: map_ok_def comp_def split_beta)
  have perm': "mset (?c hs) = mset (?c (wh_Headers t))" using perm by (simp add: mset_map)
  have ct: "canonical_key ''Content-Type'' = ''Content-Type''" by code_simp
  have set0: "header_Set [] ''Content-Type'' v = [(''Content-Type'', [v])]" for v
    unfolding header_Set_def ct by (simp add: map_set_def)
  show ?thesis
    using map_get_maps_Copy[OF map_ok_perm[OF perm' ok], of "[(''Content-Type'', [''application/json; charset=utf-8''])]" k]
      map_get_perm[OF perm' ok]
    by (simp add: wh_request_def r fold_header_Set set0 split: option.splits)
qed

section \<open>Logs\<close>

text \<open>
  In a mode that logs no bodies, what is logged of a response depends on its status line, on
  the error that ends its body and on whether it was truncated.
\<close>

lemma fields_summary:
  "mode \<noteq> LogResponseBody \<Longrightarrow> mode \<noteq> LogResponseFull \<Longrightarrow> Resp_Status resp' = Resp_Status resp \<Longrightarrow>
   Resp_StatusCode resp' = Resp_StatusCode resp \<Longrightarrow>
   responseLogFields t resp' body' tr d mode = responseLogFields t resp body tr d mode"
  by (simp add: responseLogFields_def)

lemma summary_mode: "LogResponseSummary \<noteq> LogResponseBody" "LogResponseSummary \<noteq> LogResponseFull"
  by (simp_all add: LogResponseSummary_def LogResponseBody_def LogResponseFull_def)

definition same_to_log :: "int \<Rightarrow> http_response \<Rightarrow> http_response \<Rightarrow> bool" where
  "same_to_log limit resp resp' \<longleftrightarrow> Resp_Status resp' = Resp_Status resp \<and>
     Resp_StatusCode resp' = Resp_StatusCode resp \<and>
     map_sum id snd (readResponseBody (Resp_Body resp') limit) = map_sum id snd (readResponseBody (Resp_Body resp) limit)"

lemma wh_receive_logs:
  assumes "wh_LogResponse t \<noteq> LogResponseBody" and "wh_LogResponse t \<noteq> LogResponseFull"
    and "same_to_log (wh_ResponseBodyLimit t) resp resp'"
  shows "logs (snd (wh_receive lib t resp' d w)) = logs (snd (wh_receive lib t resp d w))"
proof -
  have s: "Resp_Status resp' = Resp_Status resp" "Resp_StatusCode resp' = Resp_StatusCode resp"
    and b: "map_sum id snd (readResponseBody (Resp_Body resp') (wh_ResponseBodyLimit t)) =
      map_sum id snd (readResponseBody (Resp_Body resp) (wh_ResponseBodyLimit t))"
    using assms(3) by (simp_all add: same_to_log_def)
  note f = fields_summary[OF summary_mode s, of t _ _ d]
  show ?thesis
  proof (cases "readResponseBody (Resp_Body resp) (wh_ResponseBodyLimit t)")
    case (Inl e)
    then have "readResponseBody (Resp_Body resp') (wh_ResponseBodyLimit t) = Inl e"
      using b by (cases "readResponseBody (Resp_Body resp') (wh_ResponseBodyLimit t)") auto
    then show ?thesis using Inl s by (simp add: wh_receive_def Let_def)
  next
    case (Inr x)
    obtain body tr where x: "x = (body, tr)" by fastforce
    obtain body' where "readResponseBody (Resp_Body resp') (wh_ResponseBodyLimit t) = Inr (body', tr)"
      using b Inr x by (cases "readResponseBody (Resp_Body resp') (wh_ResponseBodyLimit t)") auto
    then show ?thesis
      using Inr x s assms(1,2) f[of body' tr body]
      by (simp add: wh_receive_def Let_def logFailedResponse_def logSuccessfulResponse_def)
  qed
qed

lemma wh_post_logs:
  assumes "wh_LogResponse t \<noteq> LogResponseBody" and "wh_LogResponse t \<noteq> LogResponseFull"
    and "same_to_log (wh_ResponseBodyLimit t) resp resp'"
    and "lib' = lib\<lparr>Do := \<lambda>c ctx req w. (Inr resp', w\<lparr>now := now w + d\<rparr>)\<rparr>"
    and "lib0 = lib\<lparr>Do := \<lambda>c ctx req w. (Inr resp, w\<lparr>now := now w + d\<rparr>)\<rparr>"
  shows "logs (snd (wh_post lib' t ctx body w)) = logs (snd (wh_post lib0 t ctx body w))"
proof (cases "NewRequest lib (wh_Method t) (wh_URL t)")
  case (Inl e)
  then show ?thesis by (simp add: wh_post_def assms(4,5))
next
  case (Inr u)
  obtain req w1 where req: "wh_request t body w = (req, w1)" by fastforce
  have u: "NewRequest lib' (wh_Method t) (wh_URL t) = Inr u" "NewRequest lib0 (wh_Method t) (wh_URL t) = Inr u"
    using Inr by (simp_all add: assms(4,5))
  have do: "Do lib' (the (wh_Client t)) ctx req w1 = (Inr resp', w1\<lparr>now := now w1 + d\<rparr>)"
    "Do lib0 (the (wh_Client t)) ctx req w1 = (Inr resp, w1\<lparr>now := now w1 + d\<rparr>)"
    by (simp_all add: assms(4,5))
  have retry: "parseRetryAfter lib' v k = parseRetryAfter lib0 v k" for v k
    by (simp add: parseRetryAfter_def Let_def assms(4,5) split: option.split)
  have "wh_receive lib' t resp' k v = wh_receive lib0 t resp' k v" for k v
    unfolding wh_receive_def retry ..
  then show ?thesis
    using wh_receive_logs[OF assms(1-3)]
    by (simp add: wh_post_simp[OF u(1) req do(1)] wh_post_simp[OF u(2) req do(2)])
qed

section \<open>The request's values\<close>

lemma map_set_all: "list_all P (map_set k v m)" if "P (k, v)" and "list_all P m"
proof -
  have "set (AList.update k v m) \<subseteq> insert (k, v) (set m)"
    by (induction m) auto
  then show ?thesis using that by (auto simp: list_all_iff map_set_def)
qed

lemma request_header_lines:
  assumes "valid_headers (wh_Headers t)"
  shows "list_all (\<lambda>(n, vs). list_all (\<lambda>v. \<not> ContainsNewline v) vs) (Req_header (fst (wh_request t body w)))"
proof -
  let ?P = "\<lambda>(n, vs). list_all (\<lambda>v. \<not> ContainsNewline v) vs"
  have fold: "valid_headers hs \<Longrightarrow> list_all ?P h \<Longrightarrow> list_all ?P (fold (\<lambda>(name, v) h. header_Set h name v) hs h)" for hs h
    by (induction hs arbitrary: h) (auto simp: valid_headers_def header_Set_def map_set_all)
  have init: "list_all ?P (header_Set [] ''Content-Type'' ''application/json; charset=utf-8'')"
    by (simp add: header_Set_def map_set_def ContainsNewline_iff)
  show ?thesis
    using fold[OF _ init, of "fst (map_range (wh_Headers t) w)"] assms
      valid_headers_perm[OF set_map_range[of "wh_Headers t" w]]
    by (simp add: wh_request_def split_beta)
qed

section \<open>The requests made\<close>

text \<open>An HTTP client that writes down the requests it is given.\<close>

type_synonym requests = "(http_client \<times> http_request) list"

definition noting :: "'x http_lib \<Rightarrow> ('x \<times> requests) http_lib" where
  "noting lib = \<lparr>NewRequest = NewRequest lib, json_Valid = json_Valid lib, ParseTime = ParseTime lib,
     Do = (\<lambda>c ctx req w. let (a, w1) = Do lib c ctx req (without w) in (a, beside (snd (world w) @ [(c, req)]) w1))\<rparr>"

lemma noting_params [simp]:
  "NewRequest (noting lib) = NewRequest lib" "json_Valid (noting lib) = json_Valid lib"
  "ParseTime (noting lib) = ParseTime lib"
  by (simp_all add: noting_def)

lemma noting_Do [simp]: "Do (noting lib) c ctx req (beside ns w) = map_prod id (beside (ns @ [(c, req)])) (Do lib c ctx req w)"
  by (cases "Do lib c ctx req w") (simp add: noting_def)

lemma noting_same [simp]:
  "wh_Render (noting lib) = wh_Render lib" "validateEndpoint (noting lib) = validateEndpoint lib"
  "parseRetryAfter (noting lib) = parseRetryAfter lib"
  by (intro ext, simp only: noting_params wh_Render_def validateEndpoint_def parseRetryAfter_def)+

lemma wh_validateHeaders_beside: "wh_validateHeaders hs (beside ns w) = map_prod id (beside ns) (wh_validateHeaders hs w)"
  by (simp add: wh_validateHeaders_def map_range_beside split_beta)

lemma wh_request_beside: "wh_request t body (beside ns w) = map_prod id (beside ns) (wh_request t body w)"
  by (simp add: wh_request_def map_range_beside split_beta Let_def)

lemma wh_receive_beside: "wh_receive (noting lib) t resp d (beside ns w) = map_prod id (beside ns) (wh_receive lib t resp d w)"
  by (simp add: wh_receive_def Let_def logFailedResponse_def logSuccessfulResponse_def split: sum.split)

lemma wh_post_noting:
  assumes "NewRequest lib (wh_Method t) (wh_URL t) = Inr u"
  shows "wh_post (noting lib) t ctx body (beside ns w) =
    map_prod id (beside (ns @ [(the (wh_Client t), fst (wh_request t body w))])) (wh_post lib t ctx body w)"
  using assms
  by (simp add: wh_post_def wh_request_beside wh_receive_beside Let_def split_beta split: sum.split)

text \<open>A whole send: one request if the target is ready, none otherwise.\<close>

lemma wh_SendResult_noting:
  "wh_SendResult (noting lib) nil_any (Some t) (Some ctx) p (beside [] w) =
    map_prod id (beside (case wh_ready lib nil_any (Some t) p of
        None \<Rightarrow> []
      | Some body \<Rightarrow> [(the (wh_Client (wh_applyDefaults t)),
          fst (wh_request (wh_applyDefaults t) body (snd (wh_validateHeaders (wh_Headers t) w))))]))
      (wh_SendResult lib nil_any (Some t) (Some ctx) p w)"
proof -
  let ?t = "wh_applyDefaults t"
  have same: "wh_Headers ?t = wh_Headers t" by (simp add: wh_applyDefaults_def)
  obtain err w1 where h: "wh_validateHeaders (wh_Headers t) w = (err, w1)" by fastforce
  have hv: "err = None \<longleftrightarrow> valid_headers (wh_Headers t)"
    using wh_validateHeaders_None[of "wh_Headers t" w] by (simp add: h)
  show ?thesis
  proof (cases "wh_Render lib nil_any (Some ?t) p")
    case (Inl e)
    then show ?thesis by (simp add: wh_SendResult_def wh_ready_def Let_def)
  next
    case (Inr body)
    show ?thesis
    proof (cases "err = None \<and> validateEndpoint lib (wh_Method ?t) (wh_URL ?t) = None")
      case True
      then have ready: "wh_ready lib nil_any (Some t) p = Some body"
        using Inr hv validateEndpoint_None[of lib ?t] same by (simp add: wh_ready_def)
      obtain u where u: "NewRequest lib (wh_Method ?t) (wh_URL ?t) = Inr u"
        using wh_ready_NewRequest[OF ready] by blast
      show ?thesis
        using True Inr
        by (simp add: wh_SendResult_def ready same h wh_validateHeaders_beside wh_post_noting[OF u] Let_def split_beta)
    next
      case False
      then have "wh_ready lib nil_any (Some t) p = None"
        using Inr hv validateEndpoint_None[of lib ?t] same by (auto simp: wh_ready_def)
      then show ?thesis
        using False Inr
        by (auto simp: wh_SendResult_def same h wh_validateHeaders_beside Let_def split: option.splits)
    qed
  qed
qed

end
