(* ===== verification/Webhook_Properties.thy ===== *)
theory Webhook_Properties
  imports Webhook_Facts
begin

text \<open>
  The properties of the webhook target. The witnesses use a small server: it records the
  requests it gets and answers after 7 ms.
\<close>

section \<open>A server to test with\<close>

definition demo_response :: http_response where
  "demo_response = \<lparr>Resp_Status = ''503 Service Unavailable'', Resp_StatusCode = 503,
     Resp_Header = [(''Retry-After'', [''2''])], Resp_Body = (''busy'', None)\<rparr>"

definition demo_http :: "http_request list http_lib" where
  "demo_http = \<lparr>NewRequest = (\<lambda>m u. if HasPrefix u ''https://'' then Inr (''https'', ''example.org'')
       else Inl (UrlError ''parse'' u (ErrorString ''missing scheme''))),
     json_Valid = (\<lambda>s. True), ParseTime = (\<lambda>s. None),
     Do = (\<lambda>c ctx req w. (Inr demo_response, w\<lparr>now := now w + 7000000, world := req # world w\<rparr>))\<rparr>"

definition demo_webhook :: "string webhook" where
  "demo_webhook = zero_webhook\<lparr>wh_URL := ''https://example.org/secret'', wh_Headers := [(''x-key'', ''k'')],
     wh_Template := Some (Template (Some Inr)), wh_TitleTmpl := Some (StringTemplate (Some (\<lambda>_. Inr ''T'')))\<rparr>"

definition demo_payload :: "string payload" where
  "demo_payload = \<lparr>Notification = Some \<lparr>NotificationID = ''n1'', NotificationData = (\<lambda>r c s. ''to '' @ s), Router = None\<rparr>,
     PayloadReceiver = ''ops'', PayloadCustomData = None\<rparr>"

definition demo_state :: "http_request list runtime" where
  "demo_state = \<lparr>now = 0, entropy = [], logs = [], world = []\<rparr>"

lemmas demo_defs = demo_webhook_def demo_http_def demo_payload_def demo_state_def demo_response_def

lemma demo_ready_limit:
  "wh_ready demo_http [] (Some (demo_webhook\<lparr>wh_ResponseBodyLimit := l\<rparr>)) demo_payload = Some ''to T''"
proof -
  have "TrimSpace ''to T'' = ''to T''" by (rule TrimSpace_ascii) (simp_all add: is_space_def)
  then show ?thesis
    by (simp add: wh_ready_def wh_applyDefaults_def wh_Render_def wh_valid_url_def valid_headers_def
        ValidFieldName_bytes ValidFieldNameChar_def ContainsNewline_iff ToLower_is_def lower_rune_def
        execute_template_def Payload_Data_def zero_webhook_def demo_defs)
qed

lemma demo_ready: "wh_ready demo_http [] (Some demo_webhook) demo_payload = Some ''to T''"
  using demo_ready_limit[of 0] by (simp add: demo_webhook_def zero_webhook_def)

lemma demo_read: "readResponseBody (Resp_Body demo_response) 4096 = Inr (''busy'', False)"
proof -
  have "TrimSpace ''busy'' = ''busy''" by (rule TrimSpace_ascii) (simp_all add: is_space_def)
  then show ?thesis by (simp add: readResponseBody_def read_limited_def demo_response_def)
qed

lemma demo_limit: "wh_ResponseBodyLimit (wh_applyDefaults demo_webhook) = 4096"
  by (simp add: wh_applyDefaults_def demo_webhook_def zero_webhook_def)

section \<open>The outcome of a send\<close>

text \<open>
  C22: a webhook target that is not ready (its templates do not render, a header is not a
  token with a one-line value, the URL is not an absolute HTTP(S) URL) fails permanently and
  sends, logs and waits for nothing. A ready one makes exactly one request, with its method,
  its URL and the rendered body, and the answer decides: no answer and an unreadable body are
  transport failures, a readable body with a status in 200..299 is success, and any other
  status is an error that is neither permanent nor transport, so that the policy decides.
\<close>

theorem webhook_outcome:
  assumes "wh_SendResult lib nil_any (Some t) (Some ctx) p w = ((r, e), w')"
    and "target = wh_applyDefaults t"
  shows "case wh_ready lib nil_any (Some t) p of
      None \<Rightarrow> r = zero_result \<and> IsPermanent e \<and> now w' = now w \<and> logs w' = logs w \<and> world w' = world w
    | Some body \<Rightarrow> \<exists>req w1 a w2.
        now w1 = now w \<and> logs w1 = logs w \<and> world w1 = world w \<and>
        Req_method req = wh_Method target \<and> Req_url req = wh_URL target \<and> Req_body req = body \<and>
        Do lib (the (wh_Client target)) ctx req w1 = (a, w2) \<and> world w' = world w2 \<and> now w' = now w2 \<and>
        (case a of
           Inl d \<Rightarrow> r = zero_result \<and> e = Transport (safeWebhookError (Some d))
         | Inr resp \<Rightarrow> Status r = Resp_Status resp \<and> StatusCode r = Resp_StatusCode resp \<and>
             (case readResponseBody (Resp_Body resp) (wh_ResponseBodyLimit target) of
                Inl d \<Rightarrow> e = Transport (Some (read_failed d)) \<and> Response r = []
              | Inr (text, truncated) \<Rightarrow> \<not> IsPermanent e \<and> \<not> IsTransport e \<and>
                  (e = None \<longleftrightarrow> 200 \<le> Resp_StatusCode resp \<and> Resp_StatusCode resp < 300)))"
proof (cases "wh_ready lib nil_any (Some t) p")
  case None
  then show ?thesis
    using wh_SendResult_not_ready[OF None, of "Some ctx" w] assms(1) by auto
next
  case (Some body)
  obtain w0 where w0: "now w0 = now w" "logs w0 = logs w" "world w0 = world w"
    and run: "wh_SendResult lib nil_any (Some t) (Some ctx) p w =
      (let ((status, code, response, retryAfter, err), w2) = wh_post lib target ctx body w0
       in ((\<lparr>Status = status, StatusCode = code,
             Response = truncateBody response (wh_ResponseBodyLimit target), RetryAfter = retryAfter\<rparr>, err), w2))"
    using wh_SendResult_ready[OF Some, of w ctx] assms(2) by (auto simp: Let_def)
  obtain u where u: "NewRequest lib (wh_Method target) (wh_URL target) = Inr u"
    using wh_ready_NewRequest[OF Some] assms(2) by blast
  obtain req w1 where req: "wh_request target body w0 = (req, w1)" by fastforce
  obtain a w2 where do: "Do lib (the (wh_Client target)) ctx req w1 = (a, w2)" by fastforce
  have w1: "now w1 = now w" "logs w1 = logs w" "world w1 = world w"
    using wh_request_frame[of target body w0] w0 by (simp_all add: req)
  have parts: "Req_method req = wh_Method target \<and> Req_url req = wh_URL target \<and> Req_body req = body"
    using req by (auto simp: wh_request_def split: prod.splits)
  have trunc: "truncateBody [] l = []" for l by (auto simp: truncateBody_def)
  show ?thesis
  proof (cases a)
    case (Inl d)
    then show ?thesis
      using run[symmetric] assms(1) w1 parts do trunc unfolding wh_post_simp[OF u req do] Some option.case
      by - (rule exI[of _ req], rule exI[of _ w1], rule exI[of _ a], rule exI[of _ w2], auto simp: zero_result_def)
  next
    case (Inr resp)
    obtain status code response ra e' v where
      v: "wh_receive lib target resp (now w2 - now w0) w2 = ((status, code, response, ra, e'), v)"
      by (cases "wh_receive lib target resp (now w2 - now w0) w2") auto
    have post: "wh_post lib target ctx body w0 = ((status, code, response, ra, e'), v)"
      using wh_post_simp[OF u req do] Inr v by simp
    have "Status r = status \<and> StatusCode r = code \<and> Response r = truncateBody response (wh_ResponseBodyLimit target) \<and>
        e = e' \<and> w' = v"
      using run assms(1) post by auto
    then show ?thesis
      using wh_receive_outcome[OF v] w1 parts do trunc Inr unfolding Some option.case
      by - (rule exI[of _ req], rule exI[of _ w1], rule exI[of _ a], rule exI[of _ w2], auto split: sum.splits)
  qed
qed

lemma webhook_outcome_witness:
  "\<exists>r e w'. wh_SendResult demo_http [] (Some demo_webhook) (Some Background) demo_payload demo_state = ((r, e), w') \<and>
     StatusCode r = 503 \<and> e \<noteq> None \<and> \<not> IsTransport e"
proof -
  obtain r e w' where run: "wh_SendResult demo_http [] (Some demo_webhook) (Some Background) demo_payload demo_state = ((r, e), w')"
    by (metis surj_pair)
  obtain req w1 a w2 where do: "Do demo_http (the (wh_Client (wh_applyDefaults demo_webhook))) Background req w1 = (a, w2)"
    and out: "case a of Inl d \<Rightarrow> r = zero_result \<and> e = Transport (safeWebhookError (Some d))
       | Inr resp \<Rightarrow> Status r = Resp_Status resp \<and> StatusCode r = Resp_StatusCode resp \<and>
         (case readResponseBody (Resp_Body resp) 4096 of
            Inl d \<Rightarrow> e = Transport (Some (read_failed d)) \<and> Response r = []
          | Inr (text, truncated) \<Rightarrow> \<not> IsPermanent e \<and> \<not> IsTransport e \<and>
              (e = None \<longleftrightarrow> 200 \<le> Resp_StatusCode resp \<and> Resp_StatusCode resp < 300))"
    using webhook_outcome[OF run refl] unfolding demo_ready option.case demo_limit by blast
  have "a = Inr demo_response" using do by (simp add: demo_http_def)
  then have "StatusCode r = 503 \<and> e \<noteq> None \<and> \<not> IsTransport e"
    using out by (simp add: demo_read) (simp add: demo_response_def)
  then show ?thesis using run by blast
qed

text \<open>
  C23: a send of a ready target hands its client exactly one request, with the target's method
  and URL and the rendered, trimmed body; the request carries every configured header under its
  canonical name and, unless the target sets one, the JSON content type; nothing else, and no
  value with a line break. The requests are those a client finds in its notes, which change
  nothing else. Header names that differ only in case are excluded: which of their values is
  sent is left to the order in which the map is walked.
\<close>

theorem webhook_request:
  assumes "wh_ready lib nil_any (Some t) p = Some body" and "target = wh_applyDefaults t"
    and "distinct (map (canonical_key \<circ> fst) (wh_Headers t))"
    and "wh_SendResult lib nil_any (Some t) (Some ctx) p w = ((r, e), w')"
  shows "\<exists>req. wh_SendResult (noting lib) nil_any (Some t) (Some ctx) p (beside [] w) =
      ((r, e), beside [(the (wh_Client target), req)] w') \<and>
    Req_method req = wh_Method target \<and> Req_url req = wh_URL target \<and>
    Req_body req = body \<and> wh_Render lib nil_any (Some target) p = Inr body \<and>
    (\<forall>k. map_get (Req_header req) k =
      (case map_get (map (\<lambda>(n, v). (canonical_key n, [v])) (wh_Headers t)) k of
         Some v \<Rightarrow> Some v
       | None \<Rightarrow> if k = ''Content-Type'' then Some [''application/json; charset=utf-8''] else None)) \<and>
    list_all (\<lambda>(n, vs). list_all (\<lambda>v. \<not> ContainsNewline v) vs) (Req_header req)"
proof -
  let ?w1 = "snd (wh_validateHeaders (wh_Headers t) w)"
  let ?req = "fst (wh_request target body ?w1)"
  have same: "wh_Headers target = wh_Headers t" by (simp add: assms(2) wh_applyDefaults_def)
  have ok: "valid_headers (wh_Headers t)" "wh_Render lib nil_any (Some target) p = Inr body"
    using assms(1,2) same by (auto simp: wh_ready_def split: sum.splits if_splits)
  have "wh_SendResult (noting lib) nil_any (Some t) (Some ctx) p (beside [] w) =
      ((r, e), beside [(the (wh_Client target), ?req)] w')"
    using wh_SendResult_noting[of lib nil_any t ctx p w] assms(1,2,4) by simp
  moreover have "Req_method ?req = wh_Method target \<and> Req_url ?req = wh_URL target \<and> Req_body ?req = body"
    by (simp add: wh_request_def split_beta)
  moreover have "\<forall>k. map_get (Req_header ?req) k =
      (case map_get (map (\<lambda>(n, v). (canonical_key n, [v])) (wh_Headers t)) k of
         Some v \<Rightarrow> Some v
       | None \<Rightarrow> if k = ''Content-Type'' then Some [''application/json; charset=utf-8''] else None)"
    using request_header[of target body ?w1] assms(3) same by simp
  moreover have "list_all (\<lambda>(n, vs). list_all (\<lambda>v. \<not> ContainsNewline v) vs) (Req_header ?req)"
    using request_header_lines[of target body ?w1] ok(1) same by simp
  ultimately show ?thesis using ok(2) by (intro exI[of _ ?req]) blast
qed

lemma webhook_request_witness:
  "\<exists>out client req w'. wh_SendResult (noting demo_http) [] (Some demo_webhook) (Some Background) demo_payload (beside [] demo_state) =
       (out, beside [(client, req)] w') \<and>
     Req_method req = ''POST'' \<and> Req_url req = ''https://example.org/secret'' \<and> Req_body req = ''to T'' \<and>
     map_get (Req_header req) ''X-Key'' = Some [''k''] \<and>
     map_get (Req_header req) ''Content-Type'' = Some [''application/json; charset=utf-8'']"
proof -
  obtain r e w' where run: "wh_SendResult demo_http [] (Some demo_webhook) (Some Background) demo_payload demo_state = ((r, e), w')"
    by (metis surj_pair)
  have c: "canonical_key ''x-key'' = ''X-Key''" by code_simp
  have d: "distinct (map (canonical_key \<circ> fst) (wh_Headers demo_webhook))"
    by (simp add: demo_webhook_def)
  obtain req where sent: "wh_SendResult (noting demo_http) [] (Some demo_webhook) (Some Background) demo_payload (beside [] demo_state) =
      ((r, e), beside [(the (wh_Client (wh_applyDefaults demo_webhook)), req)] w')"
    and req: "Req_method req = wh_Method (wh_applyDefaults demo_webhook)" "Req_url req = wh_URL (wh_applyDefaults demo_webhook)"
      "Req_body req = ''to T''"
    and header: "\<forall>k. map_get (Req_header req) k =
      (case map_get (map (\<lambda>(n, v). (canonical_key n, [v])) (wh_Headers demo_webhook)) k of
         Some v \<Rightarrow> Some v
       | None \<Rightarrow> if k = ''Content-Type'' then Some [''application/json; charset=utf-8''] else None)"
    using webhook_request[OF demo_ready refl d run] by blast
  have "Req_method req = ''POST''" "Req_url req = ''https://example.org/secret''"
    using req by (simp_all add: wh_applyDefaults_def demo_webhook_def zero_webhook_def cmp_Or_def)
  moreover have "map_get (Req_header req) ''X-Key'' = Some [''k'']"
    "map_get (Req_header req) ''Content-Type'' = Some [''application/json; charset=utf-8'']"
    using spec[OF header, of "''X-Key''"] spec[OF header, of "''Content-Type''"] by (simp_all add: demo_webhook_def c)
  ultimately show ?thesis using sent req(3) by blast
qed

section \<open>Secrets\<close>

definition serving :: "http_response \<Rightarrow> int \<Rightarrow> 'x http_lib \<Rightarrow> 'x http_lib" where
  "serving resp d lib = lib\<lparr>Do := (\<lambda>c ctx req w. (Inr resp, w\<lparr>now := now w + d\<rparr>))\<rparr>"

text \<open>
  C24: unless the target logs bodies, two servers whose answers have the same status line, whose
  bodies end with the same read error or none, and of which both are truncated at the limit or
  neither is, leave the same log: beyond these three facts it depends neither on the body nor on
  the headers of the response.
\<close>

theorem webhook_logs_hide_responses:
  assumes "wh_LogResponse t \<noteq> LogResponseBody" and "wh_LogResponse t \<noteq> LogResponseFull"
    and "same_to_log (wh_ResponseBodyLimit (wh_applyDefaults t)) resp resp'"
  shows "logs (snd (wh_SendResult (serving resp' d lib) nil_any (Some t) ctx p w)) =
    logs (snd (wh_SendResult (serving resp d lib) nil_any (Some t) ctx p w))"
proof -
  let ?t = "wh_applyDefaults t"
  have mode: "wh_LogResponse ?t \<noteq> LogResponseBody" "wh_LogResponse ?t \<noteq> LogResponseFull"
    using assms(1,2) summary_mode by (simp_all add: wh_applyDefaults_def cmp_Or_def)
  have params: "json_Valid (serving r d lib) = json_Valid lib" "NewRequest (serving r d lib) = NewRequest lib" for r
    by (simp_all add: serving_def)
  have lib: "wh_Render (serving r d lib) = wh_Render lib" "validateEndpoint (serving r d lib) = validateEndpoint lib" for r
    by (intro ext, simp only: params wh_Render_def validateEndpoint_def)+
  have post: "logs (snd (wh_post (serving resp' d lib) ?t c body v)) = logs (snd (wh_post (serving resp d lib) ?t c body v))" for c body v
    by (rule wh_post_logs[OF mode assms(3)]) (simp_all add: serving_def)
  show ?thesis
    by (simp add: wh_SendResult_def lib Let_def split_beta post split: option.split sum.split)
qed

lemma webhook_logs_hide_responses_witness:
  "logs (snd (wh_SendResult (serving (demo_response\<lparr>Resp_Body := (''other'', None), Resp_Header := []\<rparr>) 3 demo_http) []
       (Some demo_webhook) (Some Background) demo_payload demo_state)) =
   logs (snd (wh_SendResult (serving demo_response 3 demo_http) [] (Some demo_webhook) (Some Background) demo_payload demo_state))"
proof (rule webhook_logs_hide_responses)
  have "TrimSpace ''other'' = ''other''" by (rule TrimSpace_ascii) (simp_all add: is_space_def)
  then show "same_to_log (wh_ResponseBodyLimit (wh_applyDefaults demo_webhook)) demo_response
      (demo_response\<lparr>Resp_Body := (''other'', None), Resp_Header := []\<rparr>)"
    unfolding same_to_log_def demo_limit demo_read by (simp add: readResponseBody_def read_limited_def)
qed (simp_all add: demo_webhook_def zero_webhook_def LogResponseBody_def LogResponseFull_def)

section \<open>What the delivery core reads of a response\<close>

text \<open>
  C25: a \<open>Retry-After\<close> value always gives a delay between 0 and the largest duration. Decimal
  seconds that fit into 64 bits give that many seconds, saturating at the largest duration.
  Larger numbers do not saturate: like any other value they are taken for a date, and give 0 if
  they are none. The delay of a date is the time left until it, 0 if it is past.
\<close>

theorem retry_after_header:
  "0 \<le> parseRetryAfter lib v at \<and> parseRetryAfter lib v at \<le> int64_max \<and>
   (int64 n \<and> 0 \<le> n \<and> TrimSpace v = Itoa n \<longrightarrow> parseRetryAfter lib v at = min int64_max (n * Second)) \<and>
   (int64_max < n \<and> TrimSpace v = Itoa n \<and> ParseTime lib (Itoa n) = None \<longrightarrow> parseRetryAfter lib v at = 0) \<and>
   (TrimSpace v \<noteq> [] \<and> retry_seconds (TrimSpace v) = None \<longrightarrow>
      parseRetryAfter lib v at = (case ParseTime lib (TrimSpace v) of None \<Rightarrow> 0
        | Some d \<Rightarrow> max 0 (min int64_max (d - at))))"
proof -
  have wrap: "wrap64 (m * Second) = m * Second \<and> m * Second \<le> int64_max" if "0 \<le> m" "m \<le> int64_max div Second" for m
    using that by (auto intro!: wrap64_id simp: int64_def)
  have date: "(let wait = time_Sub d at in if wait \<le> 0 then 0 else wait) = max 0 (min int64_max (d - at))" for d
    by (simp add: time_Sub_def Let_def)
  have sec: "0 \<le> m \<and> m \<le> int64_max" if "retry_seconds s = Some m" for s m
    using that wrap by (auto simp: retry_seconds_def split: option.splits if_splits)
  have itoa: "retry_seconds (Itoa n) = Some (min int64_max (n * Second))" if "int64 n" "0 \<le> n"
  proof (cases "int64_max div Second < n")
    case True
    then have "int64_max < n * Second" by linarith
    then show ?thesis using that True by (simp add: retry_seconds_def ParseInt_Itoa min_def)
  next
    case False
    then show ?thesis using that wrap[of n] by (simp add: retry_seconds_def ParseInt_Itoa min_def)
  qed
  have bounds: "0 \<le> parseRetryAfter lib v at \<and> parseRetryAfter lib v at \<le> int64_max"
    unfolding parseRetryAfter_def Let_def[of "TrimSpace v"] date
    using sec by (auto split: option.splits)
  moreover have "retry_seconds (Itoa n) = None" if "int64_max < n"
    using that by (simp add: retry_seconds_def ParseInt_Itoa_nonneg int64_def)
  moreover have "Itoa n \<noteq> []" by (simp add: Itoa_def)
  ultimately show ?thesis
    using itoa unfolding parseRetryAfter_def Let_def[of "TrimSpace v"] date by simp
qed

lemma retry_after_header_witness:
  "parseRetryAfter demo_http ''2'' 0 = 2 * Second \<and> parseRetryAfter demo_http ''99999999999999999999'' 0 = 0 \<and>
   parseRetryAfter (demo_http\<lparr>ParseTime := (\<lambda>s. Some 100)\<rparr>) ''soon'' 70 = 30"
proof -
  have itoa: "Itoa 2 = ''2''" and large: "Itoa 99999999999999999999 = ''99999999999999999999''"
    by (simp_all add: Itoa_def digits.simps[of "numeral k" for k] char_of_def bit_0)
  have t: "TrimSpace ''2'' = Itoa 2" unfolding itoa by (rule TrimSpace_ascii) (simp_all add: is_space_def)
  have l: "TrimSpace ''99999999999999999999'' = Itoa 99999999999999999999"
    unfolding large by (rule TrimSpace_ascii) (simp_all add: is_space_def)
  have s: "TrimSpace ''soon'' = ''soon''" by (rule TrimSpace_ascii) (simp_all add: is_space_def)
  have none: "ParseTime demo_http s = None" for s by (simp add: demo_http_def)
  have "retry_seconds ''soon'' = None" by (simp add: retry_seconds_def ParseInt_def is_digit_def)
  then show ?thesis
    using retry_after_header[of demo_http "''2''" 0 2]
      retry_after_header[of demo_http "''99999999999999999999''" 0 99999999999999999999] l none
      retry_after_header[of "demo_http\<lparr>ParseTime := (\<lambda>s. Some 100)\<rparr>" "''soon''" 70 0] t s
    by (simp add: int64_def)
qed

text \<open>
  C26: the response a send reports is the body's prefix within the limit (4096 bytes when the
  limit is not positive), trimmed: it is never longer than the limit, and what \<open>truncateBody\<close> would cut off has been cut off before.
\<close>

theorem webhook_response_bounded:
  assumes "int64 (wh_ResponseBodyLimit t)" and "Resp_Body resp = (bytes, None)"
    and "wh_ready lib nil_any (Some t) p = Some body"
    and "wh_SendResult (serving resp d lib) nil_any (Some t) (Some ctx) p w = ((r, e), w')"
    and "limit = body_limit (wh_ResponseBodyLimit t)"
  shows "Response r = TrimSpace (take (nat limit) bytes) \<and> int (length (Response r)) \<le> limit"
proof -
  let ?t = "wh_applyDefaults t" and ?lib = "serving resp d lib"
  have params: "json_Valid ?lib = json_Valid lib" "NewRequest ?lib = NewRequest lib"
    by (simp_all add: serving_def)
  have ready: "wh_ready ?lib nil_any (Some t) p = Some body"
    using assms(3) unfolding wh_ready_def wh_valid_url_def wh_Render_def params .
  have L: "body_limit (wh_ResponseBodyLimit ?t) = limit" "int64 (wh_ResponseBodyLimit ?t)"
    using assms(1,5) by (simp_all add: wh_applyDefaults_def cmp_Or_def body_limit_def int64_def)
  obtain shown tr where read: "readResponseBody (Resp_Body resp) (wh_ResponseBodyLimit ?t) = Inr (shown, tr)"
    using readResponseBody_ok unfolding assms(2) by blast
  have shown: "shown = TrimSpace (take (nat limit) bytes)" and len: "int (length shown) \<le> limit"
    using readResponseBody_Inr(1)[of bytes None "wh_ResponseBodyLimit ?t" shown tr]
      readResponseBody_length[OF read L(2)] read assms(2) L by simp_all
  obtain w0 where run: "wh_SendResult ?lib nil_any (Some t) (Some ctx) p w =
      (let ((status, code, response, retryAfter, err), w2) = wh_post ?lib ?t ctx body w0
       in ((\<lparr>Status = status, StatusCode = code,
             Response = truncateBody response (wh_ResponseBodyLimit ?t), RetryAfter = retryAfter\<rparr>, err), w2))"
    using wh_SendResult_ready[OF ready, of w ctx] by (auto simp: Let_def)
  obtain u where u: "NewRequest ?lib (wh_Method ?t) (wh_URL ?t) = Inr u"
    using wh_ready_NewRequest[OF ready] by blast
  obtain req w1 where req: "wh_request ?t body w0 = (req, w1)" by fastforce
  have do: "Do ?lib (the (wh_Client ?t)) ctx req w1 = (Inr resp, w1\<lparr>now := now w1 + d\<rparr>)"
    by (simp add: serving_def)
  obtain status code ra e' v where recv:
    "wh_receive ?lib ?t resp (now w1 + d - now w0) (w1\<lparr>now := now w1 + d\<rparr>) = ((status, code, shown, ra, e'), v)"
    using wh_receive_read[OF read] by blast
  have "Response r = truncateBody shown (wh_ResponseBodyLimit ?t)"
    using run assms(4) recv unfolding wh_post_simp[OF u req do] by auto
  then have r: "Response r = shown" using truncateBody_id[of shown "wh_ResponseBodyLimit ?t"] len L(1) by simp
  then show ?thesis using r shown len by simp
qed

lemma webhook_response_bounded_witness:
  "\<exists>r e w'. wh_SendResult (serving (demo_response\<lparr>Resp_Body := (''too long'', None)\<rparr>) 1 demo_http) []
     (Some (demo_webhook\<lparr>wh_ResponseBodyLimit := 3\<rparr>)) (Some Background) demo_payload demo_state = ((r, e), w') \<and>
     Response r = ''too''"
proof -
  let ?t = "demo_webhook\<lparr>wh_ResponseBodyLimit := 3\<rparr>" and ?resp = "demo_response\<lparr>Resp_Body := (''too long'', None)\<rparr>"
  obtain r e w' where run: "wh_SendResult (serving ?resp 1 demo_http) [] (Some ?t) (Some Background) demo_payload demo_state = ((r, e), w')"
    by (metis surj_pair)
  have "TrimSpace ''too'' = ''too''" by (rule TrimSpace_ascii) (simp_all add: is_space_def)
  then show ?thesis
    using webhook_response_bounded[OF _ _ demo_ready_limit run refl] run by (simp add: int64_def body_limit_def)
qed

end
