(* ===== verification/Go_Mime.thy ===== *)
theory Go_Mime
  imports Go_Net
begin

text \<open>
  \<open>mime.QEncoding.Encode\<close> for UTF-8 (RFC 2047 encoded words) with the decoder of a mail
  client: the encoder splits its input into words of at most 75 characters, never inside a
  rune.
\<close>

definition needsEncoding :: "string \<Rightarrow> bool" where
  "needsEncoding s \<longleftrightarrow> list_ex (\<lambda>c. (byte c < 32 \<or> 126 < byte c) \<and> byte c \<noteq> 9) s"

definition q_plain :: "char \<Rightarrow> bool" where
  "q_plain c \<longleftrightarrow> 33 \<le> byte c \<and> byte c \<le> 126 \<and> c \<noteq> CHR ''='' \<and> c \<noteq> CHR ''?'' \<and> c \<noteq> CHR ''_''"

definition upperhex :: "nat \<Rightarrow> char" where
  "upperhex k = char_of (if k < 10 then 48 + k else 55 + k)"

definition hex_value :: "char \<Rightarrow> nat" where
  "hex_value c = (if byte c < 58 then byte c - 48 else byte c - 55)"

text \<open>One byte, as \<open>writeQString\<close> prints it.\<close>

definition q_char :: "char \<Rightarrow> string" where
  "q_char c = (if c = CHR '' '' then ''_'' else if q_plain c then [c]
     else [CHR ''='', upperhex (byte c div 16), upperhex (byte c mod 16)])"

definition q_string :: "string \<Rightarrow> string" where
  "q_string s = concat (map q_char s)"

text \<open>The encoded length \<open>qEncode\<close> reserves for the next rune, and the rune's width.\<close>

definition q_width :: "string \<Rightarrow> nat \<times> nat" where
  "q_width s = (if s \<noteq> [] \<and> (hd s = CHR '' '' \<or> q_plain (hd s)) then (1, 1)
     else (snd (decode_rune s), 3 * snd (decode_rune s)))"

definition word_limit :: nat where
  "word_limit = 63"

fun push :: "string \<Rightarrow> string list \<Rightarrow> string list" where
  "push x [] = [x]"
| "push x (y # ys) = (x @ y) # ys"

text \<open>
  The loop of \<open>qEncode\<close>: the part of the input in each word, \<open>used\<close> being the encoded length
  of the current word.
\<close>

fun q_split :: "nat \<Rightarrow> string \<Rightarrow> string list" where
  "q_split used [] = [[]]"
| "q_split used (c # cs) =
     (let (n, e) = q_width (c # cs);
          rest = q_split (if word_limit < used + e then e else used + e) (drop (n - 1) cs);
          here = push (take n (c # cs)) rest
      in if word_limit < used + e then [] # here else here)"

definition open_word :: string where
  "open_word = ''=?UTF-8?q?''"

definition close_word :: string where
  "close_word = ''?=''"

definition encode_words :: "string list \<Rightarrow> string" where
  "encode_words ws = strings_Join (map (\<lambda>w. open_word @ q_string w @ close_word) ws) '' ''"

definition QEncode :: "string \<Rightarrow> string" where
  "QEncode s = (if needsEncoding s then encode_words (q_split 0 s) else s)"

section \<open>The reader's side\<close>

fun q_decode :: "string \<Rightarrow> string" where
  "q_decode [] = []"
| "q_decode (c # s) =
     (if c = CHR ''_'' then CHR '' '' # q_decode s
      else if c = CHR ''='' then (case s of
          h # l # s' \<Rightarrow> char_of (16 * hex_value h + hex_value l) # q_decode s'
        | _ \<Rightarrow> [])
      else c # q_decode s)"

fun split_on :: "char \<Rightarrow> string \<Rightarrow> string list" where
  "split_on d [] = [[]]"
| "split_on d (c # s) = (if c = d then [] # split_on d s else push [c] (split_on d s))"

text \<open>White space between two encoded words does not count (RFC 2047, section 6.2).\<close>

definition decode_words :: "string \<Rightarrow> string" where
  "decode_words s = concat (map (\<lambda>w. q_decode (TrimSuffix (TrimPrefix w open_word) close_word)) (split_on (CHR '' '') s))"

section \<open>Lemmas\<close>

lemma concat_push [simp]: "concat (push x ys) = x @ concat ys"
  by (cases ys) auto

lemma push_not_Nil [simp]: "push x ys \<noteq> []"
  by (cases ys) auto

lemma q_width_bounds: "s \<noteq> [] \<Longrightarrow> 1 \<le> fst (q_width s) \<and> fst (q_width s) \<le> length s"
  using decode_rune_width[of s] by (auto simp: q_width_def Suc_le_eq)

lemma q_split_not_Nil [simp]: "q_split used s \<noteq> []"
  by (cases s) (auto simp: Let_def split: prod.splits)

lemma q_split_Cons:
  assumes "q_width (c # cs) = (n, e)"
  shows "q_split used (c # cs) =
    (if word_limit < used + e then [] # push (take n (c # cs)) (q_split e (drop (n - 1) cs))
     else push (take n (c # cs)) (q_split (used + e) (drop (n - 1) cs)))"
  using assms by simp

declare q_split.simps(2) [simp del]

lemma concat_q_split: "concat (q_split used s) = s"
proof (induction "length s" arbitrary: s used rule: less_induct)
  case less
  show ?case
  proof (cases s)
    case (Cons c cs)
    obtain n e where w: "q_width (c # cs) = (n, e)" by fastforce
    have n: "1 \<le> n" using q_width_bounds[of "c # cs"] w by simp
    have "concat (q_split u (drop (n - 1) cs)) = drop (n - 1) cs" for u
      by (rule less) (simp add: Cons)
    then show ?thesis
      using n unfolding Cons q_split_Cons[OF w] by (cases n) auto
  qed simp
qed

lemma length_q_char: "length (q_char c) \<le> 3 \<and> (c = CHR '' '' \<or> q_plain c \<longrightarrow> length (q_char c) = 1)"
  by (simp add: q_char_def)

lemma length_q_string: "length (q_string s) \<le> 3 * length s"
proof (induction s)
  case (Cons c s)
  then show ?case using length_q_char[of c] by (simp add: q_string_def)
qed (simp add: q_string_def)

lemma length_q_string_take: "s \<noteq> [] \<Longrightarrow> length (q_string (take (fst (q_width s)) s)) \<le> snd (q_width s)"
proof -
  assume s: "s \<noteq> []"
  show ?thesis
  proof (cases "hd s = CHR '' '' \<or> q_plain (hd s)")
    case True
    then show ?thesis using s length_q_char[of "hd s"] by (cases s) (auto simp: q_width_def q_string_def)
  next
    case False
    then show ?thesis
      using length_q_string[of "take (fst (q_width s)) s"] by (auto simp: q_width_def)
  qed
qed

text \<open>No word is longer than the limit, counting what is already in the current one.\<close>

lemma q_width_limit: "s \<noteq> [] \<Longrightarrow> snd (q_width s) \<le> 12"
proof -
  have "snd (decode_tail b bs) \<le> 4" for b bs
    by (induction b bs rule: decode_tail.induct) (auto split: list.splits)
  then have "snd (decode_rune s) \<le> 4" by (cases s) auto
  then show ?thesis by (simp add: q_width_def)
qed

lemma q_string_append [simp]: "q_string (s @ t) = q_string s @ q_string t"
  by (simp add: q_string_def)

lemma q_split_limit:
  "used \<le> word_limit \<Longrightarrow> length (q_string (hd (q_split used s))) + used \<le> word_limit \<and>
     (\<forall>w \<in> set (tl (q_split used s)). length (q_string w) \<le> word_limit)"
proof (induction "length s" arbitrary: s used rule: less_induct)
  case less
  show ?case
  proof (cases s)
    case (Cons c cs)
    obtain n e where w: "q_width (c # cs) = (n, e)" by fastforce
    have e: "e \<le> word_limit" using q_width_limit[of "c # cs"] w by (simp add: word_limit_def)
    have len: "length (q_string (take n (c # cs))) \<le> e"
      using length_q_string_take[of "c # cs"] w by simp
    let ?u = "if word_limit < used + e then e else used + e"
    obtain y ys where r: "q_split ?u (drop (n - 1) cs) = y # ys"
      by (cases "q_split ?u (drop (n - 1) cs)") auto
    have IH: "length (q_string y) + ?u \<le> word_limit \<and> (\<forall>w \<in> set ys. length (q_string w) \<le> word_limit)"
      using less.hyps[of "drop (n - 1) cs" ?u] e r by (simp add: Cons split: if_splits)
    show ?thesis
      using IH len r less.prems unfolding Cons q_split_Cons[OF w]
      by (auto simp: q_string_def[of "[]"] split: if_splits)
  qed (use less in \<open>simp add: q_string_def\<close>)
qed

lemma byte_high: "byte c div 16 < 16"
  using byte_less[of c] by linarith

lemma byte_upperhex: "k < 16 \<Longrightarrow> byte (upperhex k) = (if k < 10 then 48 + k else 55 + k)"
  unfolding upperhex_def by (rule byte_char_of) simp

lemma hex_upperhex [simp]: "k < 16 \<Longrightarrow> hex_value (upperhex k) = k"
  by (simp add: hex_value_def byte_upperhex)

lemma q_decode_char: "q_decode (q_char c @ s) = c # q_decode s"
proof -
  have "byte c div 16 < 16" by (rule byte_high)
  then show ?thesis by (auto simp: q_char_def q_plain_def)
qed

lemma q_decode_string: "q_decode (q_string s) = s"
proof -
  have "q_decode (q_string s @ t) = s @ q_decode t" for t
    by (induction s) (simp_all add: q_string_def q_decode_char)
  from this[of "[]"] show ?thesis by simp
qed

definition printable :: "char \<Rightarrow> bool" where
  "printable c \<longleftrightarrow> 33 \<le> byte c \<and> byte c \<le> 126"

lemma q_char_printable: "d \<in> set (q_char c) \<Longrightarrow> printable d"
proof -
  have "byte c div 16 < 16" by (rule byte_high)
  then show "d \<in> set (q_char c) \<Longrightarrow> printable d"
    by (auto simp: q_char_def q_plain_def printable_def byte_upperhex split: if_splits)
qed

lemma q_string_printable: "d \<in> set (q_string s) \<Longrightarrow> printable d"
  by (auto simp: q_string_def q_char_printable)

lemma word_printable: "d \<in> set (open_word @ q_string w @ close_word) \<Longrightarrow> printable d"
  by (auto simp: open_word_def close_word_def printable_def q_string_printable[unfolded printable_def])

lemma split_on_word: "d \<notin> set w \<Longrightarrow> split_on d (w @ d # s) = w # split_on d s"
  by (induction w) auto

lemma split_on_last: "d \<notin> set w \<Longrightarrow> split_on d w = [w]"
  by (induction w) auto

lemma split_on_Join:
  "ws \<noteq> [] \<Longrightarrow> (\<And>w. w \<in> set ws \<Longrightarrow> d \<notin> set w) \<Longrightarrow> split_on d (strings_Join ws [d]) = ws"
  by (induction ws "[d]" rule: strings_Join.induct) (auto simp: split_on_word split_on_last)

lemma decode_encode_words: "ws \<noteq> [] \<Longrightarrow> decode_words (encode_words ws) = concat ws"
proof -
  assume ws: "ws \<noteq> []"
  let ?vs = "map (\<lambda>w. open_word @ q_string w @ close_word) ws"
  have "CHR '' '' \<notin> set v" if "v \<in> set ?vs" for v
    using that word_printable[of "CHR '' ''"] unfolding printable_def by fastforce
  then have "split_on (CHR '' '') (strings_Join ?vs '' '') = ?vs"
    by (intro split_on_Join) (use ws in auto)
  then show ?thesis
    by (simp add: decode_words_def encode_words_def comp_def q_decode_string)
qed

lemma encode_words_line: "c \<in> set (encode_words ws) \<Longrightarrow> printable c \<or> c = CHR '' ''"
  using set_strings_Join[of "map (\<lambda>w. open_word @ q_string w @ close_word) ws" "'' ''"] word_printable
  by (fastforce simp: encode_words_def)

end
