(* ===== verification/Email.thy ===== *)
theory Email
  imports Types Header Templates Go_Time Go_Mime
begin

text \<open>
  \<open>targets/email/email.go\<close> without the network: the email target, its options and defaults,
  validation, rendering and the message it builds.

  \<open>net/mail\<close> is a parameter: \<open>mail.ParseAddress\<close> yields the mailbox's address and what its
  \<open>String\<close> method prints, or \<open>None\<close> for an error.
\<close>

section \<open>The target\<close>

definition TLSRequired :: string where "TLSRequired = ''starttls''"
definition TLSImplicit :: string where "TLSImplicit = ''implicit''"
definition TLSPlaintext :: string where "TLSPlaintext = ''plaintext''"
definition BodyHTML :: string where "BodyHTML = ''html''"
definition BodyText :: string where "BodyText = ''text''"

lemmas email_constants = TLSRequired_def TLSImplicit_def TLSPlaintext_def BodyHTML_def BodyText_def

record 'v email =
  em_TLSMode :: string
  em_BodyFormat :: string
  em_Name :: string
  em_Host :: string
  em_Port :: int
  em_User :: string
  em_Pass :: string
  em_From :: string
  em_To :: "string list"
  em_CC :: "string list"
  em_BCC :: "string list"
  em_Headers :: "(string, string) go_map"
  em_SkipTLSVerify :: bool
  em_DialTimeout :: int
  em_Timeout :: int
  em_ProxyFromEnvironment :: bool
  em_Template :: "'v renderer option"
  em_SubjectTmpl :: "'v string_template option"

definition zero_email :: "'v email" where
  "zero_email = \<lparr>em_TLSMode = [], em_BodyFormat = [], em_Name = [], em_Host = [], em_Port = 0, em_User = [],
     em_Pass = [], em_From = [], em_To = [], em_CC = [], em_BCC = [], em_Headers = [], em_SkipTLSVerify = False,
     em_DialTimeout = 0, em_Timeout = 0, em_ProxyFromEnvironment = False, em_Template = None, em_SubjectTmpl = None\<rparr>"

definition em_applyDefaults :: "'v email \<Rightarrow> 'v email" where
  "em_applyDefaults t =
     (let mode = cmp_Or [] (em_TLSMode t) TLSRequired
      in t\<lparr>em_TLSMode := mode,
           em_BodyFormat := cmp_Or [] (em_BodyFormat t) BodyHTML,
           em_Port := (if em_Port t = 0 then if mode = TLSImplicit then 465 else 587 else em_Port t),
           em_Timeout := (if em_Timeout t \<le> 0 then 30 * Second else em_Timeout t),
           em_DialTimeout := (if em_DialTimeout t \<le> 0 then 10 * Second else em_DialTimeout t)\<rparr>)"

type_synonym 'v email_option = "('v email \<Rightarrow> 'v email) option"

definition em_New :: "'v email_option list \<Rightarrow> 'v email" where
  "em_New opts = em_applyDefaults (apply_opts opts zero_email)"

definition em_NewFromTarget :: "'v email \<Rightarrow> 'v email_option list \<Rightarrow> 'v email" where
  "em_NewFromTarget target opts = em_applyDefaults (apply_opts opts target)"

definition em_WithTLSMode :: "string \<Rightarrow> 'v email_option" where
  "em_WithTLSMode mode = Some (\<lambda>t. t\<lparr>em_TLSMode := mode\<rparr>)"

definition em_WithBodyFormat :: "string \<Rightarrow> 'v email_option" where
  "em_WithBodyFormat format = Some (\<lambda>t. t\<lparr>em_BodyFormat := format\<rparr>)"

definition em_WithName :: "string \<Rightarrow> 'v email_option" where
  "em_WithName name = Some (\<lambda>t. t\<lparr>em_Name := name\<rparr>)"

definition em_WithHost :: "string \<Rightarrow> 'v email_option" where
  "em_WithHost host = Some (\<lambda>t. t\<lparr>em_Host := host\<rparr>)"

definition em_WithPort :: "int \<Rightarrow> 'v email_option" where
  "em_WithPort port = Some (\<lambda>t. t\<lparr>em_Port := port\<rparr>)"

definition em_WithCredentials :: "string \<Rightarrow> string \<Rightarrow> 'v email_option" where
  "em_WithCredentials user pass = Some (\<lambda>t. t\<lparr>em_User := user, em_Pass := pass\<rparr>)"

definition em_WithFrom :: "string \<Rightarrow> 'v email_option" where
  "em_WithFrom from_addr = Some (\<lambda>t. t\<lparr>em_From := from_addr\<rparr>)"

definition em_WithTo :: "string list \<Rightarrow> 'v email_option" where
  "em_WithTo recipients = Some (\<lambda>t. t\<lparr>em_To := recipients\<rparr>)"

definition em_WithCC :: "string list \<Rightarrow> 'v email_option" where
  "em_WithCC recipients = Some (\<lambda>t. t\<lparr>em_CC := recipients\<rparr>)"

definition em_WithBCC :: "string list \<Rightarrow> 'v email_option" where
  "em_WithBCC recipients = Some (\<lambda>t. t\<lparr>em_BCC := recipients\<rparr>)"

definition em_WithHeaders :: "(string, string) go_map \<Rightarrow> 'v email_option" where
  "em_WithHeaders headers = Some (\<lambda>t. if headers = [] then t
     else t\<lparr>em_Headers := maps_Copy (em_Headers t) headers\<rparr>)"

definition em_WithHeader :: "string \<Rightarrow> string \<Rightarrow> 'v email_option" where
  "em_WithHeader name v = em_WithHeaders [(name, v)]"

definition em_WithSkipTLSVerify :: "'v email_option" where
  "em_WithSkipTLSVerify = Some (\<lambda>t. t\<lparr>em_SkipTLSVerify := True\<rparr>)"

definition em_WithDialTimeout :: "int \<Rightarrow> 'v email_option" where
  "em_WithDialTimeout timeout = Some (\<lambda>t. t\<lparr>em_DialTimeout := timeout\<rparr>)"

definition em_WithTimeout :: "int \<Rightarrow> 'v email_option" where
  "em_WithTimeout timeout = Some (\<lambda>t. t\<lparr>em_Timeout := timeout\<rparr>)"

definition em_WithProxyFromEnvironment :: "'v email_option" where
  "em_WithProxyFromEnvironment = Some (\<lambda>t. t\<lparr>em_ProxyFromEnvironment := True\<rparr>)"

definition em_WithTemplate :: "'v renderer option \<Rightarrow> 'v email_option" where
  "em_WithTemplate tmpl = Some (\<lambda>t. t\<lparr>em_Template := tmpl\<rparr>)"

definition em_WithSubjectTemplate :: "'v string_template option \<Rightarrow> 'v email_option" where
  "em_WithSubjectTemplate tmpl = Some (\<lambda>t. t\<lparr>em_SubjectTmpl := tmpl\<rparr>)"

section \<open>Mailboxes and headers\<close>

record mailbox =
  Address :: string
  mailbox_String :: string

type_synonym parse_address = "string \<Rightarrow> mailbox option"

definition parseMailbox :: "parse_address \<Rightarrow> string \<Rightarrow> go_error + mailbox" where
  "parseMailbox ParseAddress v =
     (if ContainsNewline v then Inl (ErrorString ''address must not contain newline characters'')
      else case ParseAddress (TrimSpace v) of
        None \<Rightarrow> Inl (ErrorString ''address must be a single mailbox'')
      | Some m \<Rightarrow> if Address m = [] then Inl (ErrorString ''address must be a single mailbox'') else Inr m)"

definition em_validateHeaderName :: "string \<Rightarrow> go_error option" where
  "em_validateHeaderName name =
     (if name = [] then Some (ErrorString ''email header name must not be empty'')
      else if TrimSpace name \<noteq> name
      then Some (Errorf ''email header %q must not have leading or trailing whitespace'' [Quo name] None)
      else if \<not> ValidFieldName name
      then Some (Errorf ''email header %q contains invalid character'' [Quo name] None)
      else None)"

definition reserved_names :: "string list" where
  "reserved_names = [''from'', ''to'', ''cc'', ''bcc'', ''subject'', ''mime-version'', ''content-type'',
     ''content-transfer-encoding'']"

definition isReservedHeader :: "string \<Rightarrow> bool" where
  "isReservedHeader name \<longleftrightarrow> list_ex (ToLower_is name) reserved_names"

definition em_validateHeaderValue :: "string \<Rightarrow> string \<Rightarrow> go_error option" where
  "em_validateHeaderValue name v =
     (if ContainsNewline v
      then Some (Errorf ''email header %q value must not contain newline characters'' [Quo name] None)
      else None)"

fun em_check_headers :: "(string \<times> string) list \<Rightarrow> go_error option" where
  "em_check_headers [] = None"
| "em_check_headers ((name, v) # hs) =
     (case em_validateHeaderName name of Some e \<Rightarrow> Some e
      | None \<Rightarrow>
          if isReservedHeader name then Some (Errorf ''email header %q is reserved'' [Quo name] None)
          else (case em_validateHeaderValue name v of Some e \<Rightarrow> Some e | None \<Rightarrow> em_check_headers hs))"

definition em_validateHeaders :: "(string, string) go_map \<Rightarrow> 'x runtime \<Rightarrow> go_error option \<times> 'x runtime" where
  "em_validateHeaders headers w = (let (hs, w1) = map_range headers w in (em_check_headers hs, w1))"

definition envelopeRecipients :: "string list \<Rightarrow> string list \<Rightarrow> string list \<Rightarrow> string list" where
  "envelopeRecipients to_list cc bcc = to_list @ cc @ bcc"

fun check_recipients :: "parse_address \<Rightarrow> string list \<Rightarrow> go_error option" where
  "check_recipients pa [] = None"
| "check_recipients pa (r # rs) = (case parseMailbox pa r of
     Inl e \<Rightarrow> Some (Errorf ''email recipient: %w'' [] (Some e)) | Inr _ \<Rightarrow> check_recipients pa rs)"

definition validateSMTPConfig ::
  "parse_address \<Rightarrow> 'v email \<Rightarrow> 'x runtime \<Rightarrow> go_error option \<times> 'x runtime" where
  "validateSMTPConfig pa t w =
     (let rcpts = envelopeRecipients (em_To t) (em_CC t) (em_BCC t) in
      if em_TLSMode t \<notin> {[], TLSRequired, TLSImplicit, TLSPlaintext} then (Some (ErrorString ''invalid SMTP TLS mode''), w)
      else if em_BodyFormat t \<notin> {[], BodyHTML, BodyText} then (Some (ErrorString ''invalid email body format''), w)
      else if em_TLSMode t = TLSPlaintext \<and> (em_User t \<noteq> [] \<or> em_Pass t \<noteq> [])
      then (Some (ErrorString ''SMTP credentials require TLS''), w)
      else if TrimSpace (em_Host t) = [] then (Some (ErrorString ''email host is required''), w)
      else if em_Port t \<le> 0 then (Some (ErrorString ''email port must be greater than zero''), w)
      else if 65535 < em_Port t then (Some (ErrorString ''email port must not exceed 65535''), w)
      else if TrimSpace (em_From t) = [] then (Some (ErrorString ''email from address is required''), w)
      else if rcpts = [] then (Some (ErrorString ''email recipient is required''), w)
      else case parseMailbox pa (em_From t) of
        Inl e \<Rightarrow> (Some (Errorf ''email from: %w'' [] (Some e)), w)
      | Inr _ \<Rightarrow> (case check_recipients pa rcpts of
          Some e \<Rightarrow> (Some e, w)
        | None \<Rightarrow> em_validateHeaders (em_Headers t) w))"

section \<open>Rendering\<close>

record message =
  Subject :: string
  Body :: string

definition em_Render :: "'v \<Rightarrow> 'v email option \<Rightarrow> 'v payload \<Rightarrow> go_error + message" where
  "em_Render nil_any target p = (case target of
       None \<Rightarrow> Inl (ErrorString ''email target is nil'')
     | Some t \<Rightarrow> (case em_Template t of
         None \<Rightarrow> Inl (ErrorString ''email template is nil'')
       | Some tmpl \<Rightarrow>
         if em_SubjectTmpl t = None then Inl (ErrorString ''email subject template is nil'')
         else (case StringTemplate_Render (em_SubjectTmpl t) (Payload_Data nil_any p []) of
             Inl e \<Rightarrow> Inl (Errorf ''render email subject: %w'' [] (Some e))
           | Inr subject \<Rightarrow> (case em_validateHeaderValue ''Subject'' subject of
               Some e \<Rightarrow> Inl e
             | None \<Rightarrow> (case tmpl (Payload_Data nil_any p subject) of
                 Inl e \<Rightarrow> Inl (Errorf ''render email template: %w'' [] (Some e))
               | Inr body \<Rightarrow> Inr \<lparr>Subject = subject, Body = body\<rparr>)))))"

definition em_Validate ::
  "parse_address \<Rightarrow> 'v \<Rightarrow> 'v email option \<Rightarrow> 'v payload \<Rightarrow> 'x runtime \<Rightarrow> go_error option \<times> 'x runtime" where
  "em_Validate pa nil_any t p w = (case t of
       None \<Rightarrow> (Some (ErrorString ''email target is nil''), w)
     | Some t \<Rightarrow>
         let target = em_applyDefaults t in
         (case em_Render nil_any (Some target) p of
            Inl e \<Rightarrow> (Some e, w)
          | Inr _ \<Rightarrow> validateSMTPConfig pa target w))"

section \<open>The message\<close>

abbreviation CR :: char where "CR \<equiv> CHR 0x0D"
abbreviation LF :: char where "LF \<equiv> CHR 0x0A"
abbreviation crlf :: string where "crlf \<equiv> [CR, LF]"

definition bodyContentType :: "string \<Rightarrow> string" where
  "bodyContentType format = (if format = BodyText then ''text/plain'' else ''text/html'')"

definition formatMailbox :: "parse_address \<Rightarrow> string \<Rightarrow> string" where
  "formatMailbox pa v = (case parseMailbox pa v of Inl _ \<Rightarrow> v | Inr m \<Rightarrow> mailbox_String m)"

definition formatMailboxes :: "parse_address \<Rightarrow> string list \<Rightarrow> string" where
  "formatMailboxes pa vs = strings_Join (map (formatMailbox pa) vs) '', ''"

definition isASCII :: "string \<Rightarrow> bool" where
  "isASCII v \<longleftrightarrow> list_all (\<lambda>character. \<not> 127 < character) (runes v)"

definition encodeSubject :: "string \<Rightarrow> string" where
  "encodeSubject v = (if isASCII v then v else QEncode v)"

definition normalizeBody :: "string \<Rightarrow> string" where
  "normalizeBody body =
     (let body = ReplaceAll body crlf [LF];
          body = ReplaceAll body [CR] [LF]
      in ReplaceAll body [LF] crlf)"

text \<open>The keys are sorted as Go compares strings, bytewise.\<close>

definition appendHeaders :: "string list \<Rightarrow> (string, string) go_map \<Rightarrow> string list" where
  "appendHeaders lines headers =
     (if headers = [] then lines
      else lines @ map (\<lambda>name. name @ '': '' @ the (map_get headers name)) (sort (map fst headers)))"

definition standard_headers :: "parse_address \<Rightarrow> 'v email \<Rightarrow> string \<Rightarrow> string list" where
  "standard_headers pa t subject =
     [''From: '' @ formatMailbox pa (em_From t), ''To: '' @ formatMailboxes pa (em_To t),
      ''Subject: '' @ encodeSubject subject, ''MIME-Version: 1.0'',
      ''Content-Type: '' @ bodyContentType (em_BodyFormat t) @ ''; charset=utf-8'',
      ''Content-Transfer-Encoding: 8bit'']"

definition email_headers :: "parse_address \<Rightarrow> 'v email \<Rightarrow> string \<Rightarrow> string list" where
  "email_headers pa t subject =
     appendHeaders (standard_headers pa t subject @
       (if em_CC t \<noteq> [] then [''Cc: '' @ formatMailboxes pa (em_CC t)] else [])) (em_Headers t)"

definition buildEmail :: "parse_address \<Rightarrow> 'v email \<Rightarrow> string \<Rightarrow> string \<Rightarrow> string" where
  "buildEmail pa t subject body =
     (let lines = filter (\<lambda>line. TrimSpace line \<noteq> []) (email_headers pa t subject);
          normalized = normalizeBody body
      in concat (map (\<lambda>line. line @ crlf) lines) @ crlf @ normalized @
         (if HasSuffix normalized crlf then [] else crlf))"

end
