(* ===== verification/Network.thy ===== *)
theory Network
  imports Go_Runtime
begin

text \<open>
  What the email target does on the network, as a conversation: commands it sends to its
  peer (a proxy or an SMTP server, reached through \<open>net\<close>, \<open>crypto/tls\<close>, \<open>net/http\<close> and
  \<open>net/smtp\<close>) and the answers it gets. An answer is an error or a success, and takes some
  time. Steps that may fail are composed with \<open>andThen\<close>, which is the early return of
  \<open>if err != nil\<close>.
\<close>

section \<open>Commands and answers\<close>

text \<open>
  \<open>DialTCP\<close> is \<open>DialContext\<close> with its dialer's timeout, \<open>TLSHandshake\<close> is \<open>HandshakeContext\<close> of
  a client with the given server name and \<open>InsecureSkipVerify\<close>, both with their context;
  \<open>SetDeadline\<close> sets the moment at which reading and writing the connection fails,
  \<open>ClearDeadline\<close> removes it; \<open>StartTLS\<close> is the SMTP command with the same
  configuration, \<open>EndOfData\<close> closing the writer of \<open>Data\<close>, which waits for the server to
  accept the message. From \<open>WatchContext\<close> to \<open>StopWatch\<close> a goroutine closes the connection when
  the context is done. \<open>CloseClient\<close> closes the connection through the SMTP client.
\<close>

datatype command =
    DialTCP string int go_context
  | TLSHandshake string bool go_context
  | SetDeadline int
  | ClearDeadline
  | WriteConnect string
  | ReadConnectResponse
  | Greeting string
  | Hello string
  | StartTLS string bool
  | AuthPlain string string
  | Quit
  | MailFrom string
  | RcptTo string
  | Data
  | WriteMessage string
  | EndOfData
  | WatchContext go_context
  | StopWatch
  | CloseClient
  | CloseConn

text \<open>
  What an operation may read of a success: the status code and the status line of the
  proxy's response, the extensions the server announced.
\<close>

datatype answer = Answer (answer_code: int) (answer_status: string) (answer_extensions: "string list")

type_synonym reply = "go_error + answer"

text \<open>The network of a world of type \<open>'x\<close>.\<close>

type_synonym 'x network = "command \<Rightarrow> 'x runtime \<Rightarrow> reply \<times> 'x runtime"

section \<open>Steps that may fail\<close>

type_synonym ('a, 'x) io = "'x runtime \<Rightarrow> (go_error + 'a) \<times> 'x runtime"

definition succeed :: "'a \<Rightarrow> ('a, 'x) io" where
  "succeed a w = (Inr a, w)"

definition fail :: "go_error \<Rightarrow> ('a, 'x) io" where
  "fail e w = (Inl e, w)"

definition andThen :: "('a, 'x) io \<Rightarrow> ('a \<Rightarrow> ('b, 'x) io) \<Rightarrow> ('b, 'x) io" where
  "andThen m k w = (case m w of (Inl e, w1) \<Rightarrow> (Inl e, w1) | (Inr a, w1) \<Rightarrow> k a w1)"

definition map_error :: "(go_error \<Rightarrow> go_error) \<Rightarrow> ('a, 'x) io \<Rightarrow> ('a, 'x) io" where
  "map_error f m w = (case m w of (Inl e, w1) \<Rightarrow> (Inl (f e), w1) | (Inr a, w1) \<Rightarrow> (Inr a, w1))"

text \<open>\<open>if err := ctx.Err(); err != nil { return err }\<close>.\<close>

definition check_ctx :: "go_context \<Rightarrow> (unit, 'x) io" where
  "check_ctx ctx w = (case ctx_Err ctx w of Some e \<Rightarrow> (Inl e, w) | None \<Rightarrow> (Inr (), w))"

text \<open>A deferred call whose result is ignored.\<close>

definition finally_do :: "'x network \<Rightarrow> command \<Rightarrow> ('a, 'x) io \<Rightarrow> ('a, 'x) io" where
  "finally_do net c m w = (let (r, w1) = m w; (_, w2) = net c w1 in (r, w2))"

definition ignore_error :: "('a, 'x) io \<Rightarrow> (unit, 'x) io" where
  "ignore_error m w = (Inr (), snd (m w))"

text \<open>\<open>_ = conn.Close()\<close> before each return of an error.\<close>

definition close_on_error :: "'x network \<Rightarrow> ('a, 'x) io \<Rightarrow> ('a, 'x) io" where
  "close_on_error net m w = (case m w of
     (Inl e, w1) \<Rightarrow> (Inl e, snd (net CloseConn w1)) | (Inr a, w1) \<Rightarrow> (Inr a, w1))"

lemma succeed_simp [simp]: "succeed a w = (Inr a, w)"
  by (simp add: succeed_def)

lemma fail_simp [simp]: "fail e w = (Inl e, w)"
  by (simp add: fail_def)

lemma andThen_Inl [simp]: "m w = (Inl e, w1) \<Longrightarrow> andThen m k w = (Inl e, w1)"
  by (simp add: andThen_def)

lemma andThen_Inr [simp]: "m w = (Inr a, w1) \<Longrightarrow> andThen m k w = k a w1"
  by (simp add: andThen_def)

lemma andThen_eq_Inr:
  "andThen m k w = (Inr b, w2) \<longleftrightarrow> (\<exists>a w1. m w = (Inr a, w1) \<and> k a w1 = (Inr b, w2))"
  by (auto simp: andThen_def split: prod.splits sum.splits)

lemma map_error_eq_Inr: "map_error f m w = (Inr a, w1) \<longleftrightarrow> m w = (Inr a, w1)"
  by (auto simp: map_error_def split: prod.splits sum.splits)

lemma check_ctx_eq_Inr: "check_ctx ctx w = (Inr u, w1) \<longleftrightarrow> ctx_Err ctx w = None \<and> w1 = w"
  by (auto simp: check_ctx_def split: option.splits)

lemmas io_Inr = andThen_eq_Inr map_error_eq_Inr check_ctx_eq_Inr

section \<open>A recorded conversation\<close>

text \<open>
  The world the properties are stated over: everything said so far, and a peer that answers
  the next command any way it likes, knowing the time.
\<close>

type_synonym transcript = "(command \<times> reply) list"

record conversation =
  said :: transcript
  peer :: "transcript \<Rightarrow> int \<Rightarrow> command \<Rightarrow> reply \<times> nat"

definition converse :: "conversation network" where
  "converse c w =
     (let (r, d) = peer (world w) (said (world w)) (now w) c
      in (r, w\<lparr>now := now w + int d, world := (world w)\<lparr>said := said (world w) @ [(c, r)]\<rparr>\<rparr>))"

text \<open>\<open>talk w w'\<close> is what has been said between two states.\<close>

definition talk :: "conversation runtime \<Rightarrow> conversation runtime \<Rightarrow> transcript" where
  "talk w w' = drop (length (said (world w))) (said (world w'))"

text \<open>
  The time at which a peer has answered the commands of a transcript, begun at time \<open>n\<close> after
  \<open>s\<close> had been said: nothing but the peer takes time.
\<close>

fun ends_at :: "(transcript \<Rightarrow> int \<Rightarrow> command \<Rightarrow> reply \<times> nat) \<Rightarrow> transcript \<Rightarrow> int \<Rightarrow> transcript \<Rightarrow> int" where
  "ends_at P s n [] = n"
| "ends_at P s n ((c, r) # tr) = ends_at P (s @ [(c, r)]) (n + int (snd (P s n c))) tr"

lemma ends_at_append: "ends_at P s n (tr @ tr') = ends_at P (s @ tr) (ends_at P s n tr) tr'"
  by (induction tr arbitrary: s n) auto

definition extends :: "conversation runtime \<Rightarrow> conversation runtime \<Rightarrow> bool" where
  "extends w w' \<longleftrightarrow> peer (world w') = peer (world w) \<and> (\<exists>t. said (world w') = said (world w) @ t \<and>
     now w' = ends_at (peer (world w)) (said (world w)) (now w) t)"

lemma converse_said [simp]:
  "said (world (snd (converse c w))) = said (world w) @ [(c, fst (converse c w))]"
  "peer (world (snd (converse c w))) = peer (world w)"
  "logs (snd (converse c w)) = logs w"
  "now (snd (converse c w)) = now w + int (snd (peer (world w) (said (world w)) (now w) c))"
  by (simp_all add: converse_def split_beta)

lemma extends_refl [simp, intro]: "extends w w"
  by (simp add: extends_def)

lemma extends_trans: "extends w w1 \<Longrightarrow> extends w1 w2 \<Longrightarrow> extends w w2"
  by (auto simp: extends_def ends_at_append)

lemma extends_converse: "converse c w = (r, w1) \<Longrightarrow> extends w w1 \<and> talk w w1 = [(c, r)]"
  using converse_said[where c = c and w = w] by (simp add: extends_def talk_def)

lemma extends_now:
  "extends w w' \<Longrightarrow> now w' = ends_at (peer (world w)) (said (world w)) (now w) (talk w w')"
  by (auto simp: extends_def talk_def)

lemma talk_append: "extends w w1 \<Longrightarrow> extends w1 w2 \<Longrightarrow> talk w w2 = talk w w1 @ talk w1 w2"
  by (auto simp: extends_def talk_def)

lemma talk_refl [simp]: "talk w w = []"
  by (simp add: talk_def)

text \<open>
  \<open>says m T\<close>: from any state \<open>m\<close> only extends the conversation, and what it says together
  with its result is in \<open>T\<close>. The rules compose the parts of a sequence of steps.
\<close>

definition says :: "('a, conversation) io \<Rightarrow> (transcript \<Rightarrow> (go_error + 'a) \<Rightarrow> bool) \<Rightarrow> bool" where
  "says m T \<longleftrightarrow> (\<forall>w r w1. m w = (r, w1) \<longrightarrow> extends w w1 \<and> T (talk w w1) r)"

lemma saysD: "says m T \<Longrightarrow> m w = (r, w1) \<Longrightarrow> extends w w1 \<and> T (talk w w1) r"
  by (simp add: says_def)

lemma says_conseq: "says m T \<Longrightarrow> (\<And>t r. T t r \<Longrightarrow> U t r) \<Longrightarrow> says m U"
  by (simp add: says_def)

lemma says_succeed [intro]: "T [] (Inr a) \<Longrightarrow> says (succeed a) T"
  by (simp add: says_def)

lemma says_fail [intro]: "T [] (Inl e) \<Longrightarrow> says (fail e) T"
  by (simp add: says_def)

lemma says_state: "(\<And>n. says (f n) T) \<Longrightarrow> says (\<lambda>w. f (g w) w) T"
  by (simp add: says_def)

lemma says_check_ctx: "T [] (Inr ()) \<Longrightarrow> (\<And>e. T [] (Inl e)) \<Longrightarrow> says (check_ctx ctx) T"
  by (auto simp: says_def check_ctx_def split: option.splits)

lemma says_converse: "(\<And>r. T [(c, r)] r) \<Longrightarrow> says (converse c) T"
  using extends_converse by (auto simp: says_def)

lemma says_andThen:
  assumes m: "says m T" and k: "\<And>a. says (k a) (U a)"
    and err: "\<And>t e. T t (Inl e) \<Longrightarrow> V t (Inl e)"
    and ok: "\<And>t a t' r. T t (Inr a) \<Longrightarrow> U a t' r \<Longrightarrow> V (t @ t') r"
  shows "says (andThen m k) V"
  unfolding says_def
proof (intro allI impI)
  fix w r w2
  assume run: "andThen m k w = (r, w2)"
  obtain r1 w1 where 1: "m w = (r1, w1)" by fastforce
  note m1 = saysD[OF m 1]
  show "extends w w2 \<and> V (talk w w2) r"
  proof (cases r1)
    case (Inl e)
    then show ?thesis using 1 m1 run err by auto
  next
    case (Inr a)
    then have 2: "k a w1 = (r, w2)" using 1 run by simp
    note m2 = saysD[OF k 2]
    have "extends w w2" using m1 m2 extends_trans by blast
    moreover have "V (talk w w2) r"
      using ok[of "talk w w1" a "talk w1 w2" r] m1 m2 Inr talk_append[of w w1 w2] by simp
    ultimately show ?thesis by simp
  qed
qed

lemma says_map_error:
  assumes "says m T" and "\<And>t e. T t (Inl e) \<Longrightarrow> U t (Inl (f e))" and "\<And>t a. T t (Inr a) \<Longrightarrow> U t (Inr a)"
  shows "says (map_error f m) U"
  using assms by (fastforce simp: says_def map_error_def split: prod.splits sum.splits)

lemma says_ignore: "says m T \<Longrightarrow> (\<And>t r. T t r \<Longrightarrow> U t (Inr ())) \<Longrightarrow> says (ignore_error m) U"
  unfolding says_def ignore_error_def by (metis Pair_inject prod.collapse)

lemma says_close_on_error:
  assumes "says m T" and "\<And>t e a. T t (Inl e) \<Longrightarrow> U (t @ [(CloseConn, a)]) (Inl e)" and "\<And>t a. T t (Inr a) \<Longrightarrow> U t (Inr a)"
  shows "says (close_on_error converse m) U"
  unfolding says_def
proof (intro allI impI)
  fix w r w2
  assume run: "close_on_error converse m w = (r, w2)"
  obtain r1 w1 where 1: "m w = (r1, w1)" by fastforce
  note m1 = saysD[OF assms(1) 1]
  show "extends w w2 \<and> U (talk w w2) r"
  proof (cases r1)
    case (Inl e)
    obtain a where 2: "converse CloseConn w1 = (a, w2)"
      using run 1 Inl by (cases "converse CloseConn w1") (auto simp: close_on_error_def)
    then show ?thesis
      using run 1 Inl m1 extends_converse[OF 2] assms(2) talk_append[of w w1 w2] extends_trans[of w w1 w2]
      by (auto simp: close_on_error_def)
  next
    case (Inr a)
    then show ?thesis using run 1 m1 assms(3) by (auto simp: close_on_error_def)
  qed
qed

lemma says_finally:
  assumes "says m T" and "\<And>t r a. T t r \<Longrightarrow> U (t @ [(c, a)]) r"
  shows "says (finally_do converse c m) U"
  unfolding says_def
proof (intro allI impI)
  fix w r w2
  assume run: "finally_do converse c m w = (r, w2)"
  obtain r1 w1 where 1: "m w = (r1, w1)" by fastforce
  obtain a where 2: "converse c w1 = (a, w2)" and "r = r1"
    using run 1 by (auto simp: finally_do_def split: prod.splits)
  then show "extends w w2 \<and> U (talk w w2) r"
    using saysD[OF assms(1) 1] extends_converse[OF 2] assms(2) talk_append extends_trans by metis
qed

end
