(* ===== verification/Proxy.thy ===== *)
theory Proxy
  imports Email Network
begin

text \<open>
  \<open>targets/email/proxy.go\<close>: choosing a proxy for the SMTP connection and opening a tunnel
  through it with HTTP CONNECT. \<open>http.ProxyFromEnvironment\<close> is a parameter: what it says for
  the scheme and the host of a request.

  The connection that \<open>dialProxy\<close> returns reads what is left in its buffer first. Here an
  answer to a later command stands for what is read; the bytes are in \<open>Tunnel\<close>.
\<close>

record proxy_url =
  px_Scheme :: string
  px_User :: "(string \<times> string) option"
  px_Host :: string

definition Hostname :: "proxy_url \<Rightarrow> string" where
  "Hostname u = fst (splitHostPort (px_Host u))"

definition Port :: "proxy_url \<Rightarrow> string" where
  "Port u = snd (splitHostPort (px_Host u))"

type_synonym proxy_env = "string \<Rightarrow> string \<Rightarrow> go_error + proxy_url option"

fun first_proxy :: "proxy_env \<Rightarrow> string \<Rightarrow> string list \<Rightarrow> go_error + proxy_url option" where
  "first_proxy env address [] = Inr None"
| "first_proxy env address (scheme # schemes) = (case env scheme address of
     Inl e \<Rightarrow> Inl e
   | Inr (Some proxy) \<Rightarrow> Inr (Some proxy)
   | Inr None \<Rightarrow> first_proxy env address schemes)"

definition resolveProxy :: "proxy_env \<Rightarrow> string \<Rightarrow> string \<Rightarrow> go_error + proxy_url option" where
  "resolveProxy env address mode =
     first_proxy env address (if mode = TLSImplicit then [''https'', ''http''] else [''http'', ''https''])"

definition proxyDialAddress :: "proxy_url option \<Rightarrow> go_error + string" where
  "proxyDialAddress proxy = (case proxy of
       None \<Rightarrow> Inl (ErrorString ''proxy host is empty'')
     | Some u \<Rightarrow>
         if Hostname u = [] then Inl (ErrorString ''proxy host is empty'')
         else if Port u \<noteq> [] then Inr (px_Host u)
         else if EqualFold (px_Scheme u) ''https'' then Inr (JoinHostPort (Hostname u) ''443'')
         else if px_Scheme u \<noteq> [] \<and> \<not> EqualFold (px_Scheme u) ''http''
         then Inl (Errorf ''unsupported proxy scheme %q'' [Quo (px_Scheme u)] None)
         else Inr (JoinHostPort (Hostname u) ''80''))"

definition connect_request :: "proxy_url \<Rightarrow> string \<Rightarrow> string" where
  "connect_request u target =
     ''CONNECT '' @ target @ '' HTTP/1.1'' @ crlf @ ''Host: '' @ target @ crlf @ ''Proxy-Connection: Keep-Alive'' @ crlf @
     (case px_User u of None \<Rightarrow> []
      | Some (username, password) \<Rightarrow>
          ''Proxy-Authorization: Basic '' @ b64_encode (username @ '':'' @ password) @ crlf) @ crlf"

definition writeConnectRequest :: "'x network \<Rightarrow> proxy_url \<Rightarrow> string \<Rightarrow> (answer, 'x) io" where
  "writeConnectRequest net u target =
     map_error (\<lambda>e. Errorf ''write proxy CONNECT request: %w'' [] (Some e)) (net (WriteConnect (connect_request u target)))"

text \<open>The scheme decides whether the connection to the proxy is encrypted.\<close>

definition secure_proxy :: "'x network \<Rightarrow> go_context \<Rightarrow> proxy_url \<Rightarrow> (unit, 'x) io" where
  "secure_proxy net ctx u =
     (if EqualFold (px_Scheme u) ''https''
      then andThen (map_error (\<lambda>e. Errorf ''TLS handshake with proxy %s: %w'' [Str (px_Host u)] (Some e))
             (net (TLSHandshake (Hostname u) False ctx))) (\<lambda>_. succeed ())
      else if px_Scheme u \<noteq> [] \<and> \<not> EqualFold (px_Scheme u) ''http''
      then fail (Errorf ''unsupported proxy scheme %q'' [Quo (px_Scheme u)] None)
      else succeed ())"

text \<open>
  The deadline set here comes from the context, or from the timeout when it has none; no error
  of setting or clearing it counts.
\<close>

definition proxy_deadline :: "'x network \<Rightarrow> go_context \<Rightarrow> int \<Rightarrow> (unit, 'x) io" where
  "proxy_deadline net ctx timeout w =
     ignore_error (net (SetDeadline (case deadline_at ctx of Some d \<Rightarrow> d | None \<Rightarrow> now w + timeout))) w"

definition open_tunnel :: "'x network \<Rightarrow> go_context \<Rightarrow> proxy_url \<Rightarrow> string \<Rightarrow> int \<Rightarrow> (unit, 'x) io" where
  "open_tunnel net ctx u target timeout =
     andThen (secure_proxy net ctx u) (\<lambda>_.
     andThen (proxy_deadline net ctx timeout) (\<lambda>_.
     andThen (writeConnectRequest net u target) (\<lambda>_.
     andThen (map_error (\<lambda>e. Errorf ''read proxy CONNECT response: %w'' [] (Some e)) (net ReadConnectResponse)) (\<lambda>response.
     if answer_code response < 200 \<or> 300 \<le> answer_code response
     then fail (ProxyError (answer_code response) (answer_status response))
     else ignore_error (net ClearDeadline)))))"

definition dialProxy :: "'x network \<Rightarrow> go_context \<Rightarrow> proxy_url option \<Rightarrow> string \<Rightarrow> int \<Rightarrow> (unit, 'x) io" where
  "dialProxy net ctx proxy target timeout = (case proxy of
       None \<Rightarrow> fail (ErrorString ''proxy URL is nil'')
     | Some u \<Rightarrow>
         if px_Host u = [] then fail (ErrorString ''proxy host is empty'')
         else (case proxyDialAddress proxy of
             Inl e \<Rightarrow> fail e
           | Inr proxyAddress \<Rightarrow>
               andThen (map_error (\<lambda>e. Errorf ''connect proxy %s: %w'' [Str (px_Host u)] (Some e))
                   (net (DialTCP proxyAddress timeout ctx))) (\<lambda>_.
               close_on_error net (open_tunnel net ctx u target timeout))))"

end
