(* ===== verification/Email_Send.thy ===== *)
theory Email_Send
  imports Proxy
begin

text \<open>
  The network side of \<open>targets/email/email.go\<close>: opening the connection, the SMTP conversation,
  the classification of its errors and \<open>SendResult\<close>.

  \<open>net/smtp\<close> is modelled as far as its client decides something itself: \<open>Mail\<close> and \<open>Rcpt\<close>
  refuse an address with a line break, \<open>PlainAuth\<close> refuses to send credentials over an
  unencrypted connection to another host.
\<close>

record 'x smtp_lib =
  Net :: "'x network"
  ParseAddress :: parse_address
  ProxyFromEnvironment :: proxy_env

section \<open>Errors\<close>

definition operationError :: "string \<Rightarrow> int \<Rightarrow> go_error \<Rightarrow> go_error" where
  "operationError operation timeout e = OperationError operation timeout e"

text \<open>A step of the conversation; a failure names it.\<close>

definition step :: "string \<Rightarrow> 'v email \<Rightarrow> ('a, 'x) io \<Rightarrow> ('a, 'x) io" where
  "step operation t m = map_error (operationError operation (em_Timeout t)) m"

fun is_proxy_error :: "go_error \<Rightarrow> bool" where
  "is_proxy_error (ProxyError _ _) = True"
| "is_proxy_error _ = False"

fun is_textproto_error :: "go_error \<Rightarrow> bool" where
  "is_textproto_error (TextprotoError _ _) = True"
| "is_textproto_error _ = False"

fun is_certificate_error :: "go_error \<Rightarrow> bool" where
  "is_certificate_error (CertificateVerificationError _) = True"
| "is_certificate_error UnknownAuthorityError = True"
| "is_certificate_error HostnameError = True"
| "is_certificate_error CertificateInvalidError = True"
| "is_certificate_error _ = False"

definition is_transient :: "go_error \<Rightarrow> bool" where
  "is_transient e \<longleftrightarrow> errors_As is_net_error e \<noteq> None \<or> errors_Is EOF e \<or> errors_Is ErrUnexpectedEOF e \<or>
     errors_Is DeadlineExceeded e \<or> errors_Is ContextCanceled e"

definition classifySMTPError :: "go_error option \<Rightarrow> go_error option" where
  "classifySMTPError err = (case err of None \<Rightarrow> None
     | Some e \<Rightarrow>
         if IsPermanent err then err
         else (case errors_As is_proxy_error e of
           Some (ProxyError code status) \<Rightarrow>
             if code = 408 \<or> code = 429 \<or> 500 \<le> code then Transport err else Permanent err
         | _ \<Rightarrow> (case errors_As is_textproto_error e of
             Some (TextprotoError code msg) \<Rightarrow>
               if 400 \<le> code \<and> code < 500 then Transport err else Permanent err
           | _ \<Rightarrow>
             if errors_As is_certificate_error e \<noteq> None then Permanent err
             else if is_transient e then Transport err
             else Permanent err)))"

section \<open>The conversation\<close>

definition dialSMTPConnection :: "'x smtp_lib \<Rightarrow> go_context \<Rightarrow> 'v email \<Rightarrow> string \<Rightarrow> (unit, 'x) io" where
  "dialSMTPConnection lib ctx t address =
     (let direct = andThen (Net lib (DialTCP address (em_DialTimeout t) ctx)) (\<lambda>_. succeed ()) in
      if \<not> em_ProxyFromEnvironment t then direct
      else case resolveProxy (ProxyFromEnvironment lib) address (em_TLSMode t) of
        Inl e \<Rightarrow> fail e
      | Inr None \<Rightarrow> direct
      | Inr (Some u) \<Rightarrow> dialProxy (Net lib) ctx (Some u) address (em_DialTimeout t))"

definition smtpTLSConfig :: "'v email \<Rightarrow> string \<times> bool" where
  "smtpTLSConfig t = (em_Host t, em_SkipTLSVerify t)"

definition isLocalhost :: "string \<Rightarrow> bool" where
  "isLocalhost name \<longleftrightarrow> name = ''localhost'' \<or> name = ''127.0.0.1'' \<or> name = ''::1''"

text \<open>\<open>smtp.PlainAuth\<close> and \<open>client.Auth\<close>; \<open>tls\<close> is whether the client's connection is encrypted.\<close>

definition smtpAuth :: "'x smtp_lib \<Rightarrow> 'v email \<Rightarrow> bool \<Rightarrow> (unit, 'x) io" where
  "smtpAuth lib t tls =
     (if em_User t = [] \<and> em_Pass t = [] then succeed ()
      else if \<not> tls \<and> \<not> isLocalhost (em_Host t) then andThen (ignore_error (Net lib Quit)) (\<lambda>_. fail (ErrorString ''unencrypted connection''))
      else andThen (Net lib (AuthPlain (em_User t) (em_Pass t))) (\<lambda>_. succeed ()))"

text \<open>\<open>validateLine\<close> of \<open>net/smtp\<close> guards \<open>Mail\<close> and \<open>Rcpt\<close>.\<close>

definition smtp_line :: "'x smtp_lib \<Rightarrow> (string \<Rightarrow> command) \<Rightarrow> string \<Rightarrow> (answer, 'x) io" where
  "smtp_line lib c address =
     (if ContainsNewline address then fail (ErrorString ''smtp: A line must not contain CR or LF'')
      else Net lib (c address))"

definition lift_result :: "go_error + 'a \<Rightarrow> ('a, 'x) io" where
  "lift_result r w = (r, w)"

fun send_recipients :: "'x smtp_lib \<Rightarrow> 'v email \<Rightarrow> string list \<Rightarrow> (unit, 'x) io" where
  "send_recipients lib t [] = succeed ()"
| "send_recipients lib t (recipient # rs) =
     andThen (step ''RCPT TO'' t (lift_result (parseMailbox (ParseAddress lib) recipient))) (\<lambda>mailbox.
     andThen (step ''RCPT TO'' t (smtp_line lib RcptTo (Address mailbox))) (\<lambda>_.
     send_recipients lib t rs))"

text \<open>When writing fails, the writer is closed and the error of the write is returned.\<close>

definition write_message :: "'x smtp_lib \<Rightarrow> 'v email \<Rightarrow> string \<Rightarrow> (unit, 'x) io" where
  "write_message lib t msg w = (case Net lib (WriteMessage msg) w of
       (Inl e, w1) \<Rightarrow> (Inl (operationError ''message transfer'' (em_Timeout t) e), snd (Net lib EndOfData w1))
     | (Inr _, w1) \<Rightarrow> andThen (step ''message acceptance'' t (Net lib EndOfData)) (\<lambda>_. succeed ()) w1)"

definition send_data :: "'x smtp_lib \<Rightarrow> 'v email \<Rightarrow> string \<Rightarrow> (unit, 'x) io" where
  "send_data lib t msg =
     andThen (step ''message data'' t (Net lib Data)) (\<lambda>_. write_message lib t msg)"

definition smtpSend :: "'x smtp_lib \<Rightarrow> 'v email \<Rightarrow> string \<Rightarrow> (unit, 'x) io" where
  "smtpSend lib t msg =
     andThen (step ''MAIL FROM'' t (lift_result (parseMailbox (ParseAddress lib) (em_From t)))) (\<lambda>sender.
     andThen (step ''MAIL FROM'' t (smtp_line lib MailFrom (Address sender))) (\<lambda>_.
     andThen (send_recipients lib t (envelopeRecipients (em_To t) (em_CC t) (em_BCC t))) (\<lambda>_.
     send_data lib t msg)))"

text \<open>The required upgrade: permanent failure without the extension. The value is \<open>tls\<close> from then on.\<close>

definition upgrade :: "'x smtp_lib \<Rightarrow> 'v email \<Rightarrow> answer \<Rightarrow> (bool, 'x) io" where
  "upgrade lib t greeting =
     (if em_TLSMode t \<noteq> TLSPlaintext \<and> em_TLSMode t \<noteq> TLSImplicit
      then if ''STARTTLS'' \<notin> set (answer_extensions greeting)
        then fail (PermanentError (ErrorString ''SMTP server does not support required STARTTLS''))
        else andThen (step ''STARTTLS handshake'' t (Net lib (case smtpTLSConfig t of (h, s) \<Rightarrow> StartTLS h s))) (\<lambda>_. succeed True)
      else succeed (em_TLSMode t = TLSImplicit))"

text \<open>
  What follows once the connection is open and secured as the mode says; the client is closed
  in the end.
\<close>

definition smtp_session :: "'x smtp_lib \<Rightarrow> go_context \<Rightarrow> 'v email \<Rightarrow> string \<Rightarrow> (unit, 'x) io" where
  "smtp_session lib ctx t msg =
     andThen (step ''server greeting'' t (Net lib (Greeting (em_Host t)))) (\<lambda>_.
     finally_do (Net lib) CloseClient (
     andThen (check_ctx ctx) (\<lambda>_.
     andThen (step ''EHLO/HELO'' t (Net lib (Hello ''localhost''))) (\<lambda>greeting.
     andThen (upgrade lib t greeting) (\<lambda>tls.
     andThen (check_ctx ctx) (\<lambda>_.
     andThen (step ''authentication'' t (smtpAuth lib t tls)) (\<lambda>_.
     andThen (check_ctx ctx) (\<lambda>_.
     smtpSend lib t msg))))))))"

text \<open>The watcher runs until the deferred call of the function it returns.\<close>

definition closeConnOnContextDone :: "'x smtp_lib \<Rightarrow> go_context \<Rightarrow> ('a, 'x) io \<Rightarrow> ('a, 'x) io" where
  "closeConnOnContextDone lib ctx m =
     andThen (ignore_error (Net lib (WatchContext ctx))) (\<lambda>_. finally_do (Net lib) StopWatch m)"

definition connection_deadline :: "'x smtp_lib \<Rightarrow> go_context \<Rightarrow> 'v email \<Rightarrow> (unit, 'x) io" where
  "connection_deadline lib ctx t = (case deadline_at ctx of
       None \<Rightarrow> succeed ()
     | Some d \<Rightarrow> andThen (step ''connection deadline'' t (Net lib (SetDeadline d))) (\<lambda>_. succeed ()))"

definition implicit_tls :: "'x smtp_lib \<Rightarrow> go_context \<Rightarrow> 'v email \<Rightarrow> (unit, 'x) io" where
  "implicit_tls lib ctx t =
     (if em_TLSMode t = TLSImplicit
      then andThen (step ''TLS handshake'' t (Net lib (case smtpTLSConfig t of (h, s) \<Rightarrow> TLSHandshake h s ctx))) (\<lambda>_. succeed ())
      else succeed ())"

text \<open>
  \<open>attempt\<close> is \<open>sendSMTP\<close> up to its deferred functions, the closing of the connection
  included.
\<close>

definition attempt :: "'x smtp_lib \<Rightarrow> go_context \<Rightarrow> 'v email \<Rightarrow> string \<Rightarrow> (unit, 'x) io" where
  "attempt lib ctx t msg =
     (let address = JoinHostPort (em_Host t) (Itoa (em_Port t)) in
      andThen (step ''connection'' t (dialSMTPConnection lib ctx t address)) (\<lambda>_.
      finally_do (Net lib) CloseConn (
        andThen (connection_deadline lib ctx t) (\<lambda>_.
        andThen (implicit_tls lib ctx t) (\<lambda>_.
        closeConnOnContextDone lib ctx (smtp_session lib ctx t msg))))))"

text \<open>
  The deferred function replaces an error by the context's once the context is done; a
  success stays one.
\<close>

definition sendSMTP ::
  "'x smtp_lib \<Rightarrow> go_context \<Rightarrow> 'v email \<Rightarrow> string \<Rightarrow> string \<Rightarrow> 'x runtime \<Rightarrow> go_error option \<times> 'x runtime" where
  "sendSMTP lib ctx t subject body w =
     (let t = em_applyDefaults t;
          ctx = context_WithTimeout ctx (em_Timeout t) w;
          (r, w1) = attempt lib ctx t (buildEmail (ParseAddress lib) t subject body) w
      in case r of
        Inr _ \<Rightarrow> (None, w1)
      | Inl e \<Rightarrow> (Some (case ctx_Err ctx w1 of Some c \<Rightarrow> c | None \<Rightarrow> e), w1))"

section \<open>SendResult\<close>

definition em_SendResult ::
  "'x smtp_lib \<Rightarrow> 'v \<Rightarrow> 'v email option \<Rightarrow> go_context option \<Rightarrow> 'v payload \<Rightarrow> 'x send_call" where
  "em_SendResult lib nil_any t ctx p w = (case t of
       None \<Rightarrow> ((zero_result, Permanent (Some (ErrorString ''email target is nil''))), w)
     | Some t \<Rightarrow> (case ctx of
         None \<Rightarrow> ((zero_result, Permanent (Some (ErrorString ''context is nil''))), w)
       | Some ctx \<Rightarrow> (case ctx_Err ctx w of
           Some e \<Rightarrow> ((zero_result, Some e), w)
         | None \<Rightarrow>
             let target = em_applyDefaults t;
                 start = now w;
                 (err, w2) = (case em_Render nil_any (Some target) p of
                     Inl e \<Rightarrow> (Permanent (Some e), w)
                   | Inr m \<Rightarrow> (case validateSMTPConfig (ParseAddress lib) target w of
                       (Some e, w1) \<Rightarrow> (Permanent (Some e), w1)
                     | (None, w1) \<Rightarrow>
                         let (sent, w2) = sendSMTP lib ctx target (Subject m) (Body m) w1
                         in (classifySMTPError sent, w2)));
                 status = (if err \<noteq> None then ''failed'' else ''sent'')
             in ((\<lparr>Status = status, StatusCode = 0, Response = rounded_string (now w2 - start), RetryAfter = 0\<rparr>, err), w2))))"

definition ProxyAddress :: "'x smtp_lib \<Rightarrow> 'v email option \<Rightarrow> go_error + string" where
  "ProxyAddress lib t = (case t of
       None \<Rightarrow> Inr []
     | Some t \<Rightarrow>
         if \<not> em_ProxyFromEnvironment t then Inr []
         else let target = em_applyDefaults t in
           (case resolveProxy (ProxyFromEnvironment lib) (JoinHostPort (em_Host target) (Itoa (em_Port target))) (em_TLSMode target) of
              Inl e \<Rightarrow> Inl e
            | Inr None \<Rightarrow> Inr []
            | Inr (Some u) \<Rightarrow> Inr (px_Host u)))"

definition email_target :: "'x smtp_lib \<Rightarrow> 'v \<Rightarrow> 'v email option \<Rightarrow> ('v, 'x) target" where
  "email_target lib nil_any t =
     \<lparr>Type = ''email'', Send = (\<lambda>ctx p. em_SendResult lib nil_any t (Some ctx) p)\<rparr>"

end
