(* ===== verification/Email_Facts.thy ===== *)
theory Email_Facts
  imports Email
begin

text \<open>
  Lemmas on the email target's message: line endings, header lines, what a reader finds in it.
\<close>

section \<open>Line endings\<close>

text \<open>One pass that does what the three replacements of \<open>normalizeBody\<close> do.\<close>

fun to_crlf :: "string \<Rightarrow> string" where
  "to_crlf [] = []"
| "to_crlf (c # s) =
     (if c = CR then CR # LF # (case s of d # t \<Rightarrow> if d = LF then to_crlf t else to_crlf s | [] \<Rightarrow> [])
      else if c = LF then CR # LF # to_crlf s
      else c # to_crlf s)"

lemma to_crlf_simps:
  "to_crlf (CR # LF # s) = CR # LF # to_crlf s"
  "d \<noteq> LF \<Longrightarrow> to_crlf (CR # d # s) = CR # LF # to_crlf (d # s)"
  "to_crlf [CR] = [CR, LF]"
  "to_crlf (LF # s) = CR # LF # to_crlf s"
  "c \<noteq> CR \<Longrightarrow> c \<noteq> LF \<Longrightarrow> to_crlf (c # s) = c # to_crlf s"
  by simp_all

text \<open>Every CR is followed by an LF and every LF comes after a CR.\<close>

fun crlf_only :: "string \<Rightarrow> bool" where
  "crlf_only [] = True"
| "crlf_only (c # s) =
     (if c = CR then (case s of d # t \<Rightarrow> d = LF \<and> crlf_only t | [] \<Rightarrow> False) else c \<noteq> LF \<and> crlf_only s)"

lemma ReplaceAll_Nil [simp]: "ReplaceAll [] old new = []"
  by (simp add: ReplaceAll.simps)

lemma ReplaceAll_char: "ReplaceAll s [c] new = concat (map (\<lambda>d. if d = c then new else [d]) s)"
proof (induction s)
  case (Cons d s)
  then show ?case by (subst ReplaceAll.simps) simp
qed simp

lemma ReplaceAll_crlf:
  "ReplaceAll (CR # LF # s) crlf new = new @ ReplaceAll s crlf new"
  "\<not> (c = CR \<and> s \<noteq> [] \<and> hd s = LF) \<Longrightarrow> ReplaceAll (c # s) crlf new = c # ReplaceAll s crlf new"
proof -
  show "ReplaceAll (CR # LF # s) crlf new = new @ ReplaceAll s crlf new"
    by (subst ReplaceAll.simps) simp
  show "\<not> (c = CR \<and> s \<noteq> [] \<and> hd s = LF) \<Longrightarrow> ReplaceAll (c # s) crlf new = c # ReplaceAll s crlf new"
    by (subst ReplaceAll.simps, cases s) auto
qed

text \<open>The last two replacements turn every CR and every LF into CRLF.\<close>

definition both_crlf :: "string \<Rightarrow> string" where
  "both_crlf s = concat (map (\<lambda>d. if d = CR \<or> d = LF then crlf else [d]) s)"

lemma normalizeBody_both: "normalizeBody s = both_crlf (ReplaceAll s crlf [LF])"
proof -
  have "ReplaceAll (ReplaceAll t [CR] [LF]) [LF] crlf = both_crlf t" for t
    unfolding ReplaceAll_char both_crlf_def by (induction t) simp_all
  then show ?thesis by (simp add: normalizeBody_def)
qed

lemma normalizeBody_to_crlf: "normalizeBody s = to_crlf s"
  unfolding normalizeBody_both
proof (induction s rule: to_crlf.induct)
  case (2 c s)
  show ?case
  proof (cases "c = CR \<and> s \<noteq> [] \<and> hd s = LF")
    case True
    then obtain t where s: "s = LF # t" by (cases s) auto
    then have "both_crlf (ReplaceAll t crlf [LF]) = to_crlf t" using 2 True by simp
    then show ?thesis using True s by (simp add: ReplaceAll_crlf both_crlf_def)
  next
    case False
    have "both_crlf (ReplaceAll s crlf [LF]) = to_crlf s"
    proof (cases "c = CR")
      case True
      then show ?thesis
        using "2.IH"(2)[OF True] False by (cases s) (simp_all add: both_crlf_def)
    next
      case not_CR: False
      show ?thesis by (cases "c = LF") (use "2.IH"(3,4) not_CR in blast)+
    qed
    then show ?thesis
      using False unfolding ReplaceAll_crlf(2)[OF False] by (cases s) (simp_all add: both_crlf_def)
  qed
qed (simp add: both_crlf_def)

lemma crlf_only_to_crlf: "crlf_only (to_crlf s)"
  by (induction s rule: to_crlf.induct) (auto split: list.splits)

lemma to_crlf_id: "crlf_only s \<Longrightarrow> to_crlf s = s"
  by (induction s rule: crlf_only.induct) (auto split: list.splits if_splits)

section \<open>Reading a message\<close>

text \<open>
  A reader of RFC 5322 messages: header lines up to the first empty line, then the body.
\<close>

fun read_line :: "string \<Rightarrow> string \<times> string" where
  "read_line [] = ([], [])"
| "read_line (c # s) =
     (if HasPrefix (c # s) crlf then ([], drop 2 (c # s)) else let (l, rest) = read_line s in (c # l, rest))"

lemma read_line_rest: "length (snd (read_line s)) \<le> length s \<and> (s \<noteq> [] \<longrightarrow> length (snd (read_line s)) < length s)"
  by (induction s) (auto simp: Let_def split_beta)

function parse_message :: "string \<Rightarrow> string list \<times> string" where
  "parse_message s =
     (if s = [] then ([], [])
      else let (l, rest) = read_line s
        in if l = [] then ([], rest) else let (ls, body) = parse_message rest in (l # ls, body))"
  by pat_completeness auto
termination
proof (relation "measure length")
  fix s x l rest
  assume "s \<noteq> []" and "x = read_line s" and "(l, rest) = x"
  then show "(rest, s) \<in> measure length" using read_line_rest[of s] by (metis in_measure snd_conv)
qed simp

declare parse_message.simps [simp del]

definition one_line :: "string \<Rightarrow> bool" where
  "one_line s \<longleftrightarrow> CR \<notin> set s \<and> LF \<notin> set s"

lemma one_line_iff: "one_line s \<longleftrightarrow> \<not> ContainsNewline s"
  by (auto simp: one_line_def ContainsNewline_iff)

lemma read_line_append: "one_line l \<Longrightarrow> read_line (l @ crlf @ rest) = (l, rest)"
  by (induction l) (auto simp: one_line_def HasPrefix_iff)

lemma parse_message_lines:
  "(\<And>l. l \<in> set ls \<Longrightarrow> one_line l \<and> l \<noteq> []) \<Longrightarrow>
   parse_message (concat (map (\<lambda>l. l @ crlf) ls) @ crlf @ body) = (ls, body)"
proof (induction ls)
  case Nil
  then show ?case
    using read_line_append[of "[]" body] by (subst parse_message.simps) (simp add: one_line_def)
next
  case (Cons l ls)
  have "read_line (l @ crlf @ concat (map (\<lambda>l. l @ crlf) ls) @ crlf @ body) =
      (l, concat (map (\<lambda>l. l @ crlf) ls) @ crlf @ body)"
    by (rule read_line_append) (use Cons.prems in simp)
  then show ?case
    using Cons by (subst parse_message.simps) simp
qed

section \<open>Lines are not blank\<close>

lemma decode_last_rune_full:
  assumes "s \<noteq> []" and "byte (hd s) < 128" and "length s \<le> snd (decode_last_rune s)"
  shows "s = [hd s]"
proof (rule ccontr)
  assume "s \<noteq> [hd s]"
  then have len: "1 < length s" using assms(1) by (cases s; cases "tl s") auto
  obtain c t where s: "s = c # t" using assms(1) by (cases s) auto
  have "snd (decode_rune s) = 1" using assms(2) by (simp add: s)
  then show False
    using assms(3) len last_width_bounds[OF assms(1)]
    by (auto simp: decode_last_rune_def Let_def split: if_splits prod.splits)
qed

lemma trim_right_nonblank:
  "s \<noteq> [] \<Longrightarrow> byte (hd s) < 128 \<Longrightarrow> \<not> is_space (byte (hd s)) \<Longrightarrow> trim_right s \<noteq> []"
proof (induction s rule: trim_right.induct)
  case (1 s)
  show ?case
  proof (cases "is_space (fst (decode_last_rune s))")
    case True
    have "snd (decode_last_rune s) < length s"
    proof (rule ccontr)
      assume "\<not> ?thesis"
      then have "s = [hd s]" using decode_last_rune_full 1 by simp
      then have "fst (decode_last_rune s) = byte (hd s)" using 1 by (simp add: decode_last_rune_def) (metis last.simps)
      then show False using True 1 by simp
    qed
    then have t: "take (length s - snd (decode_last_rune s)) s \<noteq> []"
      "hd (take (length s - snd (decode_last_rune s)) s) = hd s"
      using 1 by (auto simp: hd_take)
    have "trim_right (take (length s - snd (decode_last_rune s)) s) \<noteq> []"
      using "1.IH"[OF _ True t(1)] "1.prems" t by simp
    then show ?thesis using True 1 by (subst trim_right.simps) simp
  qed (use 1 in \<open>subst trim_right.simps; simp\<close>)
qed

lemma TrimSpace_nonblank: "s \<noteq> [] \<Longrightarrow> ValidFieldNameChar (byte (hd s)) \<Longrightarrow> TrimSpace s \<noteq> []"
  using ValidFieldNameChar_ascii ValidFieldNameChar_not_space
  by (simp add: TrimSpace_def trim_left_id trim_right_nonblank)

section \<open>A valid configuration\<close>

text \<open>What \<open>validateSMTPConfig\<close> demands, without an order of checks.\<close>

definition em_valid_headers :: "(string \<times> string) list \<Rightarrow> bool" where
  "em_valid_headers hs \<longleftrightarrow>
     list_all (\<lambda>(n, v). ValidFieldName n \<and> \<not> isReservedHeader n \<and> \<not> ContainsNewline v) hs"

definition good_mailbox :: "parse_address \<Rightarrow> string \<Rightarrow> bool" where
  "good_mailbox pa v = (case parseMailbox pa v of Inl _ \<Rightarrow> False | Inr _ \<Rightarrow> True)"

definition em_config_ok :: "parse_address \<Rightarrow> 'v email \<Rightarrow> bool" where
  "em_config_ok pa t \<longleftrightarrow>
     em_TLSMode t \<in> {[], TLSRequired, TLSImplicit, TLSPlaintext} \<and> em_BodyFormat t \<in> {[], BodyHTML, BodyText} \<and>
     (em_TLSMode t = TLSPlaintext \<longrightarrow> em_User t = [] \<and> em_Pass t = []) \<and>
     TrimSpace (em_Host t) \<noteq> [] \<and> 0 < em_Port t \<and> em_Port t \<le> 65535 \<and> TrimSpace (em_From t) \<noteq> [] \<and>
     em_To t @ em_CC t @ em_BCC t \<noteq> [] \<and>
     list_all (good_mailbox pa) (em_From t # em_To t @ em_CC t @ em_BCC t) \<and> em_valid_headers (em_Headers t)"

lemma em_validateHeaderName_None: "em_validateHeaderName n = None \<longleftrightarrow> ValidFieldName n"
  by (simp add: em_validateHeaderName_def ValidFieldName_def)

lemma em_check_headers_None: "em_check_headers hs = None \<longleftrightarrow> em_valid_headers hs"
  by (induction hs rule: em_check_headers.induct)
    (auto simp: em_valid_headers_def em_validateHeaderName_None[symmetric] em_validateHeaderValue_def split: option.splits)

lemma em_validateHeaders_None: "fst (em_validateHeaders hs w) = None \<longleftrightarrow> em_valid_headers hs"
proof -
  have "em_valid_headers (fst (map_range hs w)) = em_valid_headers hs"
    by (simp add: em_valid_headers_def list_all_iff)
  then show ?thesis by (simp add: em_validateHeaders_def split_beta em_check_headers_None)
qed

lemma em_validateHeaders_frame [simp]:
  "now (snd (em_validateHeaders hs w)) = now w" "logs (snd (em_validateHeaders hs w)) = logs w"
  "world (snd (em_validateHeaders hs w)) = world w"
  by (simp_all add: em_validateHeaders_def split_beta)

lemma check_recipients_None: "check_recipients pa rs = None \<longleftrightarrow> list_all (good_mailbox pa) rs"
  by (induction rs) (auto simp: good_mailbox_def split: sum.splits)

lemma validateSMTPConfig_None: "fst (validateSMTPConfig pa t w) = None \<longleftrightarrow> em_config_ok pa t"
proof (cases "parseMailbox pa (em_From t)")
  case (Inl e)
  then show ?thesis
    by (simp add: validateSMTPConfig_def Let_def em_config_ok_def good_mailbox_def del: insert_iff)
next
  case (Inr m)
  then have "good_mailbox pa (em_From t)" by (simp add: good_mailbox_def)
  then show ?thesis
    using Inr check_recipients_None[of pa "envelopeRecipients (em_To t) (em_CC t) (em_BCC t)"]
      em_validateHeaders_None[of "em_Headers t" w]
    by (cases "check_recipients pa (envelopeRecipients (em_To t) (em_CC t) (em_BCC t))")
      (simp_all add: validateSMTPConfig_def Let_def em_config_ok_def envelopeRecipients_def not_less del: insert_iff, blast+)
qed

lemma validateSMTPConfig_frame [simp]:
  "now (snd (validateSMTPConfig pa t w)) = now w" "logs (snd (validateSMTPConfig pa t w)) = logs w"
  "world (snd (validateSMTPConfig pa t w)) = world w"
  unfolding validateSMTPConfig_def Let_def
  by (simp_all del: insert_iff split: sum.split option.split)

section \<open>Header lines\<close>

definition one_line_mailboxes :: "parse_address \<Rightarrow> bool" where
  "one_line_mailboxes pa \<longleftrightarrow> (\<forall>v m. pa v = Some m \<longrightarrow> one_line (mailbox_String m))"

definition field_name :: "string \<Rightarrow> string" where
  "field_name l = takeWhile (\<lambda>c. c \<noteq> CHR '':'') l"

lemma one_line_append [simp]: "one_line (s @ t) \<longleftrightarrow> one_line s \<and> one_line t"
  by (auto simp: one_line_def)

lemma one_line_Cons [simp]: "one_line (c # s) \<longleftrightarrow> c \<noteq> CR \<and> c \<noteq> LF \<and> one_line s"
  by (auto simp: one_line_def)

lemma one_line_Nil [simp]: "one_line []"
  by (simp add: one_line_def)

lemma one_line_formatMailbox:
  "one_line_mailboxes pa \<Longrightarrow> good_mailbox pa v \<Longrightarrow> one_line (formatMailbox pa v)"
  by (auto simp: formatMailbox_def good_mailbox_def one_line_mailboxes_def parseMailbox_def
      split: sum.splits option.splits if_splits)

lemma one_line_Join: "list_all one_line ss \<Longrightarrow> one_line sep \<Longrightarrow> one_line (strings_Join ss sep)"
  by (induction ss sep rule: strings_Join.induct) simp_all

lemma one_line_formatMailboxes:
  "one_line_mailboxes pa \<Longrightarrow> list_all (good_mailbox pa) vs \<Longrightarrow> one_line (formatMailboxes pa vs)"
  unfolding formatMailboxes_def by (rule one_line_Join) (auto simp: list_all_iff one_line_formatMailbox)

lemma one_line_encodeSubject: "one_line v \<Longrightarrow> one_line (encodeSubject v)"
proof -
  assume v: "one_line v"
  have "one_line (encode_words ws)" for ws
    using encode_words_line[of CR ws] encode_words_line[of LF ws] by (auto simp: one_line_def printable_def)
  then show ?thesis using v by (simp add: encodeSubject_def QEncode_def)
qed

definition custom_lines :: "(string, string) go_map \<Rightarrow> string list" where
  "custom_lines hs = map (\<lambda>name. name @ '': '' @ the (map_get hs name)) (sort (map fst hs))"

lemma email_headers_eq:
  "email_headers pa t subject = standard_headers pa t subject @
     (if em_CC t = [] then [] else [''Cc: '' @ formatMailboxes pa (em_CC t)]) @ custom_lines (em_Headers t)"
  by (simp add: email_headers_def appendHeaders_def custom_lines_def)

lemma custom_line:
  assumes "em_valid_headers hs" and "l \<in> set (custom_lines hs)"
  shows "\<exists>n v. l = n @ '': '' @ v \<and> ValidFieldName n \<and> \<not> isReservedHeader n \<and> one_line v"
proof -
  obtain n where n: "n \<in> fst ` set hs" and l: "l = n @ '': '' @ the (map_get hs n)"
    using assms(2) by (auto simp: custom_lines_def)
  then obtain v where v: "map_get hs n = Some v" using map_get_None[of hs n] by auto
  then have "(n, v) \<in> set hs" by (simp add: map_get_def map_of_SomeD)
  then have "ValidFieldName n \<and> \<not> isReservedHeader n \<and> one_line v"
    using assms(1) by (auto simp: em_valid_headers_def list_all_iff one_line_iff)
  then show ?thesis using l v by auto
qed

lemma email_headers_lines:
  assumes "em_config_ok pa t" and "one_line subject" and "one_line_mailboxes pa"
    and "l \<in> set (email_headers pa t subject)"
  shows "one_line l \<and> l \<noteq> [] \<and> ValidFieldNameChar (byte (hd l))"
proof -
  have boxes: "one_line (formatMailbox pa (em_From t))" "one_line (formatMailboxes pa (em_To t))"
    "one_line (formatMailboxes pa (em_CC t))"
    using assms(1,3) by (simp_all add: em_config_ok_def one_line_formatMailbox one_line_formatMailboxes)
  have sub: "one_line (encodeSubject subject)" by (rule one_line_encodeSubject[OF assms(2)])
  consider "l \<in> set (standard_headers pa t subject)" | "l = ''Cc: '' @ formatMailboxes pa (em_CC t)"
    | "l \<in> set (custom_lines (em_Headers t))"
    using assms(4) by (auto simp: email_headers_eq split: if_splits)
  then show ?thesis
  proof cases
    case 1
    then show ?thesis
      using boxes sub by (auto simp: standard_headers_def bodyContentType_def ValidFieldNameChar_def)
  next
    case 2
    then show ?thesis using boxes by (simp add: ValidFieldNameChar_def)
  next
    case 3
    then obtain n v where l: "l = n @ '': '' @ v" and n: "ValidFieldName n" and v: "one_line v"
      using custom_line[of "em_Headers t" l] assms(1) by (auto simp: em_config_ok_def)
    have "n \<noteq> []" "\<And>c. c \<in> set n \<Longrightarrow> ValidFieldNameChar (byte c)"
      using n ValidFieldName_byte by (auto simp: ValidFieldName_def)
    moreover have "one_line n" using ValidFieldName_no_newline[OF n] by (simp add: one_line_iff)
    ultimately show ?thesis using l v by (cases n) auto
  qed
qed

lemma header_lines_kept:
  assumes "\<And>l. l \<in> set ls \<Longrightarrow> l \<noteq> [] \<and> ValidFieldNameChar (byte (hd l))"
  shows "filter (\<lambda>l. TrimSpace l \<noteq> []) ls = ls"
  using assms TrimSpace_nonblank by (simp add: filter_id_conv)

text \<open>How often a reserved field name occurs among the header lines.\<close>

lemma field_name_colon: "CHR '':'' \<notin> set n \<Longrightarrow> field_name (n @ CHR '':'' # v) = n"
  unfolding field_name_def by (subst takeWhile_append2) auto

lemma field_name_simps [simp]: "field_name (CHR '':'' # l) = []" "c \<noteq> CHR '':'' \<Longrightarrow> field_name (c # l) = c # field_name l"
  by (simp_all add: field_name_def)

lemma ToLower_is_unique:
  assumes "ToLower_is s m"
  shows "ToLower_is s n \<longleftrightarrow> n = m"
proof -
  have "inj (of_char :: char \<Rightarrow> nat)" by (rule injI) simp
  then show ?thesis using assms by (auto simp: ToLower_is_def inj_map_eq_map)
qed

lemma lower_names:
  "ToLower_is ''From'' n \<longleftrightarrow> n = ''from''" "ToLower_is ''To'' n \<longleftrightarrow> n = ''to''"
  "ToLower_is ''Subject'' n \<longleftrightarrow> n = ''subject''" "ToLower_is ''MIME-Version'' n \<longleftrightarrow> n = ''mime-version''"
  "ToLower_is ''Content-Type'' n \<longleftrightarrow> n = ''content-type''" "ToLower_is ''Cc'' n \<longleftrightarrow> n = ''cc''"
  "ToLower_is ''Content-Transfer-Encoding'' n \<longleftrightarrow> n = ''content-transfer-encoding''"
  by (rule ToLower_is_unique, simp add: ToLower_is_def lower_rune_def)+

definition standard_names :: "string list" where
  "standard_names = [''From'', ''To'', ''Subject'', ''MIME-Version'', ''Content-Type'', ''Content-Transfer-Encoding'']"

lemma standard_names_count:
  "list_all (\<lambda>n. length (filter (\<lambda>f. ToLower_is f n) standard_names) = (if n = ''bcc'' \<or> n = ''cc'' then 0 else 1))
     reserved_names"
  by (simp add: reserved_names_def standard_names_def lower_names)

lemma standard_counts:
  assumes "n \<in> set reserved_names"
  shows "length (filter (\<lambda>l. ToLower_is (field_name l) n)
      (standard_headers pa t subject @ (if em_CC t = [] then [] else [''Cc: '' @ formatMailboxes pa (em_CC t)]))) =
    (if n = ''bcc'' \<or> (n = ''cc'' \<and> em_CC t = []) then 0 else 1)"
proof -
  have names: "map field_name (standard_headers pa t subject) = standard_names"
    "field_name (''Cc: '' @ formatMailboxes pa (em_CC t)) = ''Cc''"
    by (simp_all add: standard_headers_def standard_names_def)
  have "length (filter (\<lambda>l. ToLower_is (field_name l) n) (standard_headers pa t subject)) =
      length (filter (\<lambda>f. ToLower_is f n) (map field_name (standard_headers pa t subject)))"
    by (simp add: filter_map comp_def)
  also have "\<dots> = (if n = ''bcc'' \<or> n = ''cc'' then 0 else 1)"
    using standard_names_count assms unfolding names list_all_iff by blast
  finally have std: "length (filter (\<lambda>l. ToLower_is (field_name l) n) (standard_headers pa t subject)) =
    (if n = ''bcc'' \<or> n = ''cc'' then 0 else 1)" .
  have cc: "length (filter (\<lambda>l. ToLower_is (field_name l) n) (if em_CC t = [] then [] else [''Cc: '' @ formatMailboxes pa (em_CC t)])) =
      (if n = ''cc'' \<and> em_CC t \<noteq> [] then 1 else 0)"
    by (simp only: filter.simps lower_names names(2) split: if_split) simp
  show ?thesis unfolding filter_append length_append std cc by simp
qed

lemma reserved_count:
  assumes "em_valid_headers (em_Headers t)" and "n \<in> set reserved_names"
  shows "length (filter (\<lambda>l. ToLower_is (field_name l) n) (email_headers pa t subject)) =
    (if n = ''bcc'' \<or> (n = ''cc'' \<and> em_CC t = []) then 0 else 1)"
proof -
  have "\<not> ToLower_is (field_name l) n" if mem: "l \<in> set (custom_lines (em_Headers t))" for l
  proof -
    obtain m v where l: "l = m @ '': '' @ v" and m: "ValidFieldName m" "\<not> isReservedHeader m"
      using custom_line[OF assms(1) mem] by auto
    then have "field_name l = m" using field_name_colon[OF ValidFieldName_no_colon[OF m(1)]] by simp
    then show ?thesis using m(2) assms(2) by (auto simp: isReservedHeader_def list_ex_iff)
  qed
  then have "filter (\<lambda>l. ToLower_is (field_name l) n) (custom_lines (em_Headers t)) = []"
    by (simp add: filter_empty_conv)
  then show ?thesis
    using standard_counts[OF assms(2), of pa t subject] unfolding email_headers_eq append_assoc[symmetric]
    by (simp only: filter_append append_Nil2)
qed

lemma parse_buildEmail:
  assumes "em_config_ok pa t" and "one_line subject" and "one_line_mailboxes pa"
  shows "parse_message (buildEmail pa t subject body) =
    (email_headers pa t subject, to_crlf body @ (if HasSuffix (to_crlf body) crlf then [] else crlf))"
proof -
  note lines = email_headers_lines[OF assms]
  have "filter (\<lambda>l. TrimSpace l \<noteq> []) (email_headers pa t subject) = email_headers pa t subject"
    by (rule header_lines_kept) (use lines in blast)
  then show ?thesis
    using parse_message_lines[of "email_headers pa t subject"] lines
    by (simp add: buildEmail_def normalizeBody_to_crlf)
qed

section \<open>Subjects\<close>

lemma isASCII_bytes: "isASCII v \<longleftrightarrow> list_all (\<lambda>c. byte c < 128) v"
proof -
  have "\<not> 127 < r \<longleftrightarrow> r < 128" for r :: nat by linarith
  then have "isASCII v \<longleftrightarrow> list_all (\<lambda>r. r < 128) (runes v)"
    by (simp add: isASCII_def)
  then show ?thesis using runes_valid[of "\<lambda>r. r < 128" v] by simp
qed

lemma not_ASCII_encoded: "\<not> isASCII v \<Longrightarrow> encodeSubject v = encode_words (q_split 0 v)"
  by (auto simp: encodeSubject_def QEncode_def needsEncoding_def isASCII_bytes list_all_iff list_ex_iff not_less)

lemma split_encode_words:
  "ws \<noteq> [] \<Longrightarrow> split_on (CHR '' '') (encode_words ws) = map (\<lambda>w. open_word @ q_string w @ close_word) ws"
proof -
  assume ws: "ws \<noteq> []"
  have "CHR '' '' \<notin> set v" if "v \<in> set (map (\<lambda>w. open_word @ q_string w @ close_word) ws)" for v
    using that word_printable[of "CHR '' ''"] unfolding printable_def by fastforce
  then show ?thesis unfolding encode_words_def by (intro split_on_Join) (use ws in auto)
qed

lemma encoded_word_length: "w \<in> set (q_split 0 v) \<Longrightarrow> length (open_word @ q_string w @ close_word) \<le> 75"
proof -
  assume "w \<in> set (q_split 0 v)"
  moreover have "q_split 0 v = hd (q_split 0 v) # tl (q_split 0 v)" by simp
  ultimately have "w = hd (q_split 0 v) \<or> w \<in> set (tl (q_split 0 v))" by (metis set_ConsD)
  then have "length (q_string w) \<le> word_limit" using q_split_limit[of 0 v] by auto
  then show ?thesis by (simp add: open_word_def close_word_def word_limit_def)
qed

lemma crlf_only_append: "crlf_only a \<Longrightarrow> crlf_only b \<Longrightarrow> crlf_only (a @ b)"
  by (induction a rule: crlf_only.induct) (auto split: list.splits if_splits)

end
