(* ===== verification/Smtp_Facts.thy ===== *)
theory Smtp_Facts
  imports Email_Send Email_Facts Target_Contract
begin

text \<open>
  Lemmas on the email target around the SMTP conversation: when it is refused before it
  starts, and how its errors are classified.
\<close>

section \<open>Readiness\<close>

definition em_ready :: "parse_address \<Rightarrow> 'v \<Rightarrow> 'v email option \<Rightarrow> 'v payload \<Rightarrow> message option" where
  "em_ready pa nil_any t p = (case map_option em_applyDefaults t of None \<Rightarrow> None
     | Some t \<Rightarrow> (case em_Render nil_any (Some t) p of Inl _ \<Rightarrow> None
         | Inr m \<Rightarrow> if em_config_ok pa t then Some m else None))"

lemma em_applyDefaults_idem [simp]: "em_applyDefaults (em_applyDefaults t) = em_applyDefaults t"
  by (simp add: em_applyDefaults_def Let_def cmp_Or_def email_constants)

lemma em_SendResult_not_ready:
  assumes "em_ready (ParseAddress lib) nil_any t p = None" and "\<And>c. ctx = Some c \<Longrightarrow> ctx_Err c w = None"
  shows "\<exists>r e w'. em_SendResult lib nil_any t ctx p w = ((r, Permanent (Some e)), w') \<and>
    now w' = now w \<and> logs w' = logs w \<and> world w' = world w"
proof (cases "t = None \<or> ctx = None")
  case True
  then show ?thesis by (auto simp: em_SendResult_def split: option.splits)
next
  case False
  then obtain t0 c where tc: "t = Some t0" "ctx = Some c" by auto
  let ?t = "em_applyDefaults t0"
  have live: "ctx_Err c w = None" using assms(2) tc by simp
  obtain err w1 where v: "validateSMTPConfig (ParseAddress lib) ?t w = (err, w1)" by fastforce
  have frame: "now w1 = now w" "logs w1 = logs w" "world w1 = world w"
    using validateSMTPConfig_frame[of "ParseAddress lib" ?t w] by (simp_all add: v)
  have ok: "err = None \<longleftrightarrow> em_config_ok (ParseAddress lib) ?t"
    using validateSMTPConfig_None[of "ParseAddress lib" ?t w] by (simp add: v)
  show ?thesis
  proof (cases "em_Render nil_any (Some ?t) p")
    case (Inl e)
    then show ?thesis using live by (auto simp: em_SendResult_def tc Let_def)
  next
    case (Inr m)
    then obtain e where "err = Some e"
      using assms(1) ok by (cases err) (auto simp: em_ready_def tc)
    then show ?thesis using Inr live v frame by (auto simp: em_SendResult_def tc Let_def)
  qed
qed

interpretation email: delivery_target "\<lambda>ctx. em_SendResult lib nil_any t (Some ctx)"
  "\<lambda>p. em_ready (ParseAddress lib) nil_any t p \<noteq> None"
proof (unfold_locales, goal_cases)
  case (1 p ctx w)
  then show ?case
    using em_SendResult_not_ready[of lib nil_any t p "Some ctx" w] by auto
qed

lemma em_SendResult_ready:
  assumes "em_ready (ParseAddress lib) nil_any (Some t) p = Some m" and "ctx_Err ctx w = None"
    and "em_SendResult lib nil_any (Some t) (Some ctx) p w = ((r, e), w')"
  shows "\<exists>w1 sent. now w1 = now w \<and> logs w1 = logs w \<and> world w1 = world w \<and>
    sendSMTP lib ctx (em_applyDefaults t) (Subject m) (Body m) w1 = (sent, w') \<and> e = classifySMTPError sent \<and>
    em_config_ok (ParseAddress lib) (em_applyDefaults t) \<and>
    r = \<lparr>Status = (if e = None then ''sent'' else ''failed''), StatusCode = 0,
         Response = rounded_string (now w' - now w), RetryAfter = 0\<rparr>"
proof -
  let ?t = "em_applyDefaults t"
  have render: "em_Render nil_any (Some ?t) p = Inr m" and ok: "em_config_ok (ParseAddress lib) ?t"
    using assms(1) by (auto simp: em_ready_def split: sum.splits if_splits)
  obtain err w1 where v: "validateSMTPConfig (ParseAddress lib) ?t w = (err, w1)" by fastforce
  have "err = None" using validateSMTPConfig_None[of "ParseAddress lib" ?t w] v ok by simp
  moreover have "now w1 = now w" "logs w1 = logs w" "world w1 = world w"
    using validateSMTPConfig_frame[of "ParseAddress lib" ?t w] by (simp_all add: v)
  ultimately show ?thesis
    using assms(2,3) render ok v by (auto simp: em_SendResult_def Let_def split: prod.splits)
qed

section \<open>Classification\<close>

text \<open>The codes of the first proxy error and the first SMTP reply in an error, and the verdict.\<close>

definition proxy_code :: "go_error \<Rightarrow> int option" where
  "proxy_code e = (case errors_As is_proxy_error e of Some (ProxyError c s) \<Rightarrow> Some c | _ \<Rightarrow> None)"

definition reply_code :: "go_error \<Rightarrow> int option" where
  "reply_code e = (case errors_As is_textproto_error e of Some (TextprotoError c m) \<Rightarrow> Some c | _ \<Rightarrow> None)"

definition retry_worthy :: "go_error \<Rightarrow> bool" where
  "retry_worthy e \<longleftrightarrow> (case proxy_code e of
       Some c \<Rightarrow> c = 408 \<or> c = 429 \<or> 500 \<le> c
     | None \<Rightarrow> (case reply_code e of
         Some c \<Rightarrow> 400 \<le> c \<and> c < 500
       | None \<Rightarrow> errors_As is_certificate_error e = None \<and> is_transient e))"

lemma proxy_error_cases: "errors_As is_proxy_error e = Some x \<Longrightarrow> \<exists>c s. x = ProxyError c s"
  using errors_As_SomeD[of is_proxy_error e x] by (cases x) auto

lemma reply_cases: "errors_As is_textproto_error e = Some x \<Longrightarrow> \<exists>c m. x = TextprotoError c m"
  using errors_As_SomeD[of is_textproto_error e x] by (cases x) auto

lemma classifySMTPError_Some:
  "classifySMTPError (Some e) = (if IsPermanent (Some e) then Some e
     else if retry_worthy e then Transport (Some e) else Permanent (Some e))"
proof (cases "errors_As is_proxy_error e")
  case None
  show ?thesis
  proof (cases "errors_As is_textproto_error e")
    case reply: None
    show ?thesis by (simp add: classifySMTPError_def retry_worthy_def proxy_code_def reply_code_def None reply)
  next
    case (Some x)
    then obtain c m where "x = TextprotoError c m" using reply_cases by blast
    then show ?thesis
      using Some None by (simp add: classifySMTPError_def retry_worthy_def proxy_code_def reply_code_def)
  qed
next
  case (Some x)
  then obtain c s where "x = ProxyError c s" using proxy_error_cases by blast
  then show ?thesis using Some by (simp add: classifySMTPError_def retry_worthy_def proxy_code_def)
qed

lemma classifySMTPError_None [simp]: "classifySMTPError err = None \<longleftrightarrow> err = None"
proof (cases err)
  case (Some e)
  then show ?thesis by (simp add: classifySMTPError_Some del: not_None_eq)
qed (simp add: classifySMTPError_def)

section \<open>Writing the message\<close>

lemma says_write_message:
  assumes net: "Net lib = converse"
    and T: "\<And>r1 r2 r. isl r = (isl r1 \<or> isl r2) \<Longrightarrow> T [(WriteMessage msg, r1), (EndOfData, r2)] r"
  shows "says (write_message lib t msg) T"
  unfolding says_def
proof (intro allI impI)
  fix w r w2
  assume run: "write_message lib t msg w = (r, w2)"
  obtain r1 w1 where 1: "converse (WriteMessage msg) w = (r1, w1)" by fastforce
  obtain r2 w3 where 2: "converse EndOfData w1 = (r2, w3)" by fastforce
  have "w2 = w3 \<and> (isl r \<longleftrightarrow> isl r1 \<or> isl r2)"
    using run 1 2 by (cases r1; cases r2) (auto simp: write_message_def net step_def map_error_def andThen_def)
  then show "extends w w2 \<and> T (talk w w2) r"
    using extends_converse[OF 1] extends_converse[OF 2] extends_trans[of w w1 w3] talk_append[of w w1 w3] T
    by simp
qed

section \<open>The two ways of a send\<close>

text \<open>A send is refused before anything happens, or it attempts the conversation.\<close>

lemma em_SendResult_cases:
  assumes run: "em_SendResult lib nil_any (Some t) (Some ctx) p w = ((r, e), w')"
    and target: "target = em_applyDefaults t" and pa: "pa = ParseAddress lib"
  obtains (refused) "e \<noteq> None" "now w' = now w" "world w' = world w"
  | (ran) m w1 x where "em_ready pa nil_any (Some t) p = Some m" "now w1 = now w" "world w1 = world w"
      "em_config_ok pa target" "e = None \<longleftrightarrow> \<not> isl x"
      "attempt lib (context_WithTimeout ctx (em_Timeout target) w1) target (buildEmail pa target (Subject m) (Body m)) w1 = (x, w')"
proof (cases "ctx_Err ctx w")
  case (Some x)
  then have "e = Some x \<and> w' = w" using run by (simp add: em_SendResult_def)
  then show ?thesis using refused by simp
next
  case live: None
  show ?thesis
  proof (cases "em_ready pa nil_any (Some t) p")
    case None
    then obtain x where "e = Permanent (Some x)" "now w' = now w" "world w' = world w"
      using em_SendResult_not_ready[of lib nil_any "Some t" p "Some ctx" w] run live pa by auto
    then show ?thesis using refused by (simp del: not_None_eq)
  next
    case (Some m)
    have idem: "em_applyDefaults target = target" by (simp add: target)
    obtain w1 sent where w1: "now w1 = now w" "world w1 = world w" and ok: "em_config_ok pa target"
      and e: "e = classifySMTPError sent" and send: "sendSMTP lib ctx target (Subject m) (Body m) w1 = (sent, w')"
      using em_SendResult_ready[OF Some[unfolded pa] live run] target pa by blast
    obtain x where "attempt lib (context_WithTimeout ctx (em_Timeout target) w1) target (buildEmail pa target (Subject m) (Body m)) w1 = (x, w')"
      and "sent = None \<longleftrightarrow> \<not> isl x"
      using send by (auto simp: sendSMTP_def Let_def idem pa split: prod.splits sum.splits)
    then show ?thesis using ran[OF Some w1 ok] classifySMTPError_None e by blast
  qed
qed

end
