(* ===== verification/Smtp_Tls.thy ===== *)
theory Smtp_Tls
  imports Smtp_Facts
begin

text \<open>
  Lemmas on the SMTP conversation: what is said while the connection is opened, and what comes
  before credentials and mail are sent.
\<close>

section \<open>TLS first\<close>

text \<open>The handshake with the SMTP server itself that a target's mode asks for.\<close>

definition server_handshake :: "'v email \<Rightarrow> command \<Rightarrow> bool" where
  "server_handshake t c = (case c of
       TLSHandshake h s _ \<Rightarrow> em_TLSMode t = TLSImplicit \<and> h = em_Host t \<and> s = em_SkipTLSVerify t
     | StartTLS h s \<Rightarrow> em_TLSMode t \<noteq> TLSImplicit \<and> h = em_Host t \<and> s = em_SkipTLSVerify t
     | _ \<Rightarrow> False)"

definition secures :: "'v email \<Rightarrow> command \<times> reply \<Rightarrow> bool" where
  "secures t cr \<longleftrightarrow> server_handshake t (fst cr) \<and> \<not> isl (snd cr)"

text \<open>What may be said depending on whether the connection to the server is encrypted.\<close>

definition may_say :: "'v email \<Rightarrow> bool \<Rightarrow> command \<Rightarrow> bool" where
  "may_say t sec c = (case c of
       AuthPlain _ _ \<Rightarrow> sec
     | MailFrom _ \<Rightarrow> sec \<or> em_TLSMode t = TLSPlaintext
     | RcptTo _ \<Rightarrow> sec \<or> em_TLSMode t = TLSPlaintext
     | Data \<Rightarrow> sec \<or> em_TLSMode t = TLSPlaintext
     | WriteMessage _ \<Rightarrow> sec \<or> em_TLSMode t = TLSPlaintext
     | _ \<Rightarrow> True)"

fun tls_first :: "'v email \<Rightarrow> bool \<Rightarrow> transcript \<Rightarrow> bool" where
  "tls_first t sec [] = True"
| "tls_first t sec (cr # tr) = (may_say t sec (fst cr) \<and> tls_first t (sec \<or> secures t cr) tr)"

lemma may_say_mono: "may_say t sec c \<Longrightarrow> (sec \<Longrightarrow> sec') \<Longrightarrow> may_say t sec' c"
  by (cases c) (auto simp: may_say_def)

lemma tls_first_mono: "tls_first t sec tr \<Longrightarrow> (sec \<Longrightarrow> sec') \<Longrightarrow> tls_first t sec' tr"
proof (induction tr arbitrary: sec sec')
  case (Cons cr tr)
  have "tls_first t (sec' \<or> secures t cr) tr"
    by (rule Cons.IH[of "sec \<or> secures t cr"]) (use Cons.prems in auto)
  then show ?case using Cons.prems may_say_mono[of t sec "fst cr" sec'] by simp
qed simp

lemma tls_first_append:
  "tls_first t sec (tr @ tr') \<longleftrightarrow> tls_first t sec tr \<and> tls_first t (sec \<or> list_ex (secures t) tr) tr'"
proof (induction tr arbitrary: sec)
  case (Cons cr tr)
  show ?case by (simp add: Cons.IH disj_assoc)
qed simp

definition tls_safe :: "'v email \<Rightarrow> bool \<Rightarrow> ('a, conversation) io \<Rightarrow> bool" where
  "tls_safe t sec m \<longleftrightarrow> says m (\<lambda>tr r. tls_first t sec tr)"

lemma tls_safe_andThen:
  assumes "tls_safe t sec m" and "\<And>a. tls_safe t sec (k a)"
  shows "tls_safe t sec (andThen m k)"
  unfolding tls_safe_def
  by (rule says_andThen[OF assms[unfolded tls_safe_def]]) (auto simp: tls_first_append intro: tls_first_mono)

lemma tls_safe_simps [intro]:
  "tls_safe t sec (succeed a)" "tls_safe t sec (fail e)" "tls_safe t sec (check_ctx ctx)"
  "tls_safe t sec (lift_result x)"
proof -
  show "tls_safe t sec (check_ctx ctx)" unfolding tls_safe_def by (rule says_check_ctx) simp_all
qed (auto simp: tls_safe_def says_def lift_result_def)

lemma tls_safe_step: "tls_safe t sec m \<Longrightarrow> tls_safe t sec (step op t' m)"
  unfolding tls_safe_def step_def by (rule says_map_error)

lemma tls_safe_converse: "may_say t sec c \<Longrightarrow> tls_safe t sec (converse c)"
  unfolding tls_safe_def by (rule says_converse) simp

lemma tls_safe_ignore: "tls_safe t sec m \<Longrightarrow> tls_safe t sec (ignore_error m)"
  unfolding tls_safe_def by (rule says_ignore)

lemma tls_safe_finally: "tls_safe t sec m \<Longrightarrow> may_say t False c \<Longrightarrow> tls_safe t sec (finally_do converse c m)"
  unfolding tls_safe_def by (erule says_finally) (auto simp: tls_first_append intro: may_say_mono)

lemmas tls_intros = tls_safe_andThen tls_safe_simps tls_safe_step tls_safe_converse tls_safe_ignore

text \<open>Whether the connection must be encrypted from the upgrade on.\<close>

abbreviation needs_tls :: "'v email \<Rightarrow> bool" where
  "needs_tls t \<equiv> em_TLSMode t \<noteq> TLSPlaintext"

lemma safe_recipients: "Net lib = converse \<Longrightarrow> tls_safe t (needs_tls t) (send_recipients lib t rs)"
  by (induction rs) (auto intro!: tls_intros simp: smtp_line_def may_say_def)

lemma safe_send_data: "Net lib = converse \<Longrightarrow> tls_safe t (needs_tls t) (send_data lib t' msg)"
proof -
  assume net: "Net lib = converse"
  have "tls_safe t (needs_tls t) (write_message lib t' msg)"
    unfolding tls_safe_def by (rule says_write_message[OF net]) (simp add: may_say_def)
  then show ?thesis
    unfolding send_data_def by (auto intro!: tls_intros simp: net may_say_def)
qed

lemma safe_smtpSend: "Net lib = converse \<Longrightarrow> tls_safe t (needs_tls t) (smtpSend lib t msg)"
  unfolding smtpSend_def
  by (intro tls_safe_andThen safe_recipients safe_send_data)
    (auto intro!: tls_intros simp: smtp_line_def may_say_def)

lemma safe_auth:
  assumes "Net lib = converse" and "em_TLSMode t = TLSPlaintext \<longrightarrow> em_User t = [] \<and> em_Pass t = []"
  shows "tls_safe t (needs_tls t) (smtpAuth lib t tls)"
  using assms unfolding smtpAuth_def by (auto intro!: tls_intros simp: may_say_def)

lemma says_upgrade:
  assumes "Net lib = converse"
  shows "says (upgrade lib t greeting) (\<lambda>tr r. tls_first t sec tr \<and>
    (\<not> isl r \<longrightarrow> needs_tls t \<longrightarrow> em_TLSMode t = TLSImplicit \<or> list_ex (secures t) tr))"
proof (cases "em_TLSMode t \<noteq> TLSPlaintext \<and> em_TLSMode t \<noteq> TLSImplicit")
  case True
  let ?c = "StartTLS (em_Host t) (em_SkipTLSVerify t)"
  have "says (step ''STARTTLS handshake'' t (converse ?c))
      (\<lambda>tr r. tls_first t sec tr \<and> (\<not> isl r \<longrightarrow> list_ex (secures t) tr))"
    unfolding step_def
    by (rule says_map_error[OF says_converse[where T = "\<lambda>tr r. tls_first t sec tr \<and> (\<not> isl r \<longrightarrow> list_ex (secures t) tr)"]])
      (use True in \<open>auto simp: secures_def may_say_def server_handshake_def\<close>)
  then have ok: "says (andThen (step ''STARTTLS handshake'' t (converse ?c)) (\<lambda>_. succeed True))
      (\<lambda>tr r. tls_first t sec tr \<and> (\<not> isl r \<longrightarrow> list_ex (secures t) tr))"
    by (rule says_andThen[where U = "\<lambda>_ tr r. tr = [] \<and> r = Inr True"]) (auto simp: says_def)
  show ?thesis
  proof (cases "''STARTTLS'' \<in> set (answer_extensions greeting)")
    case True
    then show ?thesis
      using \<open>em_TLSMode t \<noteq> TLSPlaintext \<and> em_TLSMode t \<noteq> TLSImplicit\<close> says_conseq[OF ok]
      by (simp add: upgrade_def assms smtpTLSConfig_def)
  next
    case False
    then show ?thesis
      using \<open>em_TLSMode t \<noteq> TLSPlaintext \<and> em_TLSMode t \<noteq> TLSImplicit\<close>
      by (simp add: upgrade_def assms says_def)
  qed
next
  case False
  then show ?thesis by (auto simp: upgrade_def intro!: says_succeed)
qed

lemma safe_session:
  assumes net: "Net lib = converse" and cred: "em_TLSMode t = TLSPlaintext \<longrightarrow> em_User t = [] \<and> em_Pass t = []"
  shows "tls_safe t (em_TLSMode t = TLSImplicit) (smtp_session lib ctx t msg)"
proof -
  let ?sec = "em_TLSMode t = TLSImplicit"
  have rest: "tls_safe t (needs_tls t) (andThen (check_ctx ctx) (\<lambda>_.
      andThen (step ''authentication'' t (smtpAuth lib t tls)) (\<lambda>_. andThen (check_ctx ctx) (\<lambda>_. smtpSend lib t msg))))" for tls
    by (intro tls_safe_andThen tls_safe_simps tls_safe_step safe_auth[OF net cred] safe_smtpSend[OF net])
  have up: "tls_safe t ?sec (andThen (upgrade lib t greeting) (\<lambda>tls. andThen (check_ctx ctx) (\<lambda>_.
      andThen (step ''authentication'' t (smtpAuth lib t tls)) (\<lambda>_. andThen (check_ctx ctx) (\<lambda>_. smtpSend lib t msg)))))" for greeting
    unfolding tls_safe_def
    by (rule says_andThen[OF says_upgrade[OF net, of t greeting ?sec] rest[unfolded tls_safe_def]])
      (auto simp: tls_first_append intro: tls_first_mono)
  have "tls_safe t ?sec (finally_do converse CloseClient (andThen (check_ctx ctx) (\<lambda>_.
      andThen (step ''EHLO/HELO'' t (converse (Hello ''localhost''))) (\<lambda>greeting.
      andThen (upgrade lib t greeting) (\<lambda>tls. andThen (check_ctx ctx) (\<lambda>_.
      andThen (step ''authentication'' t (smtpAuth lib t tls)) (\<lambda>_. andThen (check_ctx ctx) (\<lambda>_. smtpSend lib t msg))))))))"
    by (rule tls_safe_finally[OF tls_safe_andThen[OF _ tls_safe_andThen[OF _ up]]])
      (auto intro!: tls_safe_step tls_safe_converse tls_safe_simps simp: may_say_def)
  then show ?thesis
    unfolding smtp_session_def net
    by (auto intro!: tls_safe_step tls_safe_converse intro: tls_safe_andThen simp: may_say_def)
qed

section \<open>Opening the connection\<close>

fun connecting :: "command \<Rightarrow> bool" where
  "connecting (DialTCP _ _ _) = True"
| "connecting (TLSHandshake _ _ _) = True"
| "connecting (SetDeadline _) = True"
| "connecting ClearDeadline = True"
| "connecting (WriteConnect _) = True"
| "connecting ReadConnectResponse = True"
| "connecting CloseConn = True"
| "connecting _ = False"

definition only_connects :: "('a, conversation) io \<Rightarrow> bool" where
  "only_connects m \<longleftrightarrow> says m (\<lambda>tr r. list_all (connecting \<circ> fst) tr)"

lemma only_connects_andThen: "only_connects m \<Longrightarrow> (\<And>a. only_connects (k a)) \<Longrightarrow> only_connects (andThen m k)"
  unfolding only_connects_def by (erule says_andThen) auto

lemma only_connects_simps [intro]: "only_connects (succeed a)" "only_connects (fail e)"
  by (simp_all add: only_connects_def says_def)

lemma only_connects_converse: "connecting c \<Longrightarrow> only_connects (converse c)"
  unfolding only_connects_def by (rule says_converse) simp

lemma only_connects_map: "only_connects m \<Longrightarrow> only_connects (map_error f m)"
  unfolding only_connects_def by (erule says_map_error)

lemma only_connects_ignore: "only_connects m \<Longrightarrow> only_connects (ignore_error m)"
  unfolding only_connects_def by (erule says_ignore)

lemma only_connects_close: "only_connects m \<Longrightarrow> only_connects (close_on_error converse m)"
  unfolding only_connects_def by (erule says_close_on_error) auto

lemmas connect_intros = only_connects_andThen only_connects_simps only_connects_converse only_connects_map
  only_connects_ignore only_connects_close

lemma only_connects_proxy_deadline: "only_connects (proxy_deadline converse ctx timeout)"
  unfolding only_connects_def proxy_deadline_def
  by (rule says_state[OF says_ignore[OF says_converse]]) auto

lemma dialProxy_connects: "only_connects (dialProxy converse ctx u target timeout)"
  unfolding dialProxy_def open_tunnel_def secure_proxy_def writeConnectRequest_def
  by (auto intro!: connect_intros only_connects_proxy_deadline split: option.split sum.split)

lemma dial_connects: "Net lib = converse \<Longrightarrow> only_connects (dialSMTPConnection lib ctx t address)"
  unfolding dialSMTPConnection_def Let_def
  by (auto intro!: connect_intros dialProxy_connects split: option.split sum.split)

lemma says_implicit_tls:
  assumes "Net lib = converse"
  shows "says (implicit_tls lib ctx t) (\<lambda>tr r. tls_first t False tr \<and>
    (\<not> isl r \<longrightarrow> em_TLSMode t = TLSImplicit \<longrightarrow> list_ex (secures t) tr))"
proof (cases "em_TLSMode t = TLSImplicit")
  case True
  let ?c = "TLSHandshake (em_Host t) (em_SkipTLSVerify t) ctx"
  have "says (step ''TLS handshake'' t (converse ?c))
      (\<lambda>tr r. tls_first t False tr \<and> (\<not> isl r \<longrightarrow> list_ex (secures t) tr))"
    unfolding step_def
    by (rule says_map_error[OF says_converse[where T = "\<lambda>tr r. tls_first t False tr \<and> (\<not> isl r \<longrightarrow> list_ex (secures t) tr)"]])
      (use True in \<open>auto simp: secures_def may_say_def server_handshake_def\<close>)
  then have "says (andThen (step ''TLS handshake'' t (converse ?c)) (\<lambda>_. succeed ()))
      (\<lambda>tr r. tls_first t False tr \<and> (\<not> isl r \<longrightarrow> list_ex (secures t) tr))"
    by (rule says_andThen[where U = "\<lambda>_ tr r. tr = [] \<and> r = Inr ()"]) (auto simp: says_def)
  then show ?thesis
    using True by (simp add: implicit_tls_def assms smtpTLSConfig_def)
next
  case False
  then show ?thesis by (auto simp: implicit_tls_def intro!: says_succeed)
qed

lemma safe_attempt:
  assumes net: "Net lib = converse" and cred: "em_TLSMode t = TLSPlaintext \<longrightarrow> em_User t = [] \<and> em_Pass t = []"
  shows "says (attempt lib ctx t msg) (\<lambda>tr r. \<exists>t1 t2. tr = t1 @ t2 \<and> list_all (connecting \<circ> fst) t1 \<and> tls_first t False t2)"
proof -
  have watched: "tls_safe t sec (closeConnOnContextDone lib ctx m)" if "tls_safe t sec m" for sec m
    unfolding closeConnOnContextDone_def net using that
    by (auto intro!: tls_safe_andThen tls_safe_ignore tls_safe_converse tls_safe_finally simp: may_say_def)
  have "tls_safe t False (andThen (implicit_tls lib ctx t) (\<lambda>_. closeConnOnContextDone lib ctx (smtp_session lib ctx t msg)))"
    unfolding tls_safe_def
    by (rule says_andThen[OF says_implicit_tls[OF net, of ctx t] watched[OF safe_session[OF net cred], unfolded tls_safe_def]])
      (auto simp: tls_first_append intro: tls_first_mono)
  then have "tls_safe t False (andThen (connection_deadline lib ctx t) (\<lambda>_.
      andThen (implicit_tls lib ctx t) (\<lambda>_. closeConnOnContextDone lib ctx (smtp_session lib ctx t msg))))"
    unfolding connection_deadline_def net
    by (cases "deadline_at ctx") (auto intro!: tls_intros simp: may_say_def intro: tls_safe_andThen)
  then have inner: "says (finally_do converse CloseConn (andThen (connection_deadline lib ctx t) (\<lambda>_.
      andThen (implicit_tls lib ctx t) (\<lambda>_. closeConnOnContextDone lib ctx (smtp_session lib ctx t msg)))))
      (\<lambda>tr r. tls_first t False tr)"
    using tls_safe_finally[of t False _ CloseConn] by (simp add: tls_safe_def may_say_def)
  have dial: "says (step ''connection'' t (dialSMTPConnection lib ctx t address)) (\<lambda>tr r. list_all (connecting \<circ> fst) tr)" for address
    using only_connects_map[OF dial_connects[OF net]] unfolding only_connects_def step_def .
  show ?thesis
    unfolding attempt_def Let_def unfolding net
    by (rule says_andThen[OF dial inner]) (metis append_Nil2 tls_first.simps(1), blast)
qed

end
