(* ===== verification/Smtp_Accept.thy ===== *)
theory Smtp_Accept
  imports Smtp_Tls
begin

text \<open>
  Lemmas on the SMTP conversation: which transcripts go with a send that returns no error.
\<close>

section \<open>Acceptance\<close>

definition address_of :: "parse_address \<Rightarrow> string \<Rightarrow> string" where
  "address_of pa v = (case parseMailbox pa v of Inl _ \<Rightarrow> [] | Inr m \<Rightarrow> Address m)"

text \<open>What has to be said, and accepted, for a message to be delivered.\<close>

definition mail_commands :: "parse_address \<Rightarrow> 'v email \<Rightarrow> string \<Rightarrow> command list" where
  "mail_commands pa t msg = MailFrom (address_of pa (em_From t)) #
     map (RcptTo \<circ> address_of pa) (em_To t @ em_CC t @ em_BCC t) @ [Data, WriteMessage msg, EndOfData]"

definition exchange :: "command list \<Rightarrow> transcript \<Rightarrow> bool" where
  "exchange cs tr \<longleftrightarrow> map fst tr = cs \<and> list_all (\<lambda>(c, r). \<not> isl r) tr"

text \<open>The exchange is the last that is said but for closing the connection.\<close>

fun hanging_up :: "command \<Rightarrow> bool" where
  "hanging_up CloseClient = True"
| "hanging_up StopWatch = True"
| "hanging_up CloseConn = True"
| "hanging_up _ = False"

definition accepted :: "command list \<Rightarrow> transcript \<Rightarrow> bool" where
  "accepted cs tr \<longleftrightarrow> (\<exists>t0 t1 t2. tr = t0 @ t1 @ t2 \<and> exchange cs t1 \<and> list_all (hanging_up \<circ> fst) t2)"

fun mail_ok :: "command \<times> reply \<Rightarrow> bool" where
  "mail_ok (WriteMessage _, r) = (\<not> isl r)"
| "mail_ok (_, r) = False"

fun end_ok :: "command \<times> reply \<Rightarrow> bool" where
  "end_ok (EndOfData, r) = (\<not> isl r)"
| "end_ok (_, r) = False"

definition finished :: "transcript \<Rightarrow> bool" where
  "finished tr \<longleftrightarrow> list_ex mail_ok tr \<and> list_ex end_ok tr"

fun mailing :: "command \<Rightarrow> bool" where
  "mailing (WriteMessage _) = True"
| "mailing EndOfData = True"
| "mailing _ = False"

lemma not_mailing: "\<not> mailing (fst cr) \<Longrightarrow> \<not> mail_ok cr \<and> \<not> end_ok cr"
  by (cases cr; cases "fst cr") auto

lemma exchange_append: "exchange cs tr \<Longrightarrow> exchange cs' tr' \<Longrightarrow> exchange (cs @ cs') (tr @ tr')"
  by (simp add: exchange_def)

lemma exchange_finished: "exchange (mail_commands pa t msg) tr \<Longrightarrow> finished tr"
proof -
  assume ex: "exchange (mail_commands pa t msg) tr"
  then have "WriteMessage msg \<in> fst ` set tr" "EndOfData \<in> fst ` set tr"
    by (auto simp: exchange_def mail_commands_def simp flip: set_map)
  then obtain r1 r2 where "(WriteMessage msg, r1) \<in> set tr" "(EndOfData, r2) \<in> set tr" by auto
  then show ?thesis using ex by (force simp: exchange_def finished_def list_all_iff list_ex_iff)
qed

lemma accepted_finished: "accepted (mail_commands pa t msg) tr \<Longrightarrow> finished tr"
proof -
  assume "accepted (mail_commands pa t msg) tr"
  then obtain t0 t1 t2 where tr: "tr = t0 @ t1 @ t2" and "exchange (mail_commands pa t msg) t1"
    by (auto simp: accepted_def)
  then have "finished t1" using exchange_finished by blast
  then show ?thesis by (auto simp: tr finished_def)
qed

text \<open>Steps that mail nothing.\<close>

definition mails_nothing :: "('a, conversation) io \<Rightarrow> bool" where
  "mails_nothing m \<longleftrightarrow> says m (\<lambda>tr r. list_all (\<lambda>cr. \<not> mailing (fst cr)) tr)"

lemma mails_nothing_andThen: "mails_nothing m \<Longrightarrow> (\<And>a. mails_nothing (k a)) \<Longrightarrow> mails_nothing (andThen m k)"
  unfolding mails_nothing_def by (erule says_andThen) auto

lemma mails_nothing_simps [intro]: "mails_nothing (succeed a)" "mails_nothing (fail e)" "mails_nothing (check_ctx ctx)"
  "mails_nothing (lift_result x)"
proof -
  show "mails_nothing (check_ctx ctx)" unfolding mails_nothing_def by (rule says_check_ctx) simp_all
qed (auto simp: mails_nothing_def says_def lift_result_def)

lemma mails_nothing_converse: "\<not> mailing c \<Longrightarrow> mails_nothing (converse c)"
  unfolding mails_nothing_def by (rule says_converse) simp

lemma mails_nothing_step: "mails_nothing m \<Longrightarrow> mails_nothing (step op t m)"
  unfolding mails_nothing_def step_def by (erule says_map_error)

lemma mails_nothing_ignore: "mails_nothing m \<Longrightarrow> mails_nothing (ignore_error m)"
  unfolding mails_nothing_def by (erule says_ignore)

lemmas quiet_intros = mails_nothing_andThen mails_nothing_simps mails_nothing_converse mails_nothing_step mails_nothing_ignore

text \<open>\<open>delivers cs m\<close>: success means that \<open>m\<close> had \<open>cs\<close> accepted, failure that no message was finished.\<close>

definition delivers :: "command list \<Rightarrow> ('a, conversation) io \<Rightarrow> bool" where
  "delivers cs m \<longleftrightarrow> says m (\<lambda>tr r. case r of Inl _ \<Rightarrow> \<not> finished tr | Inr _ \<Rightarrow> accepted cs tr)"

lemma quiet_not_finished: "list_all (\<lambda>cr. \<not> mailing (fst cr)) tr \<Longrightarrow> \<not> finished tr"
  using not_mailing by (auto simp: finished_def list_all_iff list_ex_iff)

lemma quiet_finished: "list_all (\<lambda>cr. \<not> mailing (fst cr)) tr \<Longrightarrow> finished (tr @ tr') = finished tr'"
  using not_mailing by (auto simp: finished_def list_all_iff list_ex_iff)

lemma accepted_before: "accepted cs tr' \<Longrightarrow> accepted cs (tr @ tr')"
  unfolding accepted_def by (metis append_assoc)

lemma accepted_after: "accepted cs tr \<Longrightarrow> hanging_up c \<Longrightarrow> accepted cs (tr @ [(c, a)])"
proof -
  assume "accepted cs tr" and c: "hanging_up c"
  then obtain t0 t1 t2 where "tr = t0 @ t1 @ t2" "exchange cs t1" "list_all (hanging_up \<circ> fst) t2"
    by (auto simp: accepted_def)
  then show ?thesis
    using c unfolding accepted_def by (intro exI[of _ t0] exI[of _ t1] exI[of _ "t2 @ [(c, a)]"]) simp
qed

lemma accepted_exchange: "exchange cs tr \<Longrightarrow> accepted cs tr"
  unfolding accepted_def by (intro exI[of _ "[]"] exI[of _ tr]) simp

lemma delivers_finally:
  fixes m :: "('a, conversation) io"
  assumes "delivers cs m" and c: "hanging_up c"
  shows "delivers cs (finally_do converse c m)"
  unfolding delivers_def
proof (rule says_finally[OF assms(1)[unfolded delivers_def]])
  fix tr :: transcript and r :: "go_error + 'a" and a
  assume "case r of Inl _ \<Rightarrow> \<not> finished tr | Inr _ \<Rightarrow> accepted cs tr"
  moreover have "finished (tr @ [(c, a)]) = finished tr" using c by (cases c) (auto simp: finished_def)
  ultimately show "case r of Inl _ \<Rightarrow> \<not> finished (tr @ [(c, a)]) | Inr _ \<Rightarrow> accepted cs (tr @ [(c, a)])"
    using accepted_after[OF _ c] by (cases r) auto
qed

lemma delivers_andThen:
  assumes "mails_nothing m" and "\<And>a. delivers cs (k a)"
  shows "delivers cs (andThen m k)"
  unfolding delivers_def
proof (rule says_andThen[OF assms(1)[unfolded mails_nothing_def] assms(2)[unfolded delivers_def]])
  fix tr tr' :: transcript and r
  assume "list_all (\<lambda>cr. \<not> mailing (fst cr)) tr"
    and "case r of Inl _ \<Rightarrow> \<not> finished tr' | Inr _ \<Rightarrow> accepted cs tr'"
  then show "case r of Inl _ \<Rightarrow> \<not> finished (tr @ tr') | Inr _ \<Rightarrow> accepted cs (tr @ tr')"
    by (cases r) (auto simp: quiet_finished accepted_before)
qed (simp add: quiet_not_finished)

text \<open>
  \<open>quietly cs m\<close>: \<open>m\<close> mails nothing, and has said exactly \<open>cs\<close> when it succeeds; \<open>performs cs m\<close>:
  the same for steps that mail, where a failure finishes no message.
\<close>

definition quietly :: "command list \<Rightarrow> ('a, conversation) io \<Rightarrow> bool" where
  "quietly cs m \<longleftrightarrow> says m (\<lambda>tr r. list_all (\<lambda>cr. \<not> mailing (fst cr)) tr \<and> (\<not> isl r \<longrightarrow> exchange cs tr))"

definition performs :: "command list \<Rightarrow> ('a, conversation) io \<Rightarrow> bool" where
  "performs cs m \<longleftrightarrow> says m (\<lambda>tr r. if isl r then \<not> finished tr else exchange cs tr)"

lemma quietly_andThen:
  assumes "quietly cs m" and "\<And>a. quietly cs' (k a)"
  shows "quietly (cs @ cs') (andThen m k)"
  unfolding quietly_def
  by (rule says_andThen[OF assms[unfolded quietly_def]]) (auto intro: exchange_append)

lemma quietly_fail: "quietly cs (fail e)"
  by (simp add: quietly_def says_def)

lemma quietly_converse: "\<not> mailing c \<Longrightarrow> quietly [c] (converse c)"
  unfolding quietly_def by (rule says_converse) (simp add: exchange_def)

lemma quietly_step: "quietly cs m \<Longrightarrow> quietly cs (step op t m)"
  unfolding quietly_def step_def by (erule says_map_error) simp_all

lemma performs_andThen:
  assumes "quietly cs m" and "\<And>a. performs cs' (k a)"
  shows "performs (cs @ cs') (andThen m k)"
  unfolding performs_def
  by (rule says_andThen[OF assms(1)[unfolded quietly_def] assms(2)[unfolded performs_def]])
    (auto simp: quiet_finished quiet_not_finished exchange_append split: if_splits)

lemma parsed_step:
  "andThen (step op t (lift_result (Inr a))) k = k a" "andThen (step op t (lift_result (Inl e))) k = fail (operationError op (em_Timeout t) e)"
  by (auto simp: fun_eq_iff andThen_def step_def map_error_def lift_result_def)

lemma address_of_Inr: "parseMailbox pa v = Inr m \<Longrightarrow> address_of pa v = Address m"
  by (simp add: address_of_def)

lemma quietly_parse:
  "(\<And>m. parseMailbox pa v = Inr m \<Longrightarrow> quietly cs (k m)) \<Longrightarrow> quietly cs (andThen (step op t (lift_result (parseMailbox pa v))) k)"
  by (cases "parseMailbox pa v") (simp_all add: parsed_step, auto simp: quietly_def says_def)

lemma performs_parse:
  "(\<And>m. parseMailbox pa v = Inr m \<Longrightarrow> performs cs (k m)) \<Longrightarrow> performs cs (andThen (step op t (lift_result (parseMailbox pa v))) k)"
  by (cases "parseMailbox pa v") (simp_all add: parsed_step, auto simp: performs_def says_def finished_def)

lemma quietly_line: "Net lib = converse \<Longrightarrow> \<not> mailing (c a) \<Longrightarrow> quietly [c a] (step op t (smtp_line lib c a))"
  unfolding smtp_line_def by (auto intro: quietly_step quietly_fail quietly_converse)

lemma quietly_recipients:
  "Net lib = converse \<Longrightarrow> quietly (map (RcptTo \<circ> address_of (ParseAddress lib)) rs) (send_recipients lib t rs)"
proof (induction rs)
  case (Cons r rs)
  have "quietly ([RcptTo (Address m)] @ map (RcptTo \<circ> address_of (ParseAddress lib)) rs)
      (andThen (step ''RCPT TO'' t (smtp_line lib RcptTo (Address m))) (\<lambda>_. send_recipients lib t rs))" for m
    by (rule quietly_andThen[OF quietly_line[OF Cons.prems] Cons.IH[OF Cons.prems]]) simp
  then show ?case
    by (auto intro!: quietly_parse simp: address_of_Inr comp_def)
qed (auto simp: quietly_def exchange_def intro: says_succeed)

lemma performs_send_data:
  assumes net: "Net lib = converse"
  shows "performs [Data, WriteMessage msg, EndOfData] (send_data lib t msg)"
proof -
  have data: "quietly [Data] (step ''message data'' t (converse Data))"
    by (intro quietly_step quietly_converse) simp
  have rest: "performs [WriteMessage msg, EndOfData] (write_message lib t msg)"
    unfolding performs_def by (rule says_write_message[OF net]) (auto simp: finished_def exchange_def)
  show ?thesis
    using performs_andThen[OF data rest] by (simp add: send_data_def net)
qed

lemma performs_smtpSend:
  assumes net: "Net lib = converse"
  shows "performs (mail_commands (ParseAddress lib) t msg) (smtpSend lib t msg)"
proof -
  have "performs ([MailFrom (Address m)] @ (map (RcptTo \<circ> address_of (ParseAddress lib)) (envelopeRecipients (em_To t) (em_CC t) (em_BCC t)) @
        [Data, WriteMessage msg, EndOfData]))
      (andThen (step ''MAIL FROM'' t (smtp_line lib MailFrom (Address m))) (\<lambda>_.
       andThen (send_recipients lib t (envelopeRecipients (em_To t) (em_CC t) (em_BCC t))) (\<lambda>_. send_data lib t msg)))" for m
    by (rule performs_andThen[OF quietly_line[OF net] performs_andThen[OF quietly_recipients[OF net] performs_send_data[OF net]]]) simp
  then show ?thesis
    unfolding smtpSend_def by (auto intro!: performs_parse simp: mail_commands_def address_of_Inr envelopeRecipients_def)
qed

lemma delivers_performs: "performs cs m \<Longrightarrow> delivers cs m"
  unfolding performs_def delivers_def
proof (erule says_conseq)
  fix tr :: transcript and r :: "go_error + 'a"
  assume "if isl r then \<not> finished tr else exchange cs tr"
  then show "case r of Inl _ \<Rightarrow> \<not> finished tr | Inr _ \<Rightarrow> accepted cs tr"
    by (cases r) (auto intro: accepted_exchange)
qed

lemma mails_nothing_dial: "Net lib = converse \<Longrightarrow> mails_nothing (step op t' (dialSMTPConnection lib ctx t address))"
proof -
  assume "Net lib = converse"
  then have "says (dialSMTPConnection lib ctx t address) (\<lambda>tr r. list_all (connecting \<circ> fst) tr)"
    using dial_connects unfolding only_connects_def by blast
  moreover have "connecting c \<Longrightarrow> \<not> mailing c" for c by (cases c) auto
  ultimately have "mails_nothing (dialSMTPConnection lib ctx t address)"
    unfolding mails_nothing_def by (auto elim!: says_conseq simp: list_all_iff)
  then show ?thesis by (rule mails_nothing_step)
qed

lemma delivers_session:
  assumes net: "Net lib = converse"
  shows "delivers (mail_commands (ParseAddress lib) t msg) (smtp_session lib ctx t msg)"
proof -
  have up: "mails_nothing (upgrade lib t greeting)" for greeting
    unfolding upgrade_def net by (auto intro!: quiet_intros split: prod.split)
  have auth: "mails_nothing (step ''authentication'' t (smtpAuth lib t tls))" for tls
    unfolding smtpAuth_def net by (auto intro!: quiet_intros)
  show ?thesis
    unfolding smtp_session_def net
    by (intro delivers_andThen[OF mails_nothing_step[OF mails_nothing_converse]] delivers_finally
        delivers_andThen[OF mails_nothing_simps(3)] delivers_andThen[OF up] delivers_andThen[OF auth]
        delivers_performs[OF performs_smtpSend[OF net]]) simp_all
qed

lemma delivers_attempt:
  assumes net: "Net lib = converse"
  shows "says (attempt lib ctx t msg) (\<lambda>tr r. if isl r then \<not> finished tr else accepted (mail_commands (ParseAddress lib) t msg) tr)"
proof -
  let ?cs = "mail_commands (ParseAddress lib) t msg"
  have deadline: "mails_nothing (connection_deadline lib ctx t)"
    unfolding connection_deadline_def net by (auto intro!: quiet_intros split: option.split)
  have "mails_nothing (implicit_tls lib ctx t)"
    unfolding implicit_tls_def net by (auto intro!: quiet_intros split: prod.split)
  then have inner: "delivers ?cs (finally_do converse CloseConn (andThen (connection_deadline lib ctx t) (\<lambda>_.
      andThen (implicit_tls lib ctx t) (\<lambda>_. closeConnOnContextDone lib ctx (smtp_session lib ctx t msg)))))"
    unfolding closeConnOnContextDone_def net
    by (intro delivers_finally delivers_andThen[OF deadline] delivers_andThen delivers_session[OF net]
        mails_nothing_ignore mails_nothing_converse) simp_all
  have "delivers ?cs (attempt lib ctx t msg)"
    unfolding attempt_def Let_def unfolding net by (rule delivers_andThen[OF mails_nothing_dial[OF net] inner])
  then show ?thesis unfolding delivers_def by (rule says_conseq) (auto split: sum.splits)
qed

end
