(* ===== verification/Email_Demo.thy ===== *)
theory Email_Demo
  imports Smtp_Accept
begin

text \<open>
  An example of the email target for the witnesses: a server that accepts everything, without
  delay, and a target whose mail it takes.
\<close>

section \<open>A server to test with\<close>

definition accepting :: conversation where
  "accepting = \<lparr>said = [], peer = (\<lambda>tr n c. (Inr (Answer 250 ''ok'' [''STARTTLS'']), 0))\<rparr>"

definition demo_smtp :: "conversation smtp_lib" where
  "demo_smtp = \<lparr>Net = converse, ParseAddress = (\<lambda>v. if ContainsNewline v then None
       else Some \<lparr>Address = v, mailbox_String = ''<'' @ v @ ''>''\<rparr>),
     ProxyFromEnvironment = (\<lambda>s h. Inr None)\<rparr>"

definition demo_email :: "string email" where
  "demo_email = zero_email\<lparr>em_Host := ''mx'', em_User := ''u'', em_Pass := ''p'', em_From := ''a@x'',
     em_To := [''b@y''], em_BCC := [''c@z''], em_Headers := [(''X-Tag'', ''t'')],
     em_Template := Some (\<lambda>v. Inr ''hello''), em_SubjectTmpl := Some (StringTemplate (Some (\<lambda>v. Inr ''Hi'')))\<rparr>"

definition demo_mail_payload :: "string payload" where
  "demo_mail_payload = \<lparr>Notification = None, PayloadReceiver = ''ops'', PayloadCustomData = None\<rparr>"

definition demo_mail_state :: "conversation runtime" where
  "demo_mail_state = \<lparr>now = 0, entropy = [], logs = [], world = accepting\<rparr>"

lemmas mail_demo_defs = demo_smtp_def demo_email_def zero_email_def demo_mail_payload_def

lemma demo_trims: "TrimSpace ''mx'' = ''mx''" "TrimSpace ''a@x'' = ''a@x''" "TrimSpace ''b@y'' = ''b@y''" "TrimSpace ''c@z'' = ''c@z''"
  by (rule TrimSpace_ascii; simp add: is_space_def)+

lemma demo_config: "em_config_ok (ParseAddress demo_smtp) (em_applyDefaults demo_email)"
proof -
  have "em_valid_headers [(''X-Tag'', ''t'')]"
    by (simp add: em_valid_headers_def ValidFieldName_bytes ValidFieldNameChar_def ContainsNewline_iff
        isReservedHeader_def reserved_names_def ToLower_is_def lower_rune_def)
  then show ?thesis
    by (simp add: em_config_ok_def em_applyDefaults_def mail_demo_defs good_mailbox_def parseMailbox_def
        ContainsNewline_iff demo_trims email_constants)
qed

lemma demo_mail_ready:
  "em_ready (ParseAddress demo_smtp) [] (Some demo_email) demo_mail_payload = Some \<lparr>Subject = ''Hi'', Body = ''hello''\<rparr>"
proof -
  have "em_Render [] (Some (em_applyDefaults demo_email)) demo_mail_payload = Inr \<lparr>Subject = ''Hi'', Body = ''hello''\<rparr>"
    by (simp add: em_Render_def em_applyDefaults_def em_validateHeaderValue_def ContainsNewline_iff
        execute_template_def mail_demo_defs Let_def)
  then show ?thesis by (simp add: em_ready_def demo_config)
qed

text \<open>With this server every step succeeds.\<close>

definition agreeable :: "conversation runtime \<Rightarrow> bool" where
  "agreeable w \<longleftrightarrow> now w = 0 \<and> peer (world w) = peer accepting"

definition yields :: "('a, conversation) io \<Rightarrow> 'a \<Rightarrow> bool" where
  "yields m a \<longleftrightarrow> (\<forall>w. agreeable w \<longrightarrow> (\<exists>w1. m w = (Inr a, w1) \<and> agreeable w1))"

lemma yields_converse: "yields (converse c) (Answer 250 ''ok'' [''STARTTLS''])"
  by (simp add: yields_def agreeable_def converse_def accepting_def)

lemma yields_andThen: "yields m a \<Longrightarrow> yields (k a) b \<Longrightarrow> yields (andThen m k) b"
  unfolding yields_def by (metis andThen_Inr)

lemma yields_simps: "yields (succeed a) a" "yields m a \<Longrightarrow> yields (step op t m) a"
  "yields (lift_result (Inr a)) a" "cancel_at ctx = Some (t1, e) \<Longrightarrow> 0 < t1 \<Longrightarrow> yields (check_ctx ctx) ()"
  by (auto simp: yields_def step_def map_error_def lift_result_def check_ctx_def ctx_Err_def agreeable_def)

lemma yields_finally: "yields m a \<Longrightarrow> yields (finally_do converse c m) a"
  using yields_converse[of c] by (fastforce simp: yields_def finally_do_def)

lemma yields_ignore: "yields (ignore_error (converse c)) ()"
  using yields_converse[of c] by (fastforce simp: yields_def ignore_error_def)

lemma demo_dial: "yields (dialSMTPConnection demo_smtp ctx (em_applyDefaults demo_email) address) ()"
  by (simp add: dialSMTPConnection_def demo_smtp_def demo_email_def zero_email_def em_applyDefaults_def)
    (rule yields_andThen[OF yields_converse yields_simps(1)])

text \<open>The steps of the conversation with this server.\<close>

abbreviation demo_target :: "string email" where
  "demo_target \<equiv> em_applyDefaults demo_email"

abbreviation accepted_answer :: answer where
  "accepted_answer \<equiv> Answer 250 ''ok'' [''STARTTLS'']"

abbreviation demo_addresses :: "string set" where
  "demo_addresses \<equiv> {''a@x'', ''b@y'', ''c@z''}"

lemma demo_net: "Net demo_smtp = converse"
  by (simp add: demo_smtp_def)

lemma demo_fields:
  "em_TLSMode demo_target = TLSRequired" "em_Timeout demo_target = 30 * Second" "em_From demo_target = ''a@x''"
  "envelopeRecipients (em_To demo_target) (em_CC demo_target) (em_BCC demo_target) = [''b@y'', ''c@z'']"
  by (simp_all add: em_applyDefaults_def mail_demo_defs envelopeRecipients_def)

lemma demo_parse:
  "v \<in> demo_addresses \<Longrightarrow> parseMailbox (ParseAddress demo_smtp) v = Inr \<lparr>Address = v, mailbox_String = ''<'' @ v @ ''>''\<rparr>"
  using demo_trims by (auto simp: parseMailbox_def demo_smtp_def ContainsNewline_iff)

lemma demo_line: "v \<in> demo_addresses \<Longrightarrow> yields (step op t (smtp_line demo_smtp c v)) accepted_answer"
  using yields_converse by (auto intro!: yields_simps(2) simp: smtp_line_def ContainsNewline_iff demo_smtp_def)

lemma demo_recipients: "set rs \<subseteq> demo_addresses \<Longrightarrow> yields (send_recipients demo_smtp t rs) ()"
proof (induction rs)
  case (Cons v rs)
  then have v: "v \<in> demo_addresses" and rs: "yields (send_recipients demo_smtp t rs) ()" by simp_all
  show ?case using yields_andThen[OF demo_line[OF v] rs] by (simp add: demo_parse[OF v] parsed_step)
qed (simp add: yields_simps)

lemma demo_send_data: "yields (send_data demo_smtp t msg) ()"
proof -
  have close: "yields (andThen (step ''message acceptance'' t (converse EndOfData)) (\<lambda>_. succeed ())) ()"
    by (rule yields_andThen[OF yields_simps(2)[OF yields_converse] yields_simps(1)])
  have "yields (write_message demo_smtp t msg) ()"
    unfolding yields_def
  proof (intro allI impI)
    fix w assume "agreeable w"
    then obtain w1 where "converse (WriteMessage msg) w = (Inr accepted_answer, w1)" "agreeable w1"
      using yields_converse unfolding yields_def by blast
    then show "\<exists>w1. write_message demo_smtp t msg w = (Inr (), w1) \<and> agreeable w1"
      using close by (simp add: yields_def write_message_def demo_net)
  qed
  then show ?thesis
    unfolding send_data_def demo_net by (rule yields_andThen[OF yields_simps(2)[OF yields_converse]])
qed

lemma demo_mail: "yields (smtpSend demo_smtp demo_target msg) ()"
proof -
  have rest: "yields (andThen (send_recipients demo_smtp demo_target [''b@y'', ''c@z'']) (\<lambda>_. send_data demo_smtp demo_target msg)) ()"
    by (rule yields_andThen[OF demo_recipients demo_send_data]) simp
  have "yields (andThen (step ''MAIL FROM'' demo_target (smtp_line demo_smtp MailFrom ''a@x''))
      (\<lambda>_. andThen (send_recipients demo_smtp demo_target [''b@y'', ''c@z'']) (\<lambda>_. send_data demo_smtp demo_target msg))) ()"
    by (rule yields_andThen[where a = accepted_answer], rule demo_line, simp, rule rest)
  then show ?thesis
    by (simp add: smtpSend_def demo_fields demo_parse parsed_step)
qed

lemma demo_upgrade: "yields (upgrade demo_smtp demo_target accepted_answer) True"
  unfolding upgrade_def demo_net
  by (auto intro!: yields_andThen[OF yields_simps(2)[OF yields_converse]] yields_simps simp: smtpTLSConfig_def demo_fields email_constants)

lemma demo_session:
  assumes "cancel_at ctx = Some (t1, e)" and "0 < t1"
  shows "yields (smtp_session demo_smtp ctx demo_target msg) ()"
proof -
  have auth: "yields (smtpAuth demo_smtp demo_target True) ()"
    unfolding smtpAuth_def demo_net
    by (auto intro: yields_simps yields_andThen[OF yields_converse] simp: em_applyDefaults_def mail_demo_defs)
  show ?thesis
    unfolding smtp_session_def demo_net
    by (intro yields_andThen[OF yields_simps(2)[OF yields_converse]] yields_finally yields_andThen[OF yields_simps(4)[OF assms]]
        yields_andThen[OF demo_upgrade] yields_andThen[OF yields_simps(2)[OF auth]] demo_mail)
qed

lemma demo_attempt:
  assumes "cancel_at ctx = Some (t1, e)" and "0 < t1"
  shows "yields (attempt demo_smtp ctx demo_target msg) ()"
proof -
  have implicit: "yields (implicit_tls demo_smtp ctx demo_target) ()"
    by (simp add: implicit_tls_def yields_simps demo_fields email_constants)
  have deadline: "yields (connection_deadline demo_smtp ctx demo_target) ()"
    unfolding connection_deadline_def demo_net
    by (auto intro: yields_simps yields_andThen[OF yields_simps(2)[OF yields_converse]] split: option.split)
  have "yields (closeConnOnContextDone demo_smtp ctx (smtp_session demo_smtp ctx demo_target msg)) ()"
    unfolding closeConnOnContextDone_def demo_net
    by (rule yields_andThen[OF yields_ignore yields_finally[OF demo_session[OF assms]]])
  then have "yields (finally_do converse CloseConn (andThen (connection_deadline demo_smtp ctx demo_target) (\<lambda>_.
      andThen (implicit_tls demo_smtp ctx demo_target) (\<lambda>_.
      closeConnOnContextDone demo_smtp ctx (smtp_session demo_smtp ctx demo_target msg))))) ()"
    by (intro yields_finally yields_andThen[OF deadline] yields_andThen[OF implicit])
  then show ?thesis
    unfolding attempt_def Let_def demo_net by (rule yields_andThen[OF yields_simps(2)[OF demo_dial]])
qed

lemma demo_sent: "\<exists>r w'. em_SendResult demo_smtp [] (Some demo_email) (Some Background) demo_mail_payload demo_mail_state = ((r, None), w')"
proof -
  obtain r e w' where run: "em_SendResult demo_smtp [] (Some demo_email) (Some Background) demo_mail_payload demo_mail_state = ((r, e), w')"
    by (metis surj_pair)
  obtain w1 sent where w1: "now w1 = now demo_mail_state" "world w1 = world demo_mail_state"
    and send: "sendSMTP demo_smtp Background demo_target ''Hi'' ''hello'' w1 = (sent, w')" and e: "e = classifySMTPError sent"
    using em_SendResult_ready[OF demo_mail_ready _ run] by auto
  have "agreeable w1" using w1 by (simp add: agreeable_def demo_mail_state_def)
  moreover have "cancel_at (context_WithTimeout Background (em_Timeout demo_target) w1) = Some (30 * Second, DeadlineExceeded)"
    using w1 by (simp add: context_WithTimeout_def Background_def demo_mail_state_def demo_fields)
  ultimately obtain w2 where "attempt demo_smtp (context_WithTimeout Background (em_Timeout demo_target) w1) demo_target
      (buildEmail (ParseAddress demo_smtp) demo_target ''Hi'' ''hello'') w1 = (Inr (), w2)"
    using demo_attempt[of "context_WithTimeout Background (em_Timeout demo_target) w1" "30 * Second" DeadlineExceeded]
    unfolding yields_def by (metis (no_types) zero_less_numeral mult_pos_pos)
  then have "sent = None" using send by (simp add: sendSMTP_def Let_def)
  then show ?thesis using run e by simp
qed

end
