(* ===== verification/Email_Deadline.thy ===== *)
theory Email_Deadline
  imports Email_Demo
begin

text \<open>
  How long a send of the email target takes: the network ends every operation at the deadline
  set for it, and the code sets one before every operation.
\<close>

section \<open>Networks that keep deadlines\<close>

text \<open>The earlier of two moments that may not be set.\<close>

fun opt_min :: "int option \<Rightarrow> int option \<Rightarrow> int option" where
  "opt_min None y = y"
| "opt_min (Some x) None = Some x"
| "opt_min (Some x) (Some y) = Some (min x y)"

definition by_then :: "int \<Rightarrow> int option \<Rightarrow> bool" where
  "by_then D x \<longleftrightarrow> (\<exists>d. x = Some d \<and> d \<le> D)"

lemma by_then_simps [simp]: "\<not> by_then D None" "by_then D (Some d) \<longleftrightarrow> d \<le> D"
  by (simp_all add: by_then_def)

lemma by_then_min [simp]: "by_then D (opt_min x y) \<longleftrightarrow> by_then D x \<or> by_then D y"
  by (cases x; cases y) auto

definition cancelled_at :: "go_context \<Rightarrow> int option" where
  "cancelled_at ctx = map_option fst (cancel_at ctx)"

lemma context_WithTimeout_cancel:
  assumes "cancel_at c = Some (t, e)"
  shows "\<exists>t' e'. cancel_at (context_WithTimeout c d w) = Some (t', e') \<and> t' \<le> t"
  using assms by (auto simp: context_WithTimeout_def Let_def split: option.split)

text \<open>
  When an operation on the connection has to end after what has been said: at the deadline set
  for the connection, or when a context that is watched is done. A new connection has neither.
\<close>

fun next_limits :: "command \<Rightarrow> int option \<times> int option \<Rightarrow> int option \<times> int option" where
  "next_limits (SetDeadline d) (dl, wt) = (Some d, wt)"
| "next_limits ClearDeadline (dl, wt) = (None, wt)"
| "next_limits (WatchContext ctx) (dl, wt) = (dl, opt_min wt (cancelled_at ctx))"
| "next_limits StopWatch (dl, wt) = (dl, None)"
| "next_limits (DialTCP _ _ _) lim = (None, None)"
| "next_limits _ lim = lim"

definition limits :: "transcript \<Rightarrow> int option \<times> int option" where
  "limits tr = fold (\<lambda>(c, r). next_limits c) tr (None, None)"

definition conn_limit :: "transcript \<Rightarrow> int option" where
  "conn_limit tr = (case limits tr of (dl, wt) \<Rightarrow> opt_min dl wt)"

fun time_limit :: "transcript \<Rightarrow> command \<Rightarrow> int option" where
  "time_limit s (DialTCP _ _ ctx) = opt_min (deadline_at ctx) (cancelled_at ctx)"
| "time_limit s (TLSHandshake _ _ ctx) = opt_min (deadline_at ctx) (cancelled_at ctx)"
| "time_limit s c = conn_limit s"

fun immediate :: "command \<Rightarrow> bool" where
  "immediate (SetDeadline _) = True"
| "immediate ClearDeadline = True"
| "immediate (WatchContext _) = True"
| "immediate StopWatch = True"
| "immediate _ = False"

fun closing :: "command \<Rightarrow> bool" where
  "closing CloseClient = True"
| "closing CloseConn = True"
| "closing _ = False"

text \<open>
  What \<open>net\<close> and \<open>crypto/tls\<close> document: setting a deadline takes no time; dialling and the
  handshake end when their context does; reading and writing end at the connection's deadline
  or when it is closed, at once when that has happened. Closing takes at most \<open>grace\<close> (a TLS
  connection may wait up to five seconds to say goodbye). How long an operation without a limit
  takes is left open.
\<close>

definition keeps_deadlines :: "nat \<Rightarrow> (transcript \<Rightarrow> int \<Rightarrow> command \<Rightarrow> reply \<times> nat) \<Rightarrow> bool" where
  "keeps_deadlines grace P \<longleftrightarrow> (\<forall>s n c.
     if closing c then snd (P s n c) \<le> grace
     else if immediate c then snd (P s n c) = 0
     else (\<forall>d. time_limit s c = Some d \<longrightarrow> n + int (snd (P s n c)) \<le> max n d))"

section \<open>Conversations under a limit\<close>

text \<open>
  \<open>under D a tr\<close>: every operation of \<open>tr\<close> has a limit that is not after \<open>D\<close>; \<open>a\<close> is whether the
  connection has one at the beginning, \<open>armed\<close> whether it has one after a command.
\<close>

fun armed :: "int \<Rightarrow> command \<Rightarrow> bool \<Rightarrow> bool" where
  "armed D (SetDeadline d) a = (d \<le> D)"
| "armed D ClearDeadline a = False"
| "armed D (WatchContext ctx) a = (a \<or> by_then D (cancelled_at ctx))"
| "armed D StopWatch a = False"
| "armed D (DialTCP _ _ _) a = False"
| "armed D _ a = a"

fun in_time :: "int \<Rightarrow> bool \<Rightarrow> command \<Rightarrow> bool" where
  "in_time D a (DialTCP _ _ ctx) = by_then D (opt_min (deadline_at ctx) (cancelled_at ctx))"
| "in_time D a (TLSHandshake _ _ ctx) = by_then D (opt_min (deadline_at ctx) (cancelled_at ctx))"
| "in_time D a c = (immediate c \<or> closing c \<or> a)"

fun under :: "int \<Rightarrow> bool \<Rightarrow> transcript \<Rightarrow> bool" where
  "under D a [] = True"
| "under D a ((c, r) # tr) = (in_time D a c \<and> under D (armed D c a) tr)"

definition closings :: "transcript \<Rightarrow> nat" where
  "closings tr = length (filter (closing \<circ> fst) tr)"

lemma closings_simps [simp]:
  "closings [] = 0" "closings ((c, r) # tr) = (if closing c then Suc (closings tr) else closings tr)"
  "closings (tr @ tr') = closings tr + closings tr'"
  by (simp_all add: closings_def)

text \<open>Such a conversation ends by \<open>D\<close>, and the time it takes to close the connection.\<close>

lemma in_time_ends:
  assumes "keeps_deadlines g P" and "in_time D a c" and "a \<Longrightarrow> by_then D (conn_limit s)"
  shows "n + int (snd (P s n c)) \<le> max n D + (if closing c then int g else 0)"
proof -
  have keeps: "if closing c then snd (P s n c) \<le> g else if immediate c then snd (P s n c) = 0
      else (\<forall>d. time_limit s c = Some d \<longrightarrow> n + int (snd (P s n c)) \<le> max n d)"
    using assms(1) unfolding keeps_deadlines_def by metis
  show ?thesis
  proof (cases "closing c \<or> immediate c")
    case True
    then show ?thesis using keeps by (auto split: if_splits)
  next
    case False
    then have "by_then D (time_limit s c)" using assms(2,3) by (cases c) auto
    then obtain d where "time_limit s c = Some d" "d \<le> D" by (auto simp: by_then_def)
    then have "n + int (snd (P s n c)) \<le> max n d" using keeps False by auto
    then show ?thesis using False \<open>d \<le> D\<close> by simp
  qed
qed

lemma conn_limit_armed:
  assumes "a \<Longrightarrow> by_then D (conn_limit s)" and "armed D c a"
  shows "by_then D (conn_limit (s @ [(c, r)]))"
  using assms by (cases c; cases "limits s") (auto simp: conn_limit_def limits_def)

lemma under_ends:
  assumes "keeps_deadlines g P" and "under D a tr" and "a \<Longrightarrow> by_then D (conn_limit s)"
  shows "ends_at P s n tr \<le> max n D + int g * int (closings tr)"
  using assms(2,3)
proof (induction tr arbitrary: a s n)
  case (Cons cr tr)
  obtain c r where cr: "cr = (c, r)" by fastforce
  let ?n = "n + int (snd (P s n c))"
  have c: "in_time D a c" "under D (armed D c a) tr" using Cons.prems(1) by (simp_all add: cr)
  have "ends_at P (s @ [(c, r)]) ?n tr \<le> max ?n D + int g * int (closings tr)"
    by (rule Cons.IH[OF c(2) conn_limit_armed[OF Cons.prems(2)]])
  moreover have "?n \<le> max n D + (if closing c then int g else 0)"
    by (rule in_time_ends[OF assms(1) c(1) Cons.prems(2)])
  ultimately show ?case by (auto simp: cr algebra_simps)
qed simp

section \<open>The steps of a send\<close>

text \<open>
  \<open>timed D a b k m\<close>: \<open>m\<close> keeps under \<open>D\<close> from a state with \<open>a\<close> on, closes at most \<open>k\<close> times, and
  leaves the connection with a limit if \<open>b\<close>, when it succeeds.
\<close>

definition keeps_under :: "int \<Rightarrow> bool \<Rightarrow> bool \<Rightarrow> nat \<Rightarrow> transcript \<Rightarrow> bool" where
  "keeps_under D a b k tr \<longleftrightarrow> under D a tr \<and> closings tr \<le> k \<and> (b \<longrightarrow> fold (armed D \<circ> fst) tr a)"

definition timed :: "int \<Rightarrow> bool \<Rightarrow> bool \<Rightarrow> nat \<Rightarrow> ('a, conversation) io \<Rightarrow> bool" where
  "timed D a b k m \<longleftrightarrow> says m (\<lambda>tr r. keeps_under D a (b \<and> \<not> isl r) k tr)"

lemma in_time_mono: "in_time D a c \<Longrightarrow> (a \<Longrightarrow> a') \<Longrightarrow> in_time D a' c"
  by (cases c) auto

lemma armed_mono: "armed D c a \<Longrightarrow> (a \<Longrightarrow> a') \<Longrightarrow> armed D c a'"
  by (cases c) auto

lemma under_mono: "under D a tr \<Longrightarrow> (a \<Longrightarrow> a') \<Longrightarrow> under D a' tr"
proof (induction tr arbitrary: a a')
  case (Cons cr tr)
  obtain c r where cr: "cr = (c, r)" by fastforce
  show ?case
    using Cons.prems(1) Cons.IH[of "armed D c a" "armed D c a'"] in_time_mono[of D a c a'] armed_mono[of D c a a'] Cons.prems(2)
    by (auto simp: cr)
qed simp

lemma under_append: "under D a (tr @ tr') \<longleftrightarrow> under D a tr \<and> under D (fold (armed D \<circ> fst) tr a) tr'"
proof (induction tr arbitrary: a)
  case (Cons cr tr)
  obtain c r where cr: "cr = (c, r)" by fastforce
  show ?case using Cons.IH[of "armed D c a"] by (simp add: cr)
qed simp

lemma fold_armed_mono: "fold (armed D \<circ> fst) tr a \<Longrightarrow> (a \<Longrightarrow> a') \<Longrightarrow> fold (armed D \<circ> fst) tr a'"
proof (induction tr arbitrary: a a')
  case (Cons cr tr)
  show ?case using Cons.IH[of "armed D (fst cr) a" "armed D (fst cr) a'"] Cons.prems armed_mono[of D "fst cr" a a'] by auto
qed simp

lemma keeps_under_append:
  assumes "keeps_under D a b k tr" and "keeps_under D b c k' tr'"
  shows "keeps_under D a c (k + k') (tr @ tr')"
proof -
  let ?a = "fold (armed D \<circ> fst) tr a"
  have "under D ?a tr'" using under_mono[of D b tr' ?a] assms by (simp add: keeps_under_def)
  moreover have "c \<longrightarrow> fold (armed D \<circ> fst) tr' ?a"
    using fold_armed_mono[of D tr' b ?a] assms by (simp add: keeps_under_def)
  ultimately show ?thesis using assms by (simp add: keeps_under_def under_append)
qed

lemma keeps_under_weaken: "keeps_under D a b k tr \<Longrightarrow> (b' \<Longrightarrow> b) \<Longrightarrow> k \<le> k' \<Longrightarrow> keeps_under D a b' k' tr"
  by (auto simp: keeps_under_def)

lemma timed_andThen:
  assumes "timed D a b k m" and "\<And>x. timed D b c k' (f x)"
  shows "timed D a c (k + k') (andThen m f)"
  unfolding timed_def
proof (rule says_andThen[OF assms(1)[unfolded timed_def] assms(2)[unfolded timed_def]], goal_cases)
  case (1 tr e)
  then show ?case by (elim keeps_under_weaken) auto
next
  case (2 tr x tr' r)
  then have "keeps_under D a b k tr" by simp
  then show ?case using 2(2) by (rule keeps_under_append)
qed

text \<open>Most steps close nothing.\<close>

lemmas timed_then = timed_andThen[where k = 0 and k' = 0, unfolded add_0]

lemmas timed_seq = timed_then[where a = True and b = True and c = True]

lemma timed_simps [intro]:
  "(b \<Longrightarrow> a) \<Longrightarrow> timed D a b 0 (succeed x)" "timed D a b 0 (fail e)" "timed D True True 0 (check_ctx ctx)"
  "(b \<Longrightarrow> a) \<Longrightarrow> timed D a b 0 (lift_result x')"
proof -
  show "timed D True True 0 (check_ctx ctx)"
    unfolding timed_def by (rule says_check_ctx) (simp_all add: keeps_under_def)
qed (auto simp: timed_def says_def keeps_under_def lift_result_def)

lemma timed_map_error: "timed D a b k m \<Longrightarrow> timed D a b k (map_error f m)"
  unfolding timed_def by (erule says_map_error) auto

lemma timed_step: "timed D a b k m \<Longrightarrow> timed D a b k (step op t m)"
  unfolding step_def by (rule timed_map_error)

lemma timed_converse:
  "in_time D a c \<Longrightarrow> \<not> closing c \<Longrightarrow> (b \<Longrightarrow> armed D c a) \<Longrightarrow> timed D a b 0 (converse c)"
  unfolding timed_def by (rule says_converse) (auto simp: keeps_under_def)

lemma timed_ignored:
  "in_time D a c \<Longrightarrow> \<not> closing c \<Longrightarrow> (b \<Longrightarrow> armed D c a) \<Longrightarrow> timed D a b 0 (ignore_error (converse c))"
  unfolding timed_def
  by (rule says_ignore[OF says_converse[where T = "\<lambda>tr r. keeps_under D a b 0 tr"]]) (auto simp: keeps_under_def)

lemma timed_finally:
  "timed D a b k m \<Longrightarrow> in_time D False c \<Longrightarrow> timed D a False (if closing c then Suc k else k) (finally_do converse c m)"
  unfolding timed_def
  by (erule says_finally) (auto simp: keeps_under_def under_append intro: in_time_mono)

text \<open>Talking to the peer over a connection that has a limit.\<close>

fun plain :: "command \<Rightarrow> bool" where
  "plain (DialTCP _ _ _) = False"
| "plain (TLSHandshake _ _ _) = False"
| "plain c = (\<not> immediate c \<and> \<not> closing c)"

lemma timed_plain: "plain c \<Longrightarrow> timed D True True 0 (converse c)"
  by (rule timed_converse; cases c) auto

lemmas timed_intros = timed_seq timed_simps timed_step timed_map_error timed_plain

lemma timed_recipients: "Net lib = converse \<Longrightarrow> timed D True True 0 (send_recipients lib t rs)"
  by (induction rs) (auto intro!: timed_intros simp: smtp_line_def)

lemma timed_send_data:
  assumes net: "Net lib = converse"
  shows "timed D True True 0 (send_data lib t msg)"
proof -
  have "timed D True True 0 (write_message lib t msg)"
    unfolding timed_def by (rule says_write_message[OF net]) (simp add: keeps_under_def)
  then show ?thesis
    unfolding send_data_def by (intro timed_seq) (auto intro!: timed_intros simp: net)
qed

lemma timed_session:
  assumes net: "Net lib = converse"
  shows "timed D True False 1 (smtp_session lib ctx t msg)"
proof -
  have mail: "timed D True True 0 (smtpSend lib t msg)"
    unfolding smtpSend_def
    by (intro timed_seq timed_recipients[OF net] timed_send_data[OF net])
      (auto intro!: timed_intros simp: smtp_line_def net)
  have auth: "timed D True True 0 (smtpAuth lib t tls)" for tls
    unfolding smtpAuth_def net by (auto intro!: timed_seq timed_simps timed_plain timed_ignored)
  have up: "timed D True True 0 (upgrade lib t greeting)" for greeting
    unfolding upgrade_def net by (auto intro!: timed_intros split: prod.split)
  have "timed D True True 0 (andThen (check_ctx ctx) (\<lambda>_.
     andThen (step ''EHLO/HELO'' t (converse (Hello ''localhost''))) (\<lambda>greeting.
     andThen (upgrade lib t greeting) (\<lambda>tls. andThen (check_ctx ctx) (\<lambda>_.
     andThen (step ''authentication'' t (smtpAuth lib t tls)) (\<lambda>_. andThen (check_ctx ctx) (\<lambda>_. smtpSend lib t msg)))))))"
    by (auto intro!: timed_intros mail auth up)
  from timed_finally[OF this, of CloseClient]
  have "timed D True False 1 (finally_do converse CloseClient (andThen (check_ctx ctx) (\<lambda>_.
     andThen (step ''EHLO/HELO'' t (converse (Hello ''localhost''))) (\<lambda>greeting.
     andThen (upgrade lib t greeting) (\<lambda>tls. andThen (check_ctx ctx) (\<lambda>_.
     andThen (step ''authentication'' t (smtpAuth lib t tls)) (\<lambda>_. andThen (check_ctx ctx) (\<lambda>_. smtpSend lib t msg))))))))"
    by simp
  from timed_andThen[OF timed_step[OF timed_plain] this, of "Greeting (em_Host t)"]
  show ?thesis unfolding smtp_session_def net by simp
qed

text \<open>Once the connection is open: the watched session, closed in the end.\<close>

lemma timed_watched:
  assumes net: "Net lib = converse" and "a \<or> by_then D (cancelled_at ctx)"
  shows "timed D a False 1 (closeConnOnContextDone lib ctx (smtp_session lib ctx t msg))"
proof -
  have watch: "timed D a True 0 (ignore_error (converse (WatchContext ctx)))"
    using assms(2) by (intro timed_ignored) auto
  have "timed D True False 1 (finally_do converse StopWatch (smtp_session lib ctx t msg))"
    using timed_finally[OF timed_session[OF net], of D StopWatch] by simp
  from timed_andThen[OF watch this] show ?thesis
    unfolding closeConnOnContextDone_def net by simp
qed

lemma timed_connected:
  assumes net: "Net lib = converse" and ctx: "deadline_at ctx = Some d"
    and D: "by_then D (opt_min (deadline_at ctx) (cancelled_at ctx))"
  shows "timed D False False 2 (finally_do converse CloseConn (andThen (connection_deadline lib ctx t) (\<lambda>_.
     andThen (implicit_tls lib ctx t) (\<lambda>_. closeConnOnContextDone lib ctx (smtp_session lib ctx t msg)))))"
proof -
  have deadline: "timed D False (d \<le> D) 0 (connection_deadline lib ctx t)"
    unfolding connection_deadline_def ctx net option.case
    by (rule timed_then[where b = "d \<le> D", OF timed_step[OF timed_converse] timed_simps(1)]) auto
  have tls: "timed D a a 0 (implicit_tls lib ctx t)" for a
    unfolding implicit_tls_def net using D
    by (auto intro!: timed_then[OF timed_step[OF timed_converse]] timed_simps split: prod.split)
  have "d \<le> D \<or> by_then D (cancelled_at ctx)" using D ctx by simp
  from timed_andThen[OF tls timed_watched[OF net this]]
  have "timed D (d \<le> D) False 1 (andThen (implicit_tls lib ctx t) (\<lambda>_. closeConnOnContextDone lib ctx (smtp_session lib ctx t msg)))"
    by simp
  from timed_finally[OF timed_andThen[OF deadline this], of CloseConn] show ?thesis by (simp add: numeral_2_eq_2)
qed

text \<open>Opening it through a proxy, with a deadline: cancelling has no effect on the tunnel's exchange.\<close>

lemma timed_tunnel:
  assumes "deadline_at ctx = Some D"
  shows "timed D False False 0 (open_tunnel converse ctx u target timeout)"
proof -
  have secure: "timed D False False 0 (secure_proxy converse ctx u)"
    unfolding secure_proxy_def using assms
    by (auto intro!: timed_simps timed_map_error timed_converse intro: timed_then)
  have deadline: "timed D False True 0 (proxy_deadline converse ctx timeout)"
    using assms timed_ignored[of D False "SetDeadline D" True]
    by (simp add: proxy_deadline_def timed_def says_def)
  have answer: "timed D True False 0 (if answer_code a < 200 \<or> 300 \<le> answer_code a
      then fail (ProxyError (answer_code a) (answer_status a)) else ignore_error (converse ClearDeadline))" for a
    by (auto intro!: timed_simps timed_ignored)
  show ?thesis
    unfolding open_tunnel_def writeConnectRequest_def
    by (intro timed_then[OF secure] timed_then[OF deadline] timed_then[OF timed_map_error[OF timed_plain]] answer) simp_all
qed

text \<open>Opening the connection closes it at most once, and only on failure.\<close>

definition opened_under :: "int \<Rightarrow> transcript \<Rightarrow> go_error + 'a \<Rightarrow> bool" where
  "opened_under D tr r \<longleftrightarrow> keeps_under D False False (if isl r then 1 else 0) tr"

lemma timed_opened: "timed D False False 0 m \<Longrightarrow> says m (opened_under D)"
  unfolding timed_def by (erule says_conseq) (auto simp: opened_under_def keeps_under_def)

lemma timed_direct:
  assumes "by_then D (opt_min (deadline_at ctx) (cancelled_at ctx))"
  shows "timed D False False 0 (andThen (converse (DialTCP a to ctx)) (\<lambda>_. succeed ()))"
  using assms by (intro timed_then[where b = False] timed_converse timed_simps) auto

lemma says_dial:
  assumes net: "Net lib = converse" and D: "by_then D (opt_min (deadline_at ctx) (cancelled_at ctx))"
    and "\<not> em_ProxyFromEnvironment t \<or> deadline_at ctx = Some D"
  shows "says (dialSMTPConnection lib ctx t address) (opened_under D)"
proof (cases "em_ProxyFromEnvironment t")
  case False
  then show ?thesis
    by (simp add: dialSMTPConnection_def Let_def net timed_opened[OF timed_direct[OF D]])
next
  case True
  then have ctx: "deadline_at ctx = Some D" using assms(3) by simp
  have tunnel: "says (close_on_error converse (open_tunnel converse ctx u address timeout)) (opened_under D)" for u timeout
    by (rule says_close_on_error[OF timed_tunnel[OF ctx, unfolded timed_def]])
      (auto simp: opened_under_def keeps_under_def under_append)
  have dialled: "timed D False False 0 (map_error f (converse (DialTCP a to ctx)))" for f a to
    using D by (intro timed_map_error timed_converse) auto
  have proxy: "says (andThen (map_error f (converse (DialTCP a to ctx))) (\<lambda>_. close_on_error converse (open_tunnel converse ctx u address timeout)))
      (opened_under D)" for f a to u timeout
    by (rule says_andThen[OF dialled[unfolded timed_def] tunnel])
      (auto simp: opened_under_def keeps_under_def under_append intro: under_mono)
  have fails: "says (fail e) (opened_under D)" for e
    by (rule says_fail) (simp add: opened_under_def keeps_under_def)
  show ?thesis
    unfolding dialSMTPConnection_def Let_def net
    by (auto simp: dialProxy_def intro!: timed_opened[OF timed_direct[OF D]] fails proxy split: sum.split option.split)
qed

lemma says_attempt_under:
  assumes net: "Net lib = converse" and ctx: "deadline_at ctx = Some d"
    and D: "by_then D (opt_min (deadline_at ctx) (cancelled_at ctx))"
    and proxy: "\<not> em_ProxyFromEnvironment t \<or> deadline_at ctx = Some D"
  shows "says (attempt lib ctx t msg) (\<lambda>tr r. keeps_under D False False 2 tr)"
proof -
  have dial: "says (step ''connection'' t (dialSMTPConnection lib ctx t address)) (opened_under D)" for address
    unfolding step_def by (rule says_map_error[OF says_dial[OF net D proxy]]) (auto simp: opened_under_def)
  show ?thesis
    unfolding attempt_def Let_def unfolding net
    by (rule says_andThen[OF dial timed_connected[OF net ctx D, unfolded timed_def]])
      (auto simp: opened_under_def keeps_under_def under_append intro: under_mono)
qed

end
