(* ===== verification/Email_Properties.thy ===== *)
theory Email_Properties
  imports Email_Deadline
begin

text \<open>
  The properties of the email target.
\<close>

section \<open>The conversation\<close>

text \<open>
  C30: whatever the server and the proxy answer, an email target first only opens the
  connection (proxy tunnel included); after that, credentials are sent only once the TLS
  handshake with the configured server and the configured verification has succeeded, and so
  are envelope and message unless the target asks for plaintext.
\<close>

theorem smtp_tls_first:
  assumes "Net lib = converse" and "em_SendResult lib nil_any (Some t) (Some ctx) p w = ((r, e), w')"
  shows "\<exists>t1 t2. said (world w') = said (world w) @ t1 @ t2 \<and> list_all (connecting \<circ> fst) t1 \<and>
    tls_first (em_applyDefaults t) False t2"
  using assms(2) refl refl
proof (cases rule: em_SendResult_cases)
  case refused
  then show ?thesis by (intro exI[of _ "[]"]) simp
next
  case (ran m w1 x)
  have cred: "em_TLSMode (em_applyDefaults t) = TLSPlaintext \<longrightarrow> em_User (em_applyDefaults t) = [] \<and> em_Pass (em_applyDefaults t) = []"
    using ran(4) by (simp add: em_config_ok_def)
  obtain t1 t2 where "talk w1 w' = t1 @ t2" "list_all (connecting \<circ> fst) t1" "tls_first (em_applyDefaults t) False t2"
    and "extends w1 w'"
    using saysD[OF safe_attempt[OF assms(1) cred] ran(6)] by blast
  moreover from this have "said (world w') = said (world w1) @ t1 @ t2" by (auto simp: extends_def talk_def)
  ultimately show ?thesis using ran(3) by auto
qed

lemma smtp_tls_first_witness:
  "\<exists>r e w' t1 t2. em_SendResult demo_smtp [] (Some demo_email) (Some Background) demo_mail_payload demo_mail_state = ((r, e), w') \<and>
     said (world w') = t1 @ t2 \<and> list_all (connecting \<circ> fst) t1 \<and> tls_first (em_applyDefaults demo_email) False t2"
proof -
  obtain r e w' where run: "em_SendResult demo_smtp [] (Some demo_email) (Some Background) demo_mail_payload demo_mail_state = ((r, e), w')"
    by (metis surj_pair)
  have "Net demo_smtp = converse" by (simp add: demo_smtp_def)
  from smtp_tls_first[OF this run] run show ?thesis
    by (simp add: demo_mail_state_def accepting_def)
qed

text \<open>
  C31: a send returns no error exactly when the target is ready and the conversation ends with
  every command of the delivery accepted: the sender, each recipient in To, Cc and Bcc in that
  order, the message \<open>buildEmail\<close> makes, and its end. In particular no error is returned after
  the server has accepted the message, whatever becomes of the context and the connection.
\<close>

theorem email_accepted:
  assumes "Net lib = converse" and "em_SendResult lib nil_any (Some t) (Some ctx) p w = ((r, e), w')"
    and "target = em_applyDefaults t" and "pa = ParseAddress lib"
  shows "e = None \<longleftrightarrow> (\<exists>m. em_ready pa nil_any (Some t) p = Some m \<and>
    accepted (mail_commands pa target (buildEmail pa target (Subject m) (Body m))) (talk w w'))"
  using assms(2-4)
proof (cases rule: em_SendResult_cases)
  case refused
  then have "\<not> finished (talk w w')" by (simp add: talk_def finished_def)
  then show ?thesis using refused(1) accepted_finished by blast
next
  case (ran m w1 x)
  let ?cs = "mail_commands pa target (buildEmail pa target (Subject m) (Body m))"
  have "if isl x then \<not> finished (talk w1 w') else accepted ?cs (talk w1 w')"
    using saysD[OF delivers_attempt[OF assms(1)] ran(6)] assms(4) by blast
  moreover have "accepted ?cs tr \<Longrightarrow> finished tr" for tr by (rule accepted_finished)
  moreover have "talk w w' = talk w1 w'" using ran(3) by (simp add: talk_def)
  ultimately show ?thesis using ran(1,5) by (auto split: if_splits)
qed

lemma email_accepted_witness:
  "\<exists>r w'. em_SendResult demo_smtp [] (Some demo_email) (Some Background) demo_mail_payload demo_mail_state = ((r, None), w') \<and>
     accepted (mail_commands (ParseAddress demo_smtp) (em_applyDefaults demo_email)
       (buildEmail (ParseAddress demo_smtp) (em_applyDefaults demo_email) ''Hi'' ''hello'')) (said (world w'))"
proof -
  obtain r w' where run: "em_SendResult demo_smtp [] (Some demo_email) (Some Background) demo_mail_payload demo_mail_state = ((r, None), w')"
    using demo_sent by blast
  have net: "Net demo_smtp = converse" by (simp add: demo_smtp_def)
  show ?thesis
    using email_accepted[OF net run refl refl] run demo_mail_ready
    by (auto simp: talk_def demo_mail_state_def accepting_def)
qed

text \<open>
  C32: a send is over by the end of the target's timeout, or by the caller's deadline if that
  is earlier, but for the time it takes to close the connection twice: before every operation
  on the network a deadline that is not later has been set. Without a proxy it is also over as
  soon as the caller cancels the context. All that is asked of the network is that it ends an
  operation at the deadline set for it or when its connection is closed.
\<close>

theorem email_within_timeout:
  assumes "Net lib = converse" and "em_SendResult lib nil_any (Some t) (Some ctx) p w = ((r, e), w')"
    and "target = em_applyDefaults t" and "keeps_deadlines grace (peer (world w))"
  shows "now w' \<le> max (now w) (case deadline_at ctx of
      None \<Rightarrow> now w + em_Timeout target
    | Some d \<Rightarrow> min d (now w + em_Timeout target)) + 2 * int grace \<and>
    (\<not> em_ProxyFromEnvironment t \<longrightarrow> (\<forall>c x. cancel_at ctx = Some (c, x) \<longrightarrow> now w' \<le> max (now w) c + 2 * int grace))"
  using assms(2,3) refl
proof (cases rule: em_SendResult_cases)
  case refused
  have "now w \<le> max (now w) E + 2 * int grace" for E
    using max.cobounded1[of "now w" E] by linarith
  then show ?thesis unfolding refused(2) by blast
next
  case (ran m w1 x)
  let ?ctx = "context_WithTimeout ctx (em_Timeout target) w1"
  let ?D = "case deadline_at ctx of None \<Rightarrow> now w + em_Timeout target | Some d \<Rightarrow> min d (now w + em_Timeout target)"
  have D: "deadline_at ?ctx = Some ?D"
    by (simp add: context_WithTimeout_deadline_at ran(2) split: option.split)
  have bound: "now w' \<le> max (now w) E + 2 * int grace"
    if "by_then E (opt_min (deadline_at ?ctx) (cancelled_at ?ctx))" and "\<not> em_ProxyFromEnvironment target \<or> deadline_at ?ctx = Some E" for E
  proof -
    have said: "extends w1 w'" "keeps_under E False False 2 (talk w1 w')"
      using saysD[OF says_attempt_under[OF assms(1) D that] ran(6)] by simp_all
    have "keeps_deadlines grace (peer (world w1))" using assms(4) ran(3) by simp
    from under_ends[OF this, of E False "talk w1 w'" "said (world w1)" "now w1"]
    have "now w' \<le> max (now w) E + int grace * int (closings (talk w1 w'))"
      using extends_now[OF said(1)] said(2) ran(2) by (simp add: keeps_under_def)
    moreover have "int grace * int (closings (talk w1 w')) \<le> int grace * 2"
      using said(2) by (intro mult_left_mono) (simp_all add: keeps_under_def)
    ultimately show ?thesis by simp
  qed
  have "now w' \<le> max (now w) c + 2 * int grace"
    if "\<not> em_ProxyFromEnvironment t" and "cancel_at ctx = Some (c, x)" for c x
  proof (rule bound)
    show "by_then c (opt_min (deadline_at ?ctx) (cancelled_at ?ctx))"
      using context_WithTimeout_cancel[OF that(2), of "em_Timeout target" w1]
      by (auto simp: cancelled_at_def)
    show "\<not> em_ProxyFromEnvironment target \<or> deadline_at ?ctx = Some c"
      using that(1) assms(3) by (simp add: em_applyDefaults_def Let_def)
  qed
  then show ?thesis using bound[of ?D] D by simp
qed

lemma email_within_timeout_witness:
  "\<exists>r w'. em_SendResult demo_smtp [] (Some demo_email) (Some Background) demo_mail_payload demo_mail_state = ((r, None), w') \<and>
     now w' \<le> 30 * Second"
proof -
  obtain r w' where run: "em_SendResult demo_smtp [] (Some demo_email) (Some Background) demo_mail_payload demo_mail_state = ((r, None), w')"
    using demo_sent by blast
  have "keeps_deadlines 0 (peer (world demo_mail_state))"
    by (simp add: keeps_deadlines_def demo_mail_state_def accepting_def)
  from email_within_timeout[OF demo_net run refl this] run show ?thesis
    by (auto simp: Background_def demo_mail_state_def demo_fields)
qed

section \<open>The message\<close>

text \<open>
  C33: a reader of the message finds exactly the header lines the target built and the body
  with its line endings made CRLF: no template, address or custom header can add a line to
  the header or end it. Each standard field occurs once, Cc only if there are such recipients
  and Bcc never, and the blind recipients do not influence the message at all. The one thing
  asked of \<open>net/mail\<close> is that an address prints on one line.
\<close>

theorem email_message:
  assumes "em_ready pa nil_any (Some t) p = Some m" and "one_line_mailboxes pa" and "target = em_applyDefaults t"
    and "msg = buildEmail pa target (Subject m) (Body m)" and "parse_message msg = (ls, body)"
  shows "ls = email_headers pa target (Subject m) \<and> list_all one_line ls \<and>
    list_all (\<lambda>n. length (filter (\<lambda>l. ToLower_is (field_name l) n) ls) =
      (if n = ''bcc'' \<or> (n = ''cc'' \<and> em_CC t = []) then 0 else 1)) reserved_names \<and>
    body = normalizeBody (Body m) @ (if HasSuffix (normalizeBody (Body m)) crlf then [] else crlf) \<and>
    crlf_only body \<and> normalizeBody body = body \<and>
    buildEmail pa (target\<lparr>em_BCC := bcc\<rparr>) (Subject m) (Body m) = msg"
proof -
  have ok: "em_config_ok pa target" and sub: "one_line (Subject m)"
    using assms(1,3) by (auto simp: em_ready_def em_Render_def em_validateHeaderValue_def one_line_iff
        split: sum.splits option.splits if_splits)
  have CC: "em_CC target = em_CC t" by (simp add: assms(3) em_applyDefaults_def Let_def)
  have ls: "ls = email_headers pa target (Subject m)"
    and body: "body = to_crlf (Body m) @ (if HasSuffix (to_crlf (Body m)) crlf then [] else crlf)"
    using parse_buildEmail[OF ok sub assms(2), of "Body m"] assms(4,5) by simp_all
  have "list_all one_line ls"
    using email_headers_lines[OF ok sub assms(2)] by (simp add: ls list_all_iff)
  moreover have "list_all (\<lambda>n. length (filter (\<lambda>l. ToLower_is (field_name l) n) ls) =
      (if n = ''bcc'' \<or> (n = ''cc'' \<and> em_CC t = []) then 0 else 1)) reserved_names"
    using reserved_count[of target _ pa "Subject m"] ok
    unfolding list_all_iff ls CC em_config_ok_def by blast
  moreover have "crlf_only body"
    unfolding body by (intro crlf_only_append crlf_only_to_crlf) simp
  moreover have "buildEmail pa (target\<lparr>em_BCC := bcc\<rparr>) (Subject m) (Body m) = msg"
    unfolding assms(4) by (simp add: buildEmail_def email_headers_def standard_headers_def)
  ultimately show ?thesis using ls body by (simp add: normalizeBody_to_crlf to_crlf_id)
qed

lemma email_message_witness:
  "\<exists>ls body. parse_message (buildEmail (ParseAddress demo_smtp) demo_target ''Hi'' ''hello'') = (ls, body) \<and>
     length (filter (\<lambda>l. ToLower_is (field_name l) ''bcc'') ls) = 0 \<and> crlf_only body"
proof -
  obtain ls body where parse: "parse_message (buildEmail (ParseAddress demo_smtp) demo_target ''Hi'' ''hello'') = (ls, body)"
    by fastforce
  have lines: "one_line_mailboxes (ParseAddress demo_smtp)"
    by (auto simp: one_line_mailboxes_def demo_smtp_def one_line_iff[symmetric])
  have "list_all (\<lambda>n. length (filter (\<lambda>l. ToLower_is (field_name l) n) ls) =
      (if n = ''bcc'' \<or> (n = ''cc'' \<and> em_CC demo_email = []) then 0 else 1)) reserved_names \<and> crlf_only body"
    using email_message[OF demo_mail_ready lines refl refl, unfolded message.select_convs, OF parse] by blast
  then show ?thesis using parse by (auto simp: reserved_names_def)
qed

text \<open>
  C34: which SMTP failures may be retried. The first CONNECT status or, without one, the first
  SMTP reply decides (408, 429 and 500 and up, and 400 to 499, respectively); without either,
  certificate errors are permanent and network, end-of-file and context errors are transport
  failures; everything else is permanent, and so is what was permanent before. The message
  stays, and the default policy retries exactly the transport failures.
\<close>

theorem smtp_classification:
  assumes "StatusCode r = 0"
  shows "classifySMTPError None = None \<and>
    IsTransport (classifySMTPError (Some e)) = (\<not> IsPermanent (Some e) \<and> retry_worthy e) \<and>
    IsPermanent (classifySMTPError (Some e)) = (IsPermanent (Some e) \<or> \<not> retry_worthy e) \<and>
    map_option error_text (classifySMTPError (Some e)) = Some (error_text e) \<and>
    DefaultRetryPolicy r (classifySMTPError (Some e)) = (\<not> IsPermanent (Some e) \<and> retry_worthy e)"
proof -
  have wrap: "map_option error_text (Transport (Some e)) = Some (error_text e)"
    "map_option error_text (Permanent (Some e)) = Some (error_text e)"
    by (simp_all add: Transport_def Permanent_def)
  have t: "IsTransport (Transport (Some e)) = (\<not> IsPermanent (Some e))" by (rule IsTransport_Transport)
  have tp: "\<not> IsPermanent (Transport (Some e))" if "\<not> IsPermanent (Some e)"
    using t that IsPermanent_not_IsTransport by blast
  have pt: "\<not> IsTransport (Permanent (Some e))"
    using IsPermanent_not_IsTransport[OF IsPermanent_Permanent] .
  have "DefaultRetryPolicy r err = IsTransport err" for err
    using assms by (simp add: DefaultRetryPolicy_iff)
  then show ?thesis
    using wrap t tp pt IsPermanent_not_IsTransport[of "Some e"]
    by (auto simp: classifySMTPError_Some simp del: not_None_eq)
qed

lemma smtp_classification_witness:
  "IsTransport (classifySMTPError (Some (OperationError ''RCPT TO'' 5 (TextprotoError 451 ''later'')))) \<and>
   IsPermanent (classifySMTPError (Some (OperationError ''RCPT TO'' 5 (TextprotoError 550 ''no'')))) \<and>
   \<not> DefaultRetryPolicy zero_result (classifySMTPError (Some (OperationError ''connection'' 5 (ProxyError 407 ''auth''))))"
proof -
  have z: "StatusCode zero_result = 0" by (simp add: zero_result_def)
  note c = smtp_classification[OF z]
  have "retry_worthy (OperationError ''RCPT TO'' 5 (TextprotoError 451 ''later''))"
    "\<not> retry_worthy (OperationError ''RCPT TO'' 5 (TextprotoError 550 ''no''))"
    "\<not> retry_worthy (OperationError ''connection'' 5 (ProxyError 407 ''auth''))"
    by (simp_all add: retry_worthy_def proxy_code_def reply_code_def errors_As_def)
  moreover have "\<not> IsPermanent (Some (OperationError ''RCPT TO'' 5 (TextprotoError 451 ''later'')))"
    by (simp add: IsPermanent_Some)
  ultimately show ?thesis using c by simp
qed

text \<open>
  C35: an ASCII subject is sent as it is. Any other is sent as encoded words separated by
  spaces, all printable ASCII and none longer than 75 characters, from which a reader gets
  back the subject byte for byte.
\<close>

theorem subject_round_trip:
  "if isASCII v then encodeSubject v = v
   else decode_words (encodeSubject v) = v \<and>
     list_all (\<lambda>c. printable c \<or> c = CHR '' '') (encodeSubject v) \<and>
     list_all (\<lambda>w. length w \<le> 75) (split_on (CHR '' '') (encodeSubject v))"
proof (cases "isASCII v")
  case False
  note enc = not_ASCII_encoded[OF False]
  have "decode_words (encodeSubject v) = v"
    unfolding enc by (simp add: decode_encode_words concat_q_split)
  moreover have "list_all (\<lambda>c. printable c \<or> c = CHR '' '') (encodeSubject v)"
    unfolding enc list_all_iff using encode_words_line by blast
  moreover have "list_all (\<lambda>w. length w \<le> 75) (split_on (CHR '' '') (encodeSubject v))"
    unfolding enc split_encode_words[OF q_split_not_Nil] list_all_iff using encoded_word_length by auto
  ultimately show ?thesis using False by simp
qed (simp add: encodeSubject_def)

end
