(* ===== verification/Proxy_Facts.thy ===== *)
theory Proxy_Facts
  imports Proxy Email_Facts
begin

text \<open>
  Lemmas on the proxy tunnel: the transcript of a tunnel that was opened, and the request.
\<close>

definition tunnel_opened :: "go_context \<Rightarrow> proxy_url \<Rightarrow> string \<Rightarrow> transcript \<Rightarrow> bool" where
  "tunnel_opened ctx u target tr \<longleftrightarrow> (\<exists>hs d x y a z. tr = hs @ [(SetDeadline d, x), (WriteConnect (connect_request u target), Inr y),
       (ReadConnectResponse, Inr a), (ClearDeadline, z)] \<and>
     (if EqualFold (px_Scheme u) ''https'' then \<exists>h. hs = [(TLSHandshake (Hostname u) False ctx, Inr h)] else hs = []) \<and>
     (\<forall>D. deadline_at ctx = Some D \<longrightarrow> d = D) \<and> 200 \<le> answer_code a \<and> answer_code a < 300)"

lemma says_secure_proxy:
  "says (secure_proxy converse ctx u) (\<lambda>tr r. \<not> isl r \<longrightarrow>
     (if EqualFold (px_Scheme u) ''https'' then \<exists>h. tr = [(TLSHandshake (Hostname u) False ctx, Inr h)] else tr = []))"
proof (cases "EqualFold (px_Scheme u) ''https''")
  case True
  have "says (andThen (map_error f (converse (TLSHandshake (Hostname u) False ctx))) (\<lambda>_. succeed ()))
      (\<lambda>tr r. \<not> isl r \<longrightarrow> (\<exists>h. tr = [(TLSHandshake (Hostname u) False ctx, Inr h)]))" for f
    by (rule says_andThen[OF says_map_error[OF says_converse[where T = "\<lambda>tr r. \<forall>h. r = Inr h \<longrightarrow> tr = [(TLSHandshake (Hostname u) False ctx, Inr h)]"],
          where U = "\<lambda>tr r. \<forall>h. r = Inr h \<longrightarrow> tr = [(TLSHandshake (Hostname u) False ctx, Inr h)]"], where U = "\<lambda>_ tr r. tr = []"])
      (auto simp: says_def)
  then show ?thesis using True by (simp add: secure_proxy_def)
next
  case False
  then show ?thesis by (auto simp: secure_proxy_def intro!: says_succeed says_fail)
qed

lemma says_one:
  "says (map_error f (converse c)) (\<lambda>tr r. \<not> isl r \<longrightarrow> tr = [(c, Inr (projr r))])"
  by (rule says_map_error[OF says_converse[where T = "\<lambda>tr r. \<not> isl r \<longrightarrow> tr = [(c, Inr (projr r))]"]]) auto

lemma says_ignored: "says (ignore_error (converse c)) (\<lambda>tr r. \<exists>x. tr = [(c, x)])"
  by (rule says_ignore[OF says_converse[where T = "\<lambda>tr r. \<exists>x. tr = [(c, x)]"]]) auto

lemma says_proxy_deadline:
  "says (proxy_deadline converse ctx timeout) (\<lambda>tr r. \<exists>d x. tr = [(SetDeadline d, x)] \<and> (\<forall>D. deadline_at ctx = Some D \<longrightarrow> d = D))"
  unfolding proxy_deadline_def
  by (rule says_state[OF says_conseq[OF says_ignored]]) (auto split: option.splits)

lemma says_open_tunnel: "says (open_tunnel converse ctx u target timeout) (\<lambda>tr r. \<not> isl r \<longrightarrow> tunnel_opened ctx u target tr)"
proof -
  let ?req = "WriteConnect (connect_request u target)"
  have last: "says (if answer_code a < 200 \<or> 300 \<le> answer_code a then fail (ProxyError (answer_code a) (answer_status a))
      else ignore_error (converse ClearDeadline))
      (\<lambda>tr r. \<not> isl r \<longrightarrow> 200 \<le> answer_code a \<and> answer_code a < 300 \<and> (\<exists>z. tr = [(ClearDeadline, z)]))" for a
    using says_conseq[OF says_ignored] by (auto intro!: says_fail intro: says_conseq[OF says_ignored])
  have answered: "says (andThen (map_error f (converse ReadConnectResponse)) (\<lambda>a.
      if answer_code a < 200 \<or> 300 \<le> answer_code a then fail (ProxyError (answer_code a) (answer_status a))
      else ignore_error (converse ClearDeadline)))
      (\<lambda>tr r. \<not> isl r \<longrightarrow> (\<exists>a z. tr = [(ReadConnectResponse, Inr a), (ClearDeadline, z)] \<and> 200 \<le> answer_code a \<and> answer_code a < 300))" for f
    by (rule says_andThen[OF says_one last]) auto
  have written: "says (andThen (map_error g (converse ?req)) (\<lambda>_. andThen (map_error f (converse ReadConnectResponse)) (\<lambda>a.
      if answer_code a < 200 \<or> 300 \<le> answer_code a then fail (ProxyError (answer_code a) (answer_status a))
      else ignore_error (converse ClearDeadline))))
      (\<lambda>tr r. \<not> isl r \<longrightarrow> (\<exists>y a z. tr = [(?req, Inr y), (ReadConnectResponse, Inr a), (ClearDeadline, z)] \<and>
        200 \<le> answer_code a \<and> answer_code a < 300))" for f g
    by (rule says_andThen[OF says_one answered]) auto
  have timed: "says (andThen (proxy_deadline converse ctx timeout) (\<lambda>_. andThen (map_error g (converse ?req)) (\<lambda>_.
      andThen (map_error f (converse ReadConnectResponse)) (\<lambda>a.
      if answer_code a < 200 \<or> 300 \<le> answer_code a then fail (ProxyError (answer_code a) (answer_status a))
      else ignore_error (converse ClearDeadline)))))
      (\<lambda>tr r. \<not> isl r \<longrightarrow> (\<exists>d x y a z. tr = [(SetDeadline d, x), (?req, Inr y), (ReadConnectResponse, Inr a), (ClearDeadline, z)] \<and>
        (\<forall>D. deadline_at ctx = Some D \<longrightarrow> d = D) \<and>
        200 \<le> answer_code a \<and> answer_code a < 300))" for f g
    by (rule says_andThen[OF says_proxy_deadline written]) auto
  show ?thesis
    unfolding open_tunnel_def writeConnectRequest_def
    by (rule says_andThen[OF says_secure_proxy timed]) (auto simp: tunnel_opened_def split: if_splits)
qed

lemma says_dialProxy:
  "says (dialProxy converse ctx (Some u) target timeout) (\<lambda>tr r. \<not> isl r \<longrightarrow>
     (\<exists>address d tr'. proxyDialAddress (Some u) = Inr address \<and> tr = (DialTCP address timeout ctx, Inr d) # tr' \<and>
        tunnel_opened ctx u target tr'))"
proof -
  have close: "says (close_on_error converse (open_tunnel converse ctx u target timeout)) (\<lambda>tr r. \<not> isl r \<longrightarrow> tunnel_opened ctx u target tr)"
    by (rule says_close_on_error[OF says_open_tunnel]) auto
  have dialled: "says (andThen (map_error f (converse (DialTCP address timeout ctx))) (\<lambda>_. close_on_error converse (open_tunnel converse ctx u target timeout)))
      (\<lambda>tr r. \<not> isl r \<longrightarrow> (\<exists>d tr'. tr = (DialTCP address timeout ctx, Inr d) # tr' \<and> tunnel_opened ctx u target tr'))" for f address
    by (rule says_andThen[OF says_one close]) auto
  show ?thesis
    unfolding dialProxy_def
    by (auto intro!: says_fail intro: says_conseq[OF dialled] split: sum.split)
qed

text \<open>The address dialled, split again.\<close>

definition default_port :: "proxy_url \<Rightarrow> string" where
  "default_port u = (if EqualFold (px_Scheme u) ''https'' then ''443'' else ''80'')"

lemma proxyDialAddress_split:
  assumes "proxyDialAddress (Some u) = Inr address" and "\<not> bracketed (Hostname u)"
  shows "splitHostPort address = (Hostname u, if Port u = [] then default_port u else Port u)"
proof (cases "Port u = []")
  case True
  then have "address = JoinHostPort (Hostname u) (default_port u)"
    using assms(1) by (auto simp: proxyDialAddress_def default_port_def split: if_splits)
  moreover have "list_all is_digit (default_port u)" by (simp add: default_port_def is_digit_def)
  ultimately show ?thesis using split_join_host_port assms(2) True by simp
next
  case False
  then show ?thesis
    using assms(1) by (auto simp: proxyDialAddress_def Hostname_def Port_def split: if_splits)
qed

section \<open>The CONNECT request\<close>

definition connect_lines :: "proxy_url \<Rightarrow> string \<Rightarrow> string list" where
  "connect_lines u target =
     [''CONNECT '' @ target @ '' HTTP/1.1'', ''Host: '' @ target, ''Proxy-Connection: Keep-Alive''] @
     (case px_User u of None \<Rightarrow> []
      | Some (username, password) \<Rightarrow> [''Proxy-Authorization: Basic '' @ b64_encode (username @ '':'' @ password)])"

lemma connect_request_lines: "connect_request u target = concat (map (\<lambda>l. l @ crlf) (connect_lines u target)) @ crlf @ []"
  by (simp add: connect_request_def connect_lines_def split: option.split prod.split)

lemma parse_connect: "one_line target \<Longrightarrow> parse_message (connect_request u target) = (connect_lines u target, [])"
  unfolding connect_request_lines
  by (rule parse_message_lines)
    (auto simp: connect_lines_def one_line_def b64_one_line split: option.splits)

end
