(* ===== verification/Tunnel.thy ===== *)
theory Tunnel
  imports Proxy_Facts
begin

text \<open>
  The bytes of the connection that \<open>dialProxy\<close> returns (\<open>targets/email/proxy.go\<close>): a buffered
  reader takes in the proxy's response, and may have read more than that; \<open>bufferedConn\<close> hands
  out what it holds before it reads the connection again.

  The network delivers a stream in chunks of its own choosing: one read of the connection gives
  at most one chunk. The reader is \<open>bufio.Reader\<close> with its buffer of 4096 bytes; how many bytes
  fit is part of the choice of chunks. The response's status does not matter here
  (\<open>open_tunnel\<close>), only which bytes are read as its header.
\<close>

section \<open>Reading a connection\<close>

text \<open>A read gives some bytes, or \<open>None\<close> at the end of the stream.\<close>

fun conn_Read :: "nat \<Rightarrow> string list \<Rightarrow> string option \<times> string list" where
  "conn_Read n [] = (None, [])"
| "conn_Read n (c # cs) = (Some (take n c), if length c \<le> n then cs else drop n c # cs)"

record reader =
  buffered :: string
  pending :: "string list"

definition NewReader :: "string list \<Rightarrow> reader" where
  "NewReader conn = \<lparr>buffered = [], pending = conn\<rparr>"

definition bufio_Read :: "nat \<Rightarrow> reader \<Rightarrow> string option \<times> reader" where
  "bufio_Read n b =
     (if n = 0 then (Some [], b)
      else if buffered b \<noteq> [] then (Some (take n (buffered b)), b\<lparr>buffered := drop n (buffered b)\<rparr>)
      else if 4096 \<le> n then (let (x, s) = conn_Read n (pending b) in (x, b\<lparr>pending := s\<rparr>))
      else (case conn_Read 4096 (pending b) of
          (None, s) \<Rightarrow> (None, b\<lparr>pending := s\<rparr>)
        | (Some c, s) \<Rightarrow> (Some (take n c), \<lparr>buffered = drop n c, pending = s\<rparr>)))"

text \<open>A line with its line feed, reading the connection until there is one.\<close>

fun take_line :: "string \<Rightarrow> (string \<times> string) option" where
  "take_line [] = None"
| "take_line (c # s) = (if c = LF then Some ([c], s)
     else (case take_line s of None \<Rightarrow> None | Some (l, r) \<Rightarrow> Some (c # l, r)))"

fun ReadSlice :: "string \<Rightarrow> string list \<Rightarrow> (string \<times> reader) option" where
  "ReadSlice b [] = (case take_line b of None \<Rightarrow> None | Some (l, r) \<Rightarrow> Some (l, \<lparr>buffered = r, pending = []\<rparr>))"
| "ReadSlice b (c # cs) = (case take_line b of
     None \<Rightarrow> ReadSlice (b @ c) cs | Some (l, r) \<Rightarrow> Some (l, \<lparr>buffered = r, pending = c # cs\<rparr>))"

definition unread :: "reader \<Rightarrow> string" where
  "unread b = buffered b @ concat (pending b)"

lemma take_line_split: "take_line s = Some (l, r) \<Longrightarrow> l \<noteq> [] \<and> l @ r = s"
  by (induction s arbitrary: l) (auto split: if_splits option.splits)

lemma take_line_append: "take_line s = Some (l, r) \<Longrightarrow> take_line (s @ t) = Some (l, r @ t)"
  by (induction s arbitrary: l) (auto split: if_splits option.splits)

lemma ReadSlice_unread:
  "map_option (\<lambda>(l, b'). (l, unread b')) (ReadSlice b cs) = take_line (b @ concat cs)"
proof (induction b cs rule: ReadSlice.induct)
  case (2 b c cs)
  then show ?case
    by (cases "take_line b") (auto simp: unread_def dest: take_line_append[where t = "c @ concat cs"])
qed (auto simp: unread_def split: option.split)

text \<open>The lines of a header, up to the empty one, as \<open>http.ReadResponse\<close> reads them.\<close>

definition blank :: "string \<Rightarrow> bool" where
  "blank l \<longleftrightarrow> l = [LF] \<or> l = crlf"

function read_head :: "reader \<Rightarrow> (string list \<times> reader) option" where
  "read_head b = (case ReadSlice (buffered b) (pending b) of
     None \<Rightarrow> None
   | Some (l, b') \<Rightarrow> if blank l then Some ([], b')
       else (case read_head b' of None \<Rightarrow> None | Some (ls, b'') \<Rightarrow> Some (l # ls, b'')))"
  by auto
termination
proof (relation "measure (length \<circ> unread)")
  fix b b' :: reader and lb and l :: string
  assume "ReadSlice (buffered b) (pending b) = Some lb" "(l, b') = lb"
  then have "take_line (unread b) = Some (l, unread b')"
    using ReadSlice_unread[of "buffered b" "pending b"] by (auto simp: unread_def)
  then have "l \<noteq> []" and "unread b = l @ unread b'" using take_line_split by metis+
  then show "(b', b) \<in> measure (length \<circ> unread)" by simp
qed simp

declare read_head.simps [simp del]

section \<open>The tunnel\<close>

text \<open>\<open>bufferedConn\<close> embeds the connection and reads through the reader, which reads the connection.\<close>

record bufferedConn =
  conn_reader :: reader

definition bufferedConn_Read :: "nat \<Rightarrow> bufferedConn \<Rightarrow> string option \<times> bufferedConn" where
  "bufferedConn_Read n c = (let (x, b) = bufio_Read n (conn_reader c) in (x, c\<lparr>conn_reader := b\<rparr>))"

text \<open>From the proxy's connection to the connection returned.\<close>

definition tunnel :: "string list \<Rightarrow> bufferedConn option" where
  "tunnel conn = map_option (\<lambda>(ls, b). \<lparr>conn_reader = b\<rparr>) (read_head (NewReader conn))"

text \<open>A sequence of reads of given sizes, and the bytes they give.\<close>

fun reads :: "nat list \<Rightarrow> bufferedConn \<Rightarrow> string \<times> bufferedConn" where
  "reads [] c = ([], c)"
| "reads (n # ns) c = (let (x, c1) = bufferedConn_Read n c; (s, c2) = reads ns c1
     in ((case x of None \<Rightarrow> [] | Some y \<Rightarrow> y) @ s, c2))"

section \<open>Lemmas\<close>

text \<open>What is read depends on the stream alone, not on its chunks.\<close>

lemma read_head_line:
  assumes "take_line (unread b) = Some (l, s)"
  shows "\<exists>b'. unread b' = s \<and> read_head b = (if blank l then Some ([], b')
     else (case read_head b' of None \<Rightarrow> None | Some (ls, b'') \<Rightarrow> Some (l # ls, b'')))"
proof -
  obtain b' where "ReadSlice (buffered b) (pending b) = Some (l, b')" "unread b' = s"
    using ReadSlice_unread[of "buffered b" "pending b"] assms by (auto simp: unread_def)
  then show ?thesis by (subst read_head.simps) auto
qed

lemma take_line_crlf: "one_line l \<Longrightarrow> take_line (l @ crlf @ s) = Some (l @ crlf, s)"
  by (induction l) (auto simp: one_line_def)

lemma read_head_lines:
  assumes "list_all (\<lambda>l. one_line l \<and> l \<noteq> []) ls"
    and "unread b = concat (map (\<lambda>l. l @ crlf) ls) @ crlf @ rest"
  shows "\<exists>b'. read_head b = Some (map (\<lambda>l. l @ crlf) ls, b') \<and> unread b' = rest"
  using assms
proof (induction ls arbitrary: b)
  case Nil
  then have "take_line (unread b) = Some (crlf, rest)" by simp
  then show ?case using read_head_line[of b crlf rest] by (auto simp: blank_def)
next
  case (Cons l ls)
  let ?s = "concat (map (\<lambda>l. l @ crlf) ls) @ crlf @ rest"
  have l: "one_line l" "l \<noteq> []" and ls: "list_all (\<lambda>l. one_line l \<and> l \<noteq> []) ls" using Cons.prems(1) by simp_all
  have "take_line (unread b) = Some (l @ crlf, ?s)"
    using take_line_crlf[OF l(1), of ?s] Cons.prems(2) by simp
  then obtain b' where b': "unread b' = ?s" and head: "read_head b = (if blank (l @ crlf) then Some ([], b')
     else (case read_head b' of None \<Rightarrow> None | Some (ls, b'') \<Rightarrow> Some ((l @ crlf) # ls, b'')))"
    using read_head_line by blast
  have "\<not> blank (l @ crlf)" using l(2) by (cases l) (auto simp: blank_def)
  then show ?case using head Cons.IH[OF ls b'] by auto
qed

text \<open>No read loses or invents a byte, and reading makes progress.\<close>

lemma conn_Read_stream: "conn_Read n cs = (x, cs') \<Longrightarrow> (case x of None \<Rightarrow> [] | Some y \<Rightarrow> y) @ concat cs' = concat cs"
  by (cases cs) (auto split: if_splits)

lemma take_drop_append [simp]: "take n xs @ drop n xs @ ys = xs @ ys"
  by (simp flip: append_assoc)

lemma bufio_Read_unread:
  "bufio_Read n b = (x, b') \<Longrightarrow> (case x of None \<Rightarrow> [] | Some y \<Rightarrow> y) @ unread b' = unread b"
  by (auto simp: bufio_Read_def unread_def split: if_splits prod.splits option.splits dest!: conn_Read_stream)

definition chunks_ok :: "reader \<Rightarrow> bool" where
  "chunks_ok b \<longleftrightarrow> list_all (\<lambda>c. c \<noteq> []) (pending b)"

lemma conn_Read_ok: "conn_Read n cs = (x, cs') \<Longrightarrow> list_all (\<lambda>c. c \<noteq> []) cs \<Longrightarrow> list_all (\<lambda>c. c \<noteq> []) cs'"
  by (cases cs) (auto split: if_splits)

lemma bufio_Read_ok: "bufio_Read n b = (x, b') \<Longrightarrow> chunks_ok b \<Longrightarrow> chunks_ok b'"
  by (auto simp: bufio_Read_def chunks_ok_def split: if_splits prod.splits option.splits dest: conn_Read_ok)

lemma bufio_Read_progress:
  assumes "bufio_Read n b = (x, b')" and "0 < n" and "chunks_ok b" and "unread b \<noteq> []"
  shows "length (unread b') < length (unread b)"
proof (cases "buffered b = []")
  case True
  then obtain c cs where "pending b = c # cs" "c \<noteq> []"
    using assms(3,4) by (cases "pending b") (auto simp: unread_def chunks_ok_def)
  then show ?thesis using assms(1,2) True by (auto simp: bufio_Read_def unread_def split: if_splits)
next
  case False
  then show ?thesis using assms(1,2) by (auto simp: bufio_Read_def unread_def)
qed

lemma reads_unread:
  "reads ns c = (s, c') \<Longrightarrow> s @ unread (conn_reader c') = unread (conn_reader c)"
proof (induction ns arbitrary: c s c')
  case (Cons n ns)
  obtain x b where r: "bufio_Read n (conn_reader c) = (x, b)" by fastforce
  obtain s2 c2 where rest: "reads ns (c\<lparr>conn_reader := b\<rparr>) = (s2, c2)" by fastforce
  then show ?case
    using Cons.prems Cons.IH[OF rest] bufio_Read_unread[OF r] r
    by (auto simp: bufferedConn_Read_def Let_def)
qed simp

lemma reads_all:
  "reads ns c = (s, c') \<Longrightarrow> list_all (\<lambda>n. 0 < n) ns \<Longrightarrow> chunks_ok (conn_reader c) \<Longrightarrow>
     length (unread (conn_reader c)) \<le> length ns \<Longrightarrow> unread (conn_reader c') = []"
proof (induction ns arbitrary: c s c')
  case (Cons n ns)
  obtain x b where r: "bufio_Read n (conn_reader c) = (x, b)" by fastforce
  obtain s2 c2 where rest: "reads ns (c\<lparr>conn_reader := b\<rparr>) = (s2, c2)" by fastforce
  have c': "c' = c2" using Cons.prems(1) r rest by (simp add: bufferedConn_Read_def Let_def)
  have "length (unread b) \<le> length ns"
  proof (cases "unread (conn_reader c) = []")
    case True
    then show ?thesis using bufio_Read_unread[OF r] by simp
  next
    case False
    then show ?thesis using bufio_Read_progress[OF r _ Cons.prems(3)] Cons.prems(2,4) by simp
  qed
  then show ?case
    using Cons.IH[OF rest] Cons.prems(2,3) bufio_Read_ok[OF r] c' by simp
qed simp

lemma ReadSlice_ok: "ReadSlice b cs = Some (l, b') \<Longrightarrow> list_all (\<lambda>c. c \<noteq> []) cs \<Longrightarrow> chunks_ok b'"
  by (induction b cs rule: ReadSlice.induct) (auto simp: chunks_ok_def split: option.splits)

lemma read_head_ok: "read_head b = Some (ls, b') \<Longrightarrow> chunks_ok b \<Longrightarrow> chunks_ok b'"
proof (induction b arbitrary: ls rule: read_head.induct)
  case (1 b)
  obtain l b1 where line: "ReadSlice (buffered b) (pending b) = Some (l, b1)"
    using 1(2) by (subst (asm) read_head.simps) (auto split: option.splits)
  have ok: "chunks_ok b1" using ReadSlice_ok[OF line] 1(3) by (simp add: chunks_ok_def)
  show ?case
  proof (cases "blank l")
    case True
    then show ?thesis using 1(2) line ok by (subst (asm) read_head.simps) simp
  next
    case False
    then obtain ls' where "read_head b1 = Some (ls', b')"
      using 1(2) line by (subst (asm) read_head.simps) (auto split: option.splits)
    then show ?thesis using 1(1)[OF line refl False _ ok] by simp
  qed
qed

end
