(* ===== verification/Secrecy.thy ===== *)
theory Secrecy
  imports Go_Runtime Go_Time
begin

text \<open>
  What an error and a log record show: the strings in them. A text is harmless when every
  string in it belongs to a set of public strings; what is not in the set then appears nowhere,
  neither alone nor as an operand. The locale is the contract of such a set: it contains the
  texts the library itself writes and the durations it prints.
\<close>

section \<open>The strings shown\<close>

fun piece_string :: "piece \<Rightarrow> string set" where
  "piece_string (Lit s) = {s}"
| "piece_string (Str s) = {s}"
| "piece_string (Quo s) = {s}"
| "piece_string (Num i) = {}"
| "piece_string (Dur i) = {}"

definition piece_strings :: "piece list \<Rightarrow> string set" where
  "piece_strings ps = \<Union> (piece_string ` set ps)"

text \<open>What \<open>Error()\<close> shows, and what an error that may be nil shows.\<close>

definition shown :: "go_error \<Rightarrow> string set" where
  "shown e = piece_strings (error_text e)"

definition shows_only :: "string set \<Rightarrow> go_error option \<Rightarrow> bool" where
  "shows_only S err \<longleftrightarrow> (case err of None \<Rightarrow> True | Some e \<Rightarrow> shown e \<subseteq> S)"

fun attr_strings :: "attr \<Rightarrow> string set" where
  "attr_strings (AStr s) = {s}"
| "attr_strings (AInt i) = {}"
| "attr_strings (ADur i) = {}"
| "attr_strings (ABool b) = {}"
| "attr_strings (AErr e) = shown e"
| "attr_strings (AHeader h) = (\<Union>(k, vs) \<in> set h. insert k (set vs))"

definition attrs_within :: "string set \<Rightarrow> (string \<times> attr) list \<Rightarrow> bool" where
  "attrs_within S as \<longleftrightarrow> list_all (\<lambda>(k, a). k \<in> S \<and> attr_strings a \<subseteq> S) as"

fun record_within :: "string set \<Rightarrow> log_record \<Rightarrow> bool" where
  "record_within S (LogRecord lv m as) = (m \<in> S \<and> attrs_within S as)"

fun logger_within :: "string set \<Rightarrow> logger \<Rightarrow> bool" where
  "logger_within S Discard = True"
| "logger_within S (Logger bs) = attrs_within S bs"

text \<open>What is logged on top of \<open>w\<close> shows strings of \<open>S\<close> only: messages, keys and values.\<close>

definition logs_within :: "string set \<Rightarrow> 'x runtime \<Rightarrow> 'x runtime \<Rightarrow> bool" where
  "logs_within S w w' \<longleftrightarrow> (\<exists>recs. logs w' = logs w @ recs \<and> list_all (record_within S) recs)"

section \<open>Their laws\<close>

lemma piece_strings_simps [simp]:
  "piece_strings [] = {}" "piece_strings (p # ps) = piece_string p \<union> piece_strings ps"
  "piece_strings (ps @ qs) = piece_strings ps \<union> piece_strings qs"
  by (simp_all add: piece_strings_def Un_assoc)

lemma shown_simps [simp]:
  "shown (ErrorString s) = {s}"
  "shown (Errorf f ps None) = insert f (piece_strings ps)"
  "shown (Errorf f ps (Some e)) = insert f (piece_strings ps) \<union> shown e"
  "shown (PermanentError e) = shown e"
  "shown (TransportError e) = shown e"
  "shown (RedactedError e m) = {m}"
  "shown (DeliveryError r t i n d e) =
     {''receiver %q target %s[%d] failed after %d attempts: %v'', id_string r, t} \<union> shown e"
  "shown ErrManagerStopped = {''manager stopped''}"
  by (auto simp: shown_def)

lemma shown_Join: "shown (JoinError es) \<subseteq> insert [CHR 0x0A] (\<Union> (shown ` set es))"
proof -
  have "piece_strings (join_lines ts) \<subseteq> insert [CHR 0x0A] (\<Union> (piece_strings ` set ts))" for ts
    by (induction ts rule: join_lines.induct) auto
  from this[of "map error_text es"] show ?thesis by (simp add: shown_def image_image)
qed

lemma shows_only_simps [simp]:
  "shows_only S None" "shows_only S (Some e) = (shown e \<subseteq> S)"
  "shows_only S (Permanent err) = shows_only S err"
  "shows_only S (Transport err) = shows_only S err"
  by (auto simp: shows_only_def Permanent_def Transport_def split: option.splits)

lemma attrs_within_simps [simp]:
  "attrs_within S []" "attrs_within S ((k, a) # as) = (k \<in> S \<and> attr_strings a \<subseteq> S \<and> attrs_within S as)"
  "attrs_within S (as @ bs) = (attrs_within S as \<and> attrs_within S bs)"
  by (simp_all add: attrs_within_def)

lemma logger_within_With: "logger_within S lg \<Longrightarrow> attrs_within S as \<Longrightarrow> logger_within S (logger_With lg as)"
  by (cases lg) simp_all

lemma logs_within_refl: "logs w' = logs w \<Longrightarrow> logs_within S w w'"
  by (simp add: logs_within_def)

lemma logs_within_same [simp]: "logs_within S w w"
  by (simp add: logs_within_refl)

lemma logs_within_trans: "logs_within S w w1 \<Longrightarrow> logs_within S w1 w2 \<Longrightarrow> logs_within S w w2"
  by (auto simp: logs_within_def)

lemma logs_within_cong: "logs w1 = logs w \<Longrightarrow> logs_within S w1 w' \<Longrightarrow> logs_within S w w'"
  by (simp add: logs_within_def)

lemma logs_within_log:
  assumes "logger_within S lg" and "m \<in> S" and "attrs_within S as" and "logs_within S w w1"
  shows "logs_within S w (log_to lg lv m as w1)"
proof -
  have "logs_within S w1 (log_to lg lv m as w1)" using assms(1-3) by (cases lg) (auto simp: logs_within_def)
  then show ?thesis using logs_within_trans assms(4) by blast
qed

section \<open>The texts of the library\<close>

text \<open>
  Every literal that the delivery core and the webhook target put into an error or a log record
  they write, and the zero status.
\<close>

definition library_texts :: "string list" where
  "library_texts =
    [[], [CHR 0x0A], ''webhook'',
     ''context is nil'', ''notification is nil'', ''notification ID is required'', ''no receivers resolved'',
     ''receiver %q has no targets'', ''receiver %q target is nil'', ''manager stopped'',
     ''receiver %q target %s[%d] failed after %d attempts: %v'',
     ''notification target retry'', ''notification target attempt'', ''notification target failed'',
     ''notification target delivered'', ''receiver not found'', ''notification delivery failed'', ''notification delivered'',
     ''attempt'', ''backoff'', ''maxAttempts'', ''attempts'', ''status'', ''statusCode'', ''error'', ''receiver'',
     ''targetType'', ''notificationID'', ''targetIndex'', ''receiverID'', ''queueID'',
     ''target'', ''duration'', ''responseTruncated'',
     ''webhook delivered'', ''webhook delivery failed'', ''webhook response read failed'', ''webhook request failed'',
     ''webhook %q delivery failed: %s'', ''webhook URL or request failed'',
     ''webhook URL must use http or https'', ''webhook URL host is required'',
     ''webhook template is nil'', ''webhook title template is nil'', ''template is nil'',
     ''render webhook title: %w'', ''render webhook template: %w'', ''execute template: %w'',
     ''render webhook template: result is not valid JSON'',
     ''webhook header name must not be empty'', ''webhook header %q must not have leading or trailing whitespace'',
     ''webhook header %q contains invalid character'', ''webhook header %q value must not contain newline characters'']"

definition library_strings :: "string set" where
  "library_strings = set library_texts \<union> range rounded_string"

locale public_strings =
  fixes S :: "string set"
  assumes library: "library_strings \<subseteq> S"
begin

lemma duration: "rounded_string d \<in> S"
  using library by (auto simp: library_strings_def)

lemma texts: "list_all (\<lambda>s. s \<in> S) library_texts"
  using library by (auto simp: library_strings_def list_all_iff)

lemmas known = duration texts[unfolded library_texts_def list.pred_inject]

lemma shows_only_Join: "list_all (\<lambda>e. shown e \<subseteq> S) es \<Longrightarrow> shows_only S (errors_Join es)"
  using shown_Join[of es] known by (fastforce simp: errors_Join_def list_all_iff)

end

text \<open>The texts of the library and whatever else an application makes public.\<close>

interpretation public: public_strings "library_strings \<union> S"
  by unfold_locales blast

end
