(* ===== verification/Webhook_Secrets.thy ===== *)
theory Webhook_Secrets
  imports Webhook_Facts Secrecy
begin

text \<open>
  What a webhook target shows: its label, the names of its headers, the status line of the
  response and the library's own texts; neither the URL, nor the values of the headers, nor the
  body it sends, nor anything else of the response.
\<close>

section \<open>What is assumed of the environment\<close>

text \<open>
  An error that quotes the request, and so its URL, is a \<open>*url.Error\<close> or wraps one; any other
  error shows public strings only. \<open>redactedError\<close> is private to the webhook package.
\<close>

definition showable :: "string set \<Rightarrow> go_error \<Rightarrow> bool" where
  "showable S e \<longleftrightarrow> errors_As is_redacted e = None \<and> (errors_As is_url_error e \<noteq> None \<or> shown e \<subseteq> S)"

text \<open>
  \<open>net/http\<close> logs nothing by itself, and the status line of a response is public. A body that
  cannot be read may fail with any error.
\<close>

definition public_http :: "string set \<Rightarrow> 'x http_lib \<Rightarrow> bool" where
  "public_http S lib \<longleftrightarrow> (\<forall>m u e. NewRequest lib m u = Inl e \<longrightarrow> showable S e) \<and>
     (\<forall>c ctx req v a v'. Do lib c ctx req v = (a, v') \<longrightarrow> logs v' = logs v \<and>
        (case a of Inl e \<Rightarrow> showable S e | Inr resp \<Rightarrow> Resp_Status resp \<in> S))"

text \<open>What is public of a target: not its URL, nor the values of its headers.\<close>

definition public_webhook :: "string set \<Rightarrow> 'v webhook \<Rightarrow> bool" where
  "public_webhook S t \<longleftrightarrow>
     (\<forall>v e. StringTemplate_Render (wh_TitleTmpl t) v = Inl e \<or> Template_Render (wh_Template t) v = Inl e \<longrightarrow> showable S e) \<and>
     wh_Name t \<in> S \<and> fst ` set (wh_Headers t) \<subseteq> S \<and>
     (case wh_Logger t of None \<Rightarrow> True | Some lg \<Rightarrow> logger_within S lg) \<and>
     wh_LogResponse t \<noteq> LogResponseBody \<and> wh_LogResponse t \<noteq> LogResponseFull"

lemma public_webhookD:
  assumes "public_webhook S t" and "\<theta> = wh_applyDefaults t"
  shows "logger_within S (the (wh_Logger \<theta>))" and "wh_LogResponse \<theta> \<noteq> LogResponseBody"
    and "wh_LogResponse \<theta> \<noteq> LogResponseFull" and "fst ` set (wh_Headers \<theta>) \<subseteq> S" and "wh_Name \<theta> \<in> S"
    and "\<forall>v e. StringTemplate_Render (wh_TitleTmpl \<theta>) v = Inl e \<or> Template_Render (wh_Template \<theta>) v = Inl e \<longrightarrow> showable S e"
  using assms summary_mode
  by (auto simp: public_webhook_def wh_applyDefaults_def cmp_Or_def split: option.splits)

section \<open>Its errors\<close>

context public_strings
begin

lemma showable_leaf: "s \<in> S \<Longrightarrow> showable S (ErrorString s)"
  "f \<in> S \<Longrightarrow> piece_strings ps \<subseteq> S \<Longrightarrow> showable S (Errorf f ps None)"
  by (simp_all add: showable_def errors_As_None)

lemma showable_wrap: "f \<in> S \<Longrightarrow> showable S e \<Longrightarrow> showable S (Errorf f [] (Some e))"
  by (auto simp: showable_def errors_As_None)

lemma safe_shown: "showable S e \<Longrightarrow> shows_only S (safeWebhookError (Some e))"
  by (auto simp: safeWebhookError_def showable_def known)

lemma render_showable:
  assumes "\<forall>v e. StringTemplate_Render (wh_TitleTmpl t) v = Inl e \<or> Template_Render (wh_Template t) v = Inl e \<longrightarrow> showable S e"
    and "wh_Render lib nil_any (Some t) p = Inl e"
  shows "showable S e"
  using assms by (auto simp: wh_Render_def Let_def known intro!: showable_leaf showable_wrap split: if_splits sum.splits)

lemma headers_showable: "wh_check_headers hs = Some e \<Longrightarrow> fst ` set hs \<subseteq> S \<Longrightarrow> showable S e"
  by (induction hs rule: wh_check_headers.induct)
    (auto simp: wh_validateHeaderName_def wh_validateHeaderValue_def known intro!: showable_leaf
      split: option.splits if_splits)

lemma endpoint_shown:
  assumes "\<And>m u e. NewRequest lib m u = Inl e \<Longrightarrow> showable S e" and "validateEndpoint lib m u = Some x"
  shows "shows_only S (safeWebhookError (Some x))"
proof (cases "NewRequest lib m u")
  case (Inl e)
  then have x: "safeWebhookError (Some e) = Some x" using assms(2) by (simp add: validateEndpoint_def)
  have "safeWebhookError (Some x) = Some x"
    using x errors_As_self[of is_redacted x] by (auto simp: safeWebhookError_def split: if_splits)
  then show ?thesis using safe_shown[OF assms(1)[OF Inl]] x by simp
next
  case (Inr u')
  then have "showable S x"
    using assms(2) by (auto simp: validateEndpoint_def validateRequestURL_def known intro!: showable_leaf split: prod.splits if_splits)
  then show ?thesis by (rule safe_shown)
qed

section \<open>Its responses\<close>

lemma fields_within:
  assumes "wh_Name t \<in> S" and "Resp_Status resp \<in> S" and "mode \<noteq> LogResponseBody" and "mode \<noteq> LogResponseFull"
  shows "attrs_within S (responseLogFields t resp body tr d mode)"
  using assms by (simp add: responseLogFields_def wh_label_def cmp_Or_def known)

lemma receive_within:
  assumes "logger_within S (the (wh_Logger t))" and "wh_Name t \<in> S" and "Resp_Status resp \<in> S"
    and "wh_LogResponse t \<noteq> LogResponseBody" and "wh_LogResponse t \<noteq> LogResponseFull"
    and "wh_receive lib t resp d w = ((s, c, body, ra, e), w')"
  shows "shows_only S e \<and> s \<in> S \<and> logs_within S w w'"
proof -
  have own: "shown (read_failed x) \<subseteq> S" "shown (responseError (wh_label t) (Resp_Status resp)) \<subseteq> S" for x
    using assms(2,3) by (simp_all add: read_failed_def responseError_def wh_label_def cmp_Or_def known)
  note log = logs_within_log[OF assms(1) _ _ logs_within_same]
  show ?thesis
  proof (cases "readResponseBody (Resp_Body resp) (wh_ResponseBodyLimit t)")
    case (Inl x)
    then show ?thesis
      using assms(3,6) own(1)[of x] by (auto simp: wh_receive_def Let_def known intro!: log)
  next
    case (Inr y)
    obtain shown_body tr where y: "y = (shown_body, tr)" by fastforce
    note fields = fields_within[OF assms(2,3) summary_mode, of shown_body tr d]
    show ?thesis
      using assms(3-6) own(2) Inr y fields
      by (auto simp: wh_receive_def Let_def logFailedResponse_def logSuccessfulResponse_def known
          intro!: log split: if_splits)
  qed
qed

lemma post_within:
  assumes "public_http S lib" and "logger_within S (the (wh_Logger t))" and "wh_Name t \<in> S"
    and "wh_LogResponse t \<noteq> LogResponseBody" and "wh_LogResponse t \<noteq> LogResponseFull"
    and "wh_post lib t ctx body w = ((s, c, b, ra, e), w')"
  shows "shows_only S e \<and> s \<in> S \<and> logs_within S w w'"
proof (cases "NewRequest lib (wh_Method t) (wh_URL t)")
  case (Inl x)
  then have "showable S x" using assms(1) by (auto simp: public_http_def)
  then show ?thesis
    using assms(6) Inl safe_shown by (auto simp: wh_post_def known)
next
  case (Inr u)
  obtain req w1 where req: "wh_request t body w = (req, w1)" by fastforce
  obtain a w2 where do: "Do lib (the (wh_Client t)) ctx req w1 = (a, w2)" by fastforce
  have l: "logs w2 = logs w" and a: "case a of Inl e \<Rightarrow> showable S e | Inr resp \<Rightarrow> Resp_Status resp \<in> S"
    using assms(1) do wh_request_frame(2)[of t body w] by (auto simp: public_http_def req)
  show ?thesis
  proof (cases a)
    case (Inl x)
    obtain x' where x': "safeWebhookError (Some x) = Some x'" using Some_safe by blast
    have "shown x' \<subseteq> S" using safe_shown[of x] a Inl x' by simp
    then show ?thesis
      using assms(2,6) x' l unfolding wh_post_simp[OF Inr req do] Inl
      by (auto simp: known intro!: logs_within_log[OF _ _ _ logs_within_refl])
  next
    case resp: (Inr resp)
    have "wh_receive lib t resp (now w2 - now w) w2 = ((s, c, b, ra, e), w')"
      using assms(6) resp unfolding wh_post_simp[OF Inr req do] by simp
    then show ?thesis
      using receive_within[OF assms(2,3) _ assms(4,5)] a resp logs_within_cong[OF l] by fastforce
  qed
qed

lemma SendResult_within:
  assumes "public_http S lib" and "public_webhook S t"
    and "wh_SendResult lib nil_any (Some t) (Some ctx) p w = ((r, e), w')"
  shows "shows_only S e \<and> Status r \<in> S \<and> logs_within S w w'"
proof -
  let ?t = "wh_applyDefaults t"
  note t = public_webhookD[OF assms(2) refl]
  have new: "NewRequest lib m u = Inl e \<Longrightarrow> showable S e" for m u e using assms(1) by (auto simp: public_http_def)
  obtain herr w1 where h: "wh_validateHeaders (wh_Headers ?t) w = (herr, w1)" by fastforce
  have lw1: "logs w1 = logs w" using wh_validateHeaders_frame(2)[of "wh_Headers ?t" w] by (simp add: h)
  have herr: "shows_only S (safeWebhookError (Some x))" if "herr = Some x" for x
  proof -
    have "fst ` set (fst (map_range (wh_Headers ?t) w)) \<subseteq> S" using t(4) by simp
    then show ?thesis using h that headers_showable safe_shown by (auto simp: wh_validateHeaders_def split_beta)
  qed
  have render: "shows_only S (safeWebhookError (Some x))" if "wh_Render lib nil_any (Some ?t) p = Inl x" for x
    using render_showable[OF t(6) that] safe_shown by blast
  have endpoint: "shows_only S (safeWebhookError (Some x))" if "validateEndpoint lib m u = Some x" for m u x
    using endpoint_shown[OF new that] .
  have post: "shows_only S e1 \<and> s \<in> S \<and> logs_within S w w2"
    if run: "wh_post lib ?t ctx body w1 = ((s, c, b, ra, e1), w2)" for s c b ra e1 w2 body
    using post_within[OF assms(1) t(1,5,2,3) run] logs_within_cong[OF lw1] by blast
  show ?thesis
    using assms(3) h lw1 herr render endpoint post
    by (auto simp: wh_SendResult_def Let_def logs_within_refl zero_result_def known
        split: sum.splits option.splits prod.splits)
qed

end

end
