(* ===== verification/Send_Secrets.thy ===== *)
theory Send_Secrets
  imports Receivers Webhook_Secrets
begin

text \<open>
  What is logged and returned by a whole send: if the targets of a send show public strings only,
  then so do the retry loop, the delivery engine, the routing and \<open>Send\<close> itself, which add
  the names and IDs of receivers and notifications, numbers, and their own texts.
\<close>

section \<open>Contexts and targets that show public strings only\<close>

definition discreet_context :: "string set \<Rightarrow> go_context \<Rightarrow> bool" where
  "discreet_context S ctx \<longleftrightarrow> (case cancel_at ctx of None \<Rightarrow> True | Some (t, e) \<Rightarrow> shown e \<subseteq> S)"

definition discreet_call :: "string set \<Rightarrow> 'x send_call \<Rightarrow> bool" where
  "discreet_call S fn \<longleftrightarrow>
     (\<forall>w r e w'. fn w = ((r, e), w') \<longrightarrow> shows_only S e \<and> Status r \<in> S \<and> logs_within S w w')"

definition discreet_target :: "string set \<Rightarrow> ('v, 'x) target \<Rightarrow> bool" where
  "discreet_target S t \<longleftrightarrow> Type t \<in> S \<and> (\<forall>ctx p. discreet_call S (Send t ctx p))"

definition discreet_receiver :: "string set \<Rightarrow> ('v, 'x) receiver \<Rightarrow> bool" where
  "discreet_receiver S r \<longleftrightarrow> id_string (ID r) \<in> S \<and> Name r \<in> S \<and>
     (\<forall>t. Some t \<in> set (Targets r) \<longrightarrow> discreet_target S t)"

text \<open>The ID of a notification and the receivers it names.\<close>

definition public_notification :: "string set \<Rightarrow> 'v notification \<Rightarrow> bool" where
  "public_notification S n \<longleftrightarrow> NotificationID n \<in> S \<and> id_string ` set (receiverIDs n) \<subseteq> S"

lemma discreet_ctx_Err: "discreet_context S ctx \<Longrightarrow> shows_only S (ctx_Err ctx w)"
  by (auto simp: discreet_context_def ctx_Err_def split: option.splits)

lemma waitForRetry_discreet:
  "discreet_context S ctx \<Longrightarrow> waitForRetry ctx d w = (e, w') \<Longrightarrow> shows_only S e \<and> logs w' = logs w"
  by (auto simp: waitForRetry_def discreet_context_def Let_def draw_def split: option.splits if_splits prod.splits list.splits)

context public_strings
begin

lemma before_attempt_discreet:
  assumes "discreet_context S ctx" and "logger_within S lg" and "before_attempt ctx lg cfg a r w = (e, w')"
  shows "shows_only S e \<and> logs_within S w w'"
proof (cases "0 < a")
  case True
  obtain wait w1 where d: "retryDelay cfg a r w = (wait, w1)" by fastforce
  have l1: "logs w1 = logs w"
    using d retryBackoff_frame(2)[of cfg a w] by (simp add: retryDelay_def split_beta)
  let ?w2 = "log_to lg LevelDebug ''notification target retry'' [(''attempt'', AInt (a + 1)), (''backoff'', ADur wait)] w1"
  have l2: "logs_within S w ?w2"
    by (rule logs_within_log[OF assms(2) _ _ logs_within_refl[OF l1]]) (simp_all add: known)
  show ?thesis
  proof (cases "0 < wait")
    case True
    then have "waitForRetry ctx wait ?w2 = (e, w')" using assms(3) \<open>0 < a\<close> d by (simp add: before_attempt_def)
    then have "shows_only S e" "logs w' = logs ?w2" using waitForRetry_discreet[OF assms(1)] by blast+
    then show ?thesis using logs_within_trans[OF l2 logs_within_refl] by blast
  next
    case False
    then show ?thesis using assms(3) \<open>0 < a\<close> d l2 by (simp add: before_attempt_def)
  qed
next
  case False
  then show ?thesis using assms(3) by (simp add: before_attempt_def)
qed

section \<open>The retry loop\<close>

lemma retry_loop_discreet:
  assumes "discreet_context S ctx" and "logger_within S lg" and "discreet_call S fn"
    and "shows_only S lastErr" and "Status lastResult \<in> S"
    and "retry_loop ctx lg cfg fn mx n a lastResult lastErr x w = ((r, k, e), w')"
  shows "shows_only S e \<and> Status r \<in> S \<and> logs_within S w w'"
  using assms(4-6)
proof (induction n arbitrary: a lastResult lastErr x w)
  case 0
  then show ?case by simp
next
  case (Suc n)
  obtain e0 w1 where b: "before_attempt ctx lg cfg a lastResult w = (e0, w1)" by fastforce
  note b' = before_attempt_discreet[OF assms(1,2) b]
  show ?case
  proof (cases "e0 \<noteq> None \<or> ctx_Err ctx w1 \<noteq> None")
    case True
    then show ?thesis
      using Suc.prems(2,3) b b' discreet_ctx_Err[OF assms(1), of w1]
      by (cases e0; cases "ctx_Err ctx w1") auto
  next
    case False
    let ?w2 = "log_to lg LevelDebug ''notification target attempt'' [(''attempt'', AInt (a + 1)), (''maxAttempts'', AInt mx)] w1"
    obtain r3 e3 w3 where f: "fn ?w2 = ((r3, e3), w3)" by (metis surj_pair)
    have l2: "logs_within S w ?w2" using b' by (intro logs_within_log[OF assms(2)]) (simp_all add: known)
    have e3: "shows_only S e3" "Status r3 \<in> S" and "logs_within S ?w2 w3"
      using assms(3) f unfolding discreet_call_def by blast+
    then have l3: "logs_within S w w3" using logs_within_trans[OF l2] by blast
    show ?thesis
    proof (cases "e3 = None \<or> ctx_Err ctx w3 \<noteq> None \<or> mx \<le> x + 1 \<or> (case Policy cfg of None \<Rightarrow> True | Some p \<Rightarrow> \<not> p r3 e3)")
      case True
      then show ?thesis
        using Suc.prems(3) b False f e3 l3
        by (auto simp: Let_def discreet_ctx_Err[OF assms(1)] split: if_splits)
    next
      case go_on: False
      then have "retry_loop ctx lg cfg fn mx n (a + 1) r3 e3 (x + 1) w3 = ((r, k, e), w')"
        using Suc.prems(3) b False f by (auto simp: Let_def split: if_splits)
      then show ?thesis using Suc.IH[OF e3] logs_within_trans[OF l3] by blast
    qed
  qed
qed

lemma withRetry_discreet:
  assumes "discreet_context S ctx" and "logger_within S lg" and "discreet_call S fn"
    and "withRetry ctx lg cfg fn w = ((r, k, e), w')"
  shows "shows_only S e \<and> Status r \<in> S \<and> logs_within S w w'"
  by (rule retry_loop_discreet[OF assms(1-3) _ _ assms(4)[unfolded withRetry_def]]) (simp_all add: zero_result_def known)

section \<open>The delivery engine\<close>

lemma send_target_discreet:
  assumes "discreet_context S ctx" and "logger_within S lg" and "discreet_target S t"
    and "Name receiver \<in> S" and "Payload_ID p \<in> S"
    and "send_target ctx lg receiver p i t w = ((r, k, e), w')"
  shows "shows_only S e \<and> logs_within S w w'"
proof -
  let ?tl = "target_logger lg receiver t p i"
  have tl: "logger_within S ?tl"
    unfolding target_logger_def using assms(2-5)
    by (intro logger_within_With) (simp_all add: known discreet_target_def)
  obtain r1 k1 e1 w1 where run:
    "withRetry ctx ?tl (Retry receiver) (Send t ctx (target_payload receiver p)) w = ((r1, k1, e1), w1)"
    by (metis surj_pair)
  have "discreet_call S (Send t ctx (target_payload receiver p))" using assms(3) by (simp add: discreet_target_def)
  then have "shows_only S e1 \<and> Status r1 \<in> S \<and> logs_within S w w1" using withRetry_discreet[OF assms(1) tl _ run] by blast
  then show ?thesis
    using assms(6) run tl
    by (auto simp: send_target_def Let_def known intro!: logs_within_log split: option.splits)
qed

lemma dispatch_targets_discreet:
  assumes "discreet_context S ctx" and "logger_within S lg" and "Payload_ID p \<in> S"
    and "id_string (ID receiver) \<in> S" and "Name receiver \<in> S"
    and "\<forall>t. Some t \<in> set ts \<longrightarrow> discreet_target S t" and "list_all (\<lambda>e. shown e \<subseteq> S) errs"
    and "dispatch_targets ctx lg receiver p i ts errs w = Some (es, w')"
  shows "list_all (\<lambda>e. shown e \<subseteq> S) es \<and> logs_within S w w'"
  using assms(6-8)
proof (induction ts arbitrary: i errs w)
  case Nil
  then show ?case by simp
next
  case (Cons ot ts)
  then obtain t where t: "ot = Some t" by (cases ot) simp_all
  obtain r k e w1 where s: "send_target ctx lg receiver p i t w = ((r, k, e), w1)" by (metis surj_pair)
  have dt: "discreet_target S t" using Cons.prems(1) t by simp
  note out = send_target_discreet[OF assms(1,2) dt assms(5,3) s]
  obtain errs' where errs': "list_all (\<lambda>e. shown e \<subseteq> S) errs'"
      "dispatch_targets ctx lg receiver p (Suc i) ts errs' w1 = Some (es, w')"
  proof (cases e)
    case None
    then show ?thesis using that[of errs] Cons.prems t s by simp
  next
    case (Some x)
    then show ?thesis
      using that[of "errs @ [DeliveryError (ID receiver) (Type t) (int i) k r x]"] Cons.prems t s out dt assms(4)
      by (simp add: known discreet_target_def)
  qed
  then have "list_all (\<lambda>e. shown e \<subseteq> S) es \<and> logs_within S w1 w'" using Cons.IH[OF _ errs'] Cons.prems(1) by simp
  then show ?case using out logs_within_trans by blast
qed

lemma dispatch_receivers_discreet:
  assumes "discreet_context S ctx" and "logger_within S lg" and "Payload_ID p \<in> S"
    and "\<forall>r \<in> set rs. discreet_receiver S r" and "list_all (\<lambda>e. shown e \<subseteq> S) errs"
    and "dispatch_receivers ctx lg p rs errs w = Some (es, w')"
  shows "list_all (\<lambda>e. shown e \<subseteq> S) es \<and> logs_within S w w'"
  using assms(4-6)
proof (induction rs arbitrary: errs w)
  case Nil
  then show ?case by simp
next
  case (Cons r rs)
  obtain e w1 where d: "dispatchReceiver ctx lg r p w = Some (e, w1)"
    using Cons.prems(3) by (cases "dispatchReceiver ctx lg r p w") auto
  then obtain es0 where es0: "dispatch_targets ctx lg r p 0 (Targets r) [] w = Some (es0, w1)" "e = errors_Join es0"
    by (auto simp: dispatchReceiver_def split: option.splits)
  have "list_all (\<lambda>e. shown e \<subseteq> S) es0 \<and> logs_within S w w1"
    using dispatch_targets_discreet[OF assms(1-3) _ _ _ _ es0(1)] Cons.prems(1) by (simp add: discreet_receiver_def)
  then have out: "shows_only S e" "logs_within S w w1" using es0(2) shows_only_Join by blast+
  obtain errs' where errs': "list_all (\<lambda>e. shown e \<subseteq> S) errs'" "dispatch_receivers ctx lg p rs errs' w1 = Some (es, w')"
  proof (cases e)
    case None
    then show ?thesis using that[of errs] Cons.prems d by simp
  next
    case (Some x)
    then show ?thesis using that[of "errs @ [x]"] Cons.prems d out(1) by simp
  qed
  then have "list_all (\<lambda>e. shown e \<subseteq> S) es \<and> logs_within S w1 w'" using Cons.IH[OF _ errs'] Cons.prems(1) by simp
  then show ?case using out(2) logs_within_trans by blast
qed

lemma dispatch_discreet:
  assumes "discreet_context S ctx" and "logger_within S lg" and "Payload_ID p \<in> S"
    and "\<forall>r \<in> set rs. discreet_receiver S r" and "dispatch ctx lg p rs w = Some (e, w')"
  shows "shows_only S e \<and> logs_within S w w'"
proof -
  obtain es where "dispatch_receivers ctx lg p rs [] w = Some (es, w')" "e = errors_Join es"
    using assms(5) by (auto simp: dispatch_def split: option.splits)
  then show ?thesis using dispatch_receivers_discreet[OF assms(1-4), of "[]"] shows_only_Join by simp
qed

section \<open>Routing and \<open>Send\<close>\<close>

lemma resolve_ids_logs:
  "logger_within S lg \<Longrightarrow> id_string ` set ids \<subseteq> S \<Longrightarrow> resolve_ids lg rs ids seen out w = (rs', w') \<Longrightarrow>
   logs_within S w w'"
proof (induction ids arbitrary: seen out w)
  case Nil
  then show ?case by simp
next
  case (Cons rid ids)
  have l: "logs_within S w (log_to lg LevelWarn ''receiver not found'' [(''receiverID'', AStr (id_string rid))] w)"
    by (rule logs_within_log[OF Cons.prems(1)]) (use Cons.prems(2) in \<open>simp_all add: known\<close>)
  show ?case
    using Cons.prems Cons.IH logs_within_trans[OF l] by (auto split: if_splits option.splits)
qed

lemma resolveReceivers_logs:
  "logger_within S lg \<Longrightarrow> id_string ` set ids \<subseteq> S \<Longrightarrow> resolveReceivers lg rs ids w = (rs', w') \<Longrightarrow> logs_within S w w'"
  by (auto simp: resolveReceivers_def split_beta map_range_def logs_within_refl split: if_splits dest: resolve_ids_logs)

lemma validate_entries_shown:
  "validate_entries es = Some e \<Longrightarrow> id_string ` fst ` set es \<subseteq> S \<Longrightarrow> shown e \<subseteq> S"
  by (induction es rule: validate_entries.induct) (auto simp: known split: if_splits)

lemma SendSync_discreet:
  assumes "discreet_context S ctx" and "case lg of None \<Rightarrow> True | Some l \<Rightarrow> logger_within S l"
    and "case n of None \<Rightarrow> True | Some n0 \<Rightarrow> public_notification S n0"
    and "\<forall>(rid, r) \<in> set (normalizeReceivers receivers). id_string rid \<in> S \<and> discreet_receiver S r"
    and "SendSync (Some ctx) n receivers lg w = Some (e, w')"
  shows "shows_only S e \<and> logs_within S w w'"
proof (cases "\<exists>n0. n = Some n0 \<and> NotificationID n0 \<noteq> []")
  case False
  then show ?thesis
    using assms(5) by (auto simp: SendSync_def validateNotificationID_def known split: option.splits if_splits)
next
  case True
  then obtain n0 where n0: "n = Some n0" "NotificationID n0 \<noteq> []" by blast
  let ?lg = "case lg of None \<Rightarrow> Discard | Some l \<Rightarrow> l" and ?rs = "normalizeReceivers receivers"
  let ?p = "\<lparr>Notification = Some n0, PayloadReceiver = [], PayloadCustomData = None\<rparr>"
  have lg: "logger_within S ?lg" using assms(2) by (cases lg) simp_all
  have ids: "id_string ` set (receiverIDs n0) \<subseteq> S" and p: "Payload_ID ?p \<in> S"
    using assms(3) n0 by (simp_all add: public_notification_def Payload_ID_def)
  obtain verr w1 where v: "validateReceivers ?rs w = (verr, w1)" by fastforce
  have w1: "logs w1 = logs w" using v by (auto simp: validateReceivers_def map_range_def)
  show ?thesis
  proof (cases verr)
    case (Some x)
    have "id_string ` fst ` set (fst (map_range ?rs w)) \<subseteq> S" using assms(4) by auto
    then have "shown x \<subseteq> S"
      using v Some validate_entries_shown[of "fst (map_range ?rs w)" x] by (auto simp: validateReceivers_def split_beta)
    then show ?thesis
      using assms(5) n0 v Some w1 by (auto simp: SendSync_def validateNotificationID_def Let_def logs_within_refl)
  next
    case None
    obtain resolved w2 where r: "resolveReceivers ?lg ?rs (receiverIDs n0) w1 = (resolved, w2)" by fastforce
    have l2: "logs_within S w w2"
      using resolveReceivers_logs[OF lg ids r] logs_within_cong[OF w1] by blast
    have "\<forall>r \<in> set resolved. discreet_receiver S r"
      using resolveReceivers_set[of _ ?lg ?rs "receiverIDs n0" w1] assms(4) r by fastforce
    note d = dispatch_discreet[OF assms(1) lg p this]
    show ?thesis
      using assms(5) n0 v None r l2 d logs_within_trans[OF l2]
      by (auto simp: SendSync_def validateNotificationID_def Let_def known split: if_splits)
  qed
qed

section \<open>Webhook targets\<close>

lemma webhook_discreet:
  assumes "public_http S lib" and "public_webhook S t"
  shows "discreet_target S (webhook_target lib nil_any (Some t))"
  using SendResult_within[OF assms]
  by (simp add: discreet_target_def discreet_call_def webhook_target_def known)

end

end
