(* ===== verification/Manager_Secrets.thy ===== *)
theory Manager_Secrets
  imports Manager_Shutdown Send_Secrets
begin

text \<open>
  What the completions of a manager may show: an error they carry is the outcome of a
  delivery by some worker, in the context and state the worker had, or \<open>ErrManagerStopped\<close>.
  If the targets and the admitted notifications show public strings only, so do the completions
  and what the workers log.
\<close>

section \<open>One delivery\<close>

definition discreet_dispatcher :: "string set \<Rightarrow> ('v, 'x) dispatcher \<Rightarrow> bool" where
  "discreet_dispatcher S d \<longleftrightarrow> logger_within S (d_logger d) \<and> (\<forall>(rid, r) \<in> set (d_receivers d). discreet_receiver S r)"

context public_strings
begin

lemma deliver_outcome_discreet:
  assumes "discreet_dispatcher S d" and "discreet_context S ctx" and "public_notification S n"
    and "deliver_outcome d ctx q n w = Some (err, w')"
  shows "shows_only S err \<and> logs_within S w w'"
proof -
  let ?p = "\<lparr>Notification = Some n, PayloadReceiver = [], PayloadCustomData = None\<rparr>"
  have lg: "logger_within S (d_logger d)" using assms(1) by (simp add: discreet_dispatcher_def)
  have n: "NotificationID n \<in> S" "id_string ` set (receiverIDs n) \<subseteq> S" "Payload_ID ?p \<in> S"
    using assms(3) by (simp_all add: public_notification_def Payload_ID_def)
  obtain rs w1 where r: "resolveReceivers (d_logger d) (d_receivers d) (receiverIDs n) w = (rs, w1)" by force
  have l1: "logs_within S w w1" using resolveReceivers_logs[OF lg n(2) r] .
  have "\<forall>r \<in> set rs. discreet_receiver S r"
    using resolveReceivers_set[of _ "d_logger d" "d_receivers d" "receiverIDs n" w] assms(1) r
    by (fastforce simp: discreet_dispatcher_def)
  note d = dispatch_discreet[OF assms(2) lg n(3) this]
  show ?thesis
  proof (cases "rs = []")
    case True
    then show ?thesis
      using assms(4) r n(1) logs_within_log[OF lg _ _ l1] by (auto simp: deliver_outcome_def Let_def known)
  next
    case False
    obtain e w2 where run: "dispatch ctx (d_logger d) ?p rs w1 = Some (e, w2)"
      using assms(4) r False by (auto simp: deliver_outcome_def Let_def split: option.splits)
    have "shows_only S e" and "logs_within S w w2" using d[OF run] logs_within_trans[OF l1] by blast+
    then show ?thesis
      using assms(4) r False run n(1)
      by (cases e) (auto simp: deliver_outcome_def Let_def known intro!: logs_within_log[OF lg])
  qed
qed

end

section \<open>Where the outcome of a completion comes from\<close>

lemma outcome_origin:
  assumes "mstep d ev m = Some m'" and "WComplete q n err \<in> set (workers m')"
  shows "WComplete q n err \<in> set (workers m) \<or>
    (\<exists>ctx w i w'. ev = EvWorker ctx w i \<and> deliver_outcome d ctx q n w = Some (err, w'))"
proof (cases ev)
  case (EvWorker ctx w i)
  then show ?thesis using assms
    by (auto simp: worker_step_def set_worker_def chan_recv_def
        split: option.splits worker.splits list.splits if_splits dest!: in_update)
next
  case (EvFinish j)
  then show ?thesis using assms
    by (auto simp: finisher_step_def set_finisher_def stop_def chan_recv_def
        split: option.splits finisher.splits list.splits if_splits)
next
  case (EvCaller k)
  then show ?thesis using assms
    by (auto simp: caller_step_def set_caller_def stop_def split: option.splits caller.splits if_splits)
next
  case (EvCallerCtx k e)
  then show ?thesis using assms by (auto simp: caller_ctx_done_def set_caller_def split: option.splits caller.splits)
next
  case (EvShutdown b)
  then show ?thesis using assms by (auto simp: Shutdown_call_def split: option.splits)
next
  case (EvWait b)
  then show ?thesis using assms by (auto simp: Wait_call_def split: option.splits)
qed (use assms in \<open>auto simp: Enqueue_call_def Enqueue_cancel_def Enqueue_slot_def Enqueue_stopping_def
    Enqueue_ctx_done_def Enqueue_lock_def Enqueue_check_def Enqueue_reject_def Enqueue_send_def
    Start_def cancel_run_def run_after_func_def stop_def worker_ctx_done_def Manager.worker_recv_def
    set_producer_def set_worker_def chan_send_def chan_recv_def
    split: option.splits producer.splits worker.splits list.splits if_splits dest!: in_update\<close>)

lemma completion_origin:
  assumes "mtrans d m m'" and "(c, b) \<in> set (finished m')"
  shows "(c, b) \<in> set (finished m) \<or> Err c = Some ErrManagerStopped \<or>
    (\<exists>q n. WComplete q n (Err c) \<in> set (workers m))"
  using assms
proof (induction rule: mtrans.induct)
  case (worker_complete i m q n err)
  have "WComplete q n err \<in> set (workers m)" using worker_complete.hyps by (metis nth_mem)
  then show ?case using worker_complete.prems by (auto simp: set_worker_def complete_def Let_def)
qed (auto simp: set_defs complete_def Let_def)

text \<open>The contexts of the workers are the run context: they end with a public error.\<close>

fun discreet_event :: "string set \<Rightarrow> ('v, 'x) event \<Rightarrow> bool" where
  "discreet_event S (EvWorker ctx w i) = discreet_context S ctx"
| "discreet_event S _ = True"

definition public_admitted :: "string set \<Rightarrow> 'v manager \<Rightarrow> bool" where
  "public_admitted S m \<longleftrightarrow> (\<forall>(q, n) \<in> set (admitted m). public_notification S n)"

definition inv_discreet :: "string set \<Rightarrow> 'v manager \<Rightarrow> bool" where
  "inv_discreet S m \<longleftrightarrow> (\<forall>q n err. WComplete q n err \<in> set (workers m) \<longrightarrow> shows_only S err) \<and>
     (\<forall>(c, b) \<in> set (finished m). shows_only S (Err c))"

lemma worker_admitted:
  "inv_data d m \<Longrightarrow> WDeliver q n \<in> set (workers m) \<Longrightarrow> (q, n) \<in> set (admitted m)"
  unfolding inv_data_def by (metis w_data.simps(3))

lemma deliver_origin:
  assumes "mstep d (EvWorker ctx w i) m = Some m'" and "WComplete q n err \<in> set (workers m')"
  shows "WComplete q n err \<in> set (workers m) \<or>
    WDeliver q n \<in> set (workers m) \<and> (\<exists>w'. deliver_outcome d ctx q n w = Some (err, w'))"
  using assms
  by (auto simp: worker_step_def worker_at_def set_worker_def chan_recv_def
      split: option.splits worker.splits list.splits if_splits dest!: in_update) (metis nth_mem)+

context public_strings
begin

lemma reachable_discreet:
  assumes "reachable_by (discreet_event S) d cap m" and "discreet_dispatcher S d" and "valid_dispatcher d"
    and "public_admitted S m"
  shows "inv_discreet S m"
  using assms(1,4)
proof (induction rule: reachable_by.induct)
  case init
  then show ?case by (simp add: inv_discreet_def new_manager_def)
next
  case (step m ev m')
  have adm: "public_admitted S m"
    using step.prems admitted_grows[OF mstep_mtrans[OF step.hyps(3)]] by (auto simp: public_admitted_def)
  note IH = step.IH[OF adm]
  have "shows_only S err" if new: "WComplete q n err \<in> set (workers m')" for q n err
    using outcome_origin[OF step.hyps(3) new]
  proof
    assume "WComplete q n err \<in> set (workers m)"
    then show ?thesis using IH unfolding inv_discreet_def by blast
  next
    assume "\<exists>ctx w i w'. ev = EvWorker ctx w i \<and> deliver_outcome d ctx q n w = Some (err, w')"
    then obtain ctx w i where ev: "ev = EvWorker ctx w i" by blast
    then have ctx: "discreet_context S ctx" using step.hyps(2) by simp
    have "shows_only S err" if "WDeliver q n \<in> set (workers m)" "deliver_outcome d ctx q n w = Some (err, w')" for w'
    proof -
      have "(q, n) \<in> set (admitted m)"
        using worker_admitted[OF minvD(6)[OF reachable_minv[OF step.hyps(1) assms(3)]] that(1)] .
      then have "public_notification S n" using adm by (auto simp: public_admitted_def)
      then show ?thesis using deliver_outcome_discreet[OF assms(2) ctx _ that(2)] by blast
    qed
    moreover have "shows_only S err" if "WComplete q n err \<in> set (workers m)"
      using IH that unfolding inv_discreet_def by blast
    ultimately show ?thesis using deliver_origin[OF step.hyps(3)[unfolded ev] new] by blast
  qed
  moreover have "shows_only S (Err c)" if "(c, b) \<in> set (finished m')" for c b
    using completion_origin[OF mstep_mtrans[OF step.hyps(3)] that] IH known
    unfolding inv_discreet_def by fastforce
  ultimately show ?case unfolding inv_discreet_def by blast
qed

text \<open>So does what a worker logs while it delivers.\<close>

lemma delivery_logs:
  assumes "reachable_by (discreet_event S) d cap m" and "discreet_dispatcher S d" and "valid_dispatcher d"
    and "public_admitted S m" and "WDeliver q n \<in> set (workers m)" and "discreet_context S ctx"
    and "deliver_outcome d ctx q n w = Some (err, w')"
  shows "logs_within S w w'"
proof -
  have "(q, n) \<in> set (admitted m)"
    using worker_admitted[OF minvD(6)[OF reachable_minv[OF assms(1,3)]] assms(5)] .
  then have "public_notification S n" using assms(4) by (auto simp: public_admitted_def)
  then show ?thesis using deliver_outcome_discreet[OF assms(2,6) _ assms(7)] by blast
qed

end

end
