(* ===== verification/Target_Properties.thy ===== *)
theory Target_Properties
  imports Notify_Properties Webhook_Properties Email_Properties Tunnel Manager_Secrets Manager_Examples
begin

text \<open>
  Properties that join the targets with the rest: the retry loop on a target that is not
  ready, what a send and the completions of a manager show of a webhook, the proxy tunnel
  below the email target, the templates behind both.
\<close>

section \<open>The retry loop and the targets\<close>

text \<open>
  C27: with a live context and a policy of the library, \<open>AnyRetryPolicy\<close> included, a webhook or
  email target that is not ready is tried exactly once, however many retries are configured: the
  loop ends with a permanent error, without waiting and without any effect outside. A policy of
  the application's own may retry it.
\<close>

theorem misconfigured_target_once:
  assumes "(target = webhook_target wlib nil_any wt \<and> wh_ready wlib nil_any wt p = None) \<or>
      (target = email_target elib nil_any et \<and> em_ready (ParseAddress elib) nil_any et p = None)"
    and "ctx_Err ctx w = None" and "Policy cfg = Some pol" and "builtin_policy pol"
  shows "\<exists>r e w'. withRetry ctx lg cfg (Send target ctx p) w = ((r, 1, Some e), w') \<and> IsPermanent (Some e) \<and>
    now w' = now w \<and> world w' = world w"
  using assms(1)
proof
  assume "target = webhook_target wlib nil_any wt \<and> wh_ready wlib nil_any wt p = None"
  then show ?thesis
    using webhook.refused_once[of wlib nil_any wt p ctx w cfg pol lg] assms(2,3) builtin_safe[OF assms(4)]
    by (simp add: webhook_target_def)
next
  assume "target = email_target elib nil_any et \<and> em_ready (ParseAddress elib) nil_any et p = None"
  then show ?thesis
    using email.refused_once[of elib nil_any et p ctx w cfg pol lg] assms(2,3) builtin_safe[OF assms(4)]
    by (simp add: email_target_def)
qed

lemma misconfigured_target_once_witness:
  "\<exists>r e w'. withRetry Background Discard retry_demo (Send (webhook_target demo_http [] (Some zero_webhook)) Background demo_payload)
     demo_state = ((r, 1, Some e), w') \<and> world w' = ([] :: http_request list)"
proof -
  have "wh_ready demo_http [] (Some zero_webhook) demo_payload = None"
    by (simp add: wh_ready_def wh_Render_def wh_applyDefaults_def zero_webhook_def)
  then have "\<exists>r e w'. withRetry Background Discard retry_demo (Send (webhook_target demo_http [] (Some zero_webhook)) Background demo_payload)
      demo_state = ((r, 1, Some e), w') \<and> IsPermanent (Some e) \<and> now w' = now demo_state \<and> world w' = world demo_state"
    by (intro misconfigured_target_once[where wlib = demo_http and nil_any = "[]" and wt = "Some zero_webhook"
          and pol = DefaultRetryPolicy])
      (auto intro: builtin_policy.intros)
  then show ?thesis by (auto simp: demo_state_def)
qed

section \<open>Secrets of a whole send\<close>

text \<open>
  C28: whatever the error of a synchronous send to webhooks shows, and every message, key and
  value it logs through the targets, the retry loop, the delivery engine and the routing, is a
  text of the library, a duration, or public: the receivers' and the notification's names and
  IDs, the targets' names, the names of their headers, the status lines of the responses, the
  attributes of the loggers, and what the context's and the templates' errors say. The URL of a
  webhook, the values of its headers, the body sent and the response body are none of these:
  unless one happens to equal a public string it shows nowhere, however many receivers, targets
  and attempts there are. Targets that log response bodies are excluded; errors of \<open>net/http\<close>
  and of the templates that show anything else must be or wrap a \<open>*url.Error\<close>.
\<close>

theorem send_hides_secrets:
  assumes "public = library_strings \<union> S" and "public_http public lib" and "discreet_context public ctx"
    and "case lg of None \<Rightarrow> True | Some l \<Rightarrow> logger_within public l"
    and "case n of None \<Rightarrow> True | Some n0 \<Rightarrow> public_notification public n0"
    and "\<And>rid r. map_get receivers rid = Some (Some r) \<Longrightarrow> {id_string rid, id_string (ID r), Name r} \<subseteq> public \<and>
      (\<forall>ot \<in> set (Targets r). ot = None \<or> (\<exists>t. ot = Some (webhook_target lib nil_any (Some t)) \<and> public_webhook public t))"
    and "map_ok receivers" and "SendSync (Some ctx) n receivers lg w = Some (err, w')"
  shows "(case err of None \<Rightarrow> True | Some e \<Rightarrow> shown e \<subseteq> public) \<and> logs_within public w w'"
proof -
  have "id_string rid \<in> public \<and> discreet_receiver public r'" if entry: "(rid, r') \<in> set (normalizeReceivers receivers)" for rid r'
  proof -
    obtain r where "map_get receivers rid = Some (Some r)" "r' = normalize_receiver rid r"
      using entry map_get_iff[OF map_ok_normalizeReceivers, of receivers rid r']
      by (auto simp: map_get_normalizeReceivers[OF assms(7)] split: option.splits)
    then show ?thesis
      using assms(6)[of rid r] public.webhook_discreet[of S lib _ nil_any] assms(1,2)
      by (fastforce simp: discreet_receiver_def normalize_receiver_def cmp_Or_def)
  qed
  then have "shows_only public err \<and> logs_within public w w'"
    using public.SendSync_discreet[of S, folded assms(1), OF assms(3,4,5) _ assms(8)] by blast
  then show ?thesis by (simp add: shows_only_def)
qed

text \<open>
  The server of the test answers 503 with a body; the URL has a secret in its path, a header
  carries a key.
\<close>

definition secret_receiver :: "(string, http_request list) receiver" where
  "secret_receiver = NewReceiver (ReceiverID ''ops'') [Some (webhook_target demo_http [] (Some demo_webhook))]"

definition secret_receivers :: "(string, http_request list) receivers" where
  "secret_receivers = [(ReceiverID ''ops'', Some secret_receiver)]"

definition demo_public :: "string set" where
  "demo_public = library_strings \<union> {''ops'', ''n1'', ''x-key'', ''503 Service Unavailable''}"

lemma last_Duration: "Duration_String d \<noteq> [] \<and> last (Duration_String d) = CHR ''s''"
  by (auto simp: Duration_String_def Let_def)

lemma demo_secrets: "''busy'' \<notin> demo_public" "''https://example.org/secret'' \<notin> demo_public" "''k'' \<notin> demo_public"
    "''to T'' \<notin> demo_public"
proof -
  have "s \<notin> range rounded_string" if "last s \<noteq> CHR ''s''" for s
    using that last_Duration by (auto simp: rounded_string_def)
  from this[of "''busy''"] this[of "''https://example.org/secret''"] this[of "''k''"] this[of "''to T''"]
  show "''busy'' \<notin> demo_public" "''https://example.org/secret'' \<notin> demo_public" "''k'' \<notin> demo_public"
    "''to T'' \<notin> demo_public"
    by (simp_all add: demo_public_def library_strings_def library_texts_def)
qed

lemma demo_always_ready: "\<exists>body. wh_ready demo_http [] (Some demo_webhook) p = Some body"
  by (simp add: wh_ready_def wh_applyDefaults_def wh_Render_def wh_valid_url_def valid_headers_def
      ValidFieldName_bytes ValidFieldNameChar_def ContainsNewline_iff ToLower_is_def lower_rune_def
      execute_template_def zero_webhook_def demo_webhook_def demo_http_def)

lemma demo_failed:
  "\<exists>r e w'. wh_SendResult demo_http [] (Some demo_webhook) (Some Background) p w = ((r, Some e), w')"
proof -
  let ?t = "wh_applyDefaults demo_webhook"
  obtain body where ready: "wh_ready demo_http [] (Some demo_webhook) p = Some body" using demo_always_ready by blast
  obtain w1 where run: "wh_SendResult demo_http [] (Some demo_webhook) (Some Background) p w =
      (let ((status, code, response, retryAfter, err), w2) = wh_post demo_http ?t Background body w1
       in ((\<lparr>Status = status, StatusCode = code,
             Response = truncateBody response (wh_ResponseBodyLimit ?t), RetryAfter = retryAfter\<rparr>, err), w2))"
    using wh_SendResult_ready[OF ready, of w Background] by (auto simp: Let_def)
  obtain u where u: "NewRequest demo_http (wh_Method ?t) (wh_URL ?t) = Inr u" using wh_ready_NewRequest[OF ready] by blast
  obtain req w2 where req: "wh_request ?t body w1 = (req, w2)" by fastforce
  obtain w3 where do: "Do demo_http (the (wh_Client ?t)) Background req w2 = (Inr demo_response, w3)"
    by (simp add: demo_http_def)
  obtain s c b ra e v where recv: "wh_receive demo_http ?t demo_response (now w3 - now w1) w3 = ((s, c, b, ra, e), v)"
    by (metis surj_pair)
  then have "e \<noteq> None"
    using wh_receive_outcome[OF recv] by (simp add: demo_limit demo_read) (simp add: demo_response_def)
  then show ?thesis using run recv unfolding wh_post_simp[OF u req do] by auto
qed

lemma secret_sel: "Name secret_receiver = ''ops''" "ID secret_receiver = ReceiverID ''ops''" "Retry secret_receiver = zero_retry"
    "Targets secret_receiver = [Some (webhook_target demo_http [] (Some demo_webhook))]" "CustomData secret_receiver = None"
  by (simp_all add: secret_receiver_def NewReceiver_def)

lemma secret_normalized: "normalizeReceivers secret_receivers = [(ReceiverID ''ops'', secret_receiver)]"
  by (simp add: secret_receivers_def normalizeReceivers_def normalize_receiver_def secret_receiver_def NewReceiver_def map_set_def)

lemma secret_dispatch: "\<exists>e w'. dispatch Background lg p [secret_receiver] w = Some (Some e, w')"
proof -
  let ?tl = "target_logger lg secret_receiver (webhook_target demo_http [] (Some demo_webhook)) p 0"
  let ?send = "wh_SendResult demo_http [] (Some demo_webhook) (Some Background) (target_payload secret_receiver p)"
  obtain r e w1 where "?send (first_state ?tl zero_retry w) = ((r, Some e), w1)" using demo_failed by blast
  then have "withRetry Background ?tl zero_retry ?send w = ((r, 1, Some e), w1)"
    using withRetry_stops_at_first[of Background w ?send ?tl zero_retry r "Some e" w1] by (simp add: gives_up_def zero_retry_def)
  then show ?thesis
    by (simp add: dispatch_def dispatchReceiver_def send_target_def secret_sel Let_def) (simp add: webhook_target_def)
qed

lemma demo_public_http: "public_http demo_public demo_http"
  by (auto simp: public_http_def demo_http_def showable_def errors_As_def demo_response_def demo_public_def split: if_splits)

lemma demo_public_webhook: "public_webhook demo_public demo_webhook"
  by (auto simp: public_webhook_def demo_webhook_def zero_webhook_def execute_template_def demo_public_def
      library_strings_def library_texts_def LogResponseBody_def LogResponseFull_def)

lemma demo_public_notification: "NotificationID n = ''n1'' \<Longrightarrow> receiverIDs n = [] \<Longrightarrow> public_notification demo_public n"
  by (simp add: public_notification_def demo_public_def)

lemma send_hides_secrets_witness:
  "\<exists>e w'. SendSync (Some Background) (Notification demo_payload) secret_receivers (Some (Logger [])) demo_state = Some (Some e, w') \<and>
     {''https://example.org/secret'', ''k'', ''to T'', ''busy''} \<inter> (shown e \<union> demo_public) = {} \<and> logs_within demo_public demo_state w'"
proof -
  obtain n where n: "Notification demo_payload = Some n" "NotificationID n = ''n1''" "receiverIDs n = []"
    by (simp add: demo_payload_def receiverIDs_def)
  have range: "map_range [(ReceiverID ''ops'', secret_receiver)] demo_state = ([(ReceiverID ''ops'', secret_receiver)], demo_state)"
    by (simp add: map_range_def demo_state_def)
  obtain e w' where run: "SendSync (Some Background) (Notification demo_payload) secret_receivers (Some (Logger [])) demo_state
      = Some (Some e, w')"
    using secret_dispatch[of "Logger []" "\<lparr>Notification = Some n, PayloadReceiver = [], PayloadCustomData = None\<rparr>" demo_state]
    by (auto simp: SendSync_def n validateNotificationID_def secret_normalized validateReceivers_def resolveReceivers_def
        range secret_sel)
  have "(case Some e of None \<Rightarrow> True | Some e \<Rightarrow> shown e \<subseteq> demo_public) \<and> logs_within demo_public demo_state w'"
  proof (rule send_hides_secrets[OF demo_public_def demo_public_http _ _ _ _ _ run])
    fix rid r
    assume "map_get secret_receivers rid = Some (Some r)"
    then have "rid = ReceiverID ''ops''" "r = secret_receiver" by (auto simp: secret_receivers_def split: if_splits)
    then show "{id_string rid, id_string (ID r), Name r} \<subseteq> demo_public \<and>
        (\<forall>ot \<in> set (Targets r). ot = None \<or> (\<exists>t. ot = Some (webhook_target demo_http [] (Some t)) \<and> public_webhook demo_public t))"
      using demo_public_webhook by (auto simp: secret_sel) (auto simp: demo_public_def)
  qed (use demo_public_notification[OF n(2,3)] in \<open>simp_all add: n(1) discreet_context_def Background_def secret_receivers_def map_ok_def\<close>)
  then show ?thesis using run demo_secrets by auto
qed

text \<open>
  C29: the same holds for the manager, in any interleaving: the error of a completion callback
  shows only texts of the library, durations and public strings, and so does everything a worker
  logs while it delivers. What is public is as for \<open>Send\<close>, for the receivers of the manager and
  the notifications it has admitted.
\<close>

theorem callbacks_hide_secrets:
  assumes "public = library_strings \<union> S" and "public_http public lib" and "logger_within public (d_logger d)"
    and "\<And>rid r. (rid, r) \<in> set (d_receivers d) \<Longrightarrow> {id_string (ID r), Name r} \<subseteq> public \<and>
      (\<forall>ot \<in> set (Targets r). ot = None \<or> (\<exists>t. ot = Some (webhook_target lib nil_any (Some t)) \<and> public_webhook public t))"
    and "reachable_by (discreet_event public) d cap m" and "valid_dispatcher d"
    and "\<And>q n. (q, n) \<in> set (admitted m) \<Longrightarrow> public_notification public n"
  shows "(\<forall>c e. c \<in> set (callbacks m) \<and> Err c = Some e \<longrightarrow> shown e \<subseteq> public) \<and>
    (\<forall>q n ctx w err w'. WDeliver q n \<in> set (workers m) \<and> discreet_context public ctx \<and>
       deliver_outcome d ctx q n w = Some (err, w') \<longrightarrow> logs_within public w w')"
proof -
  have "discreet_receiver public r" if "(rid, r) \<in> set (d_receivers d)" for rid r
    using assms(4)[OF that] public.webhook_discreet[of S lib _ nil_any] assms(1,2) by (fastforce simp: discreet_receiver_def)
  then have d: "discreet_dispatcher public d" using assms(3) by (auto simp: discreet_dispatcher_def)
  have adm: "public_admitted public m" using assms(7) by (auto simp: public_admitted_def)
  have "\<forall>(c, b) \<in> set (finished m). shows_only public (Err c)"
    using public.reachable_discreet[of S, folded assms(1), OF assms(5) d assms(6) adm] by (simp add: inv_discreet_def)
  moreover have "\<exists>b. (c, b) \<in> set (finished m)" if "c \<in> set (callbacks m)" for c
    using minvD(6)[OF reachable_minv[OF assms(5,6)]] that by (auto simp: inv_data_def split: if_splits)
  ultimately have "\<forall>c e. c \<in> set (callbacks m) \<and> Err c = Some e \<longrightarrow> shown e \<subseteq> public"
    by (fastforce simp: shows_only_def)
  then show ?thesis
    using public.delivery_logs[of S, folded assms(1), OF assms(5) d assms(6) adm] by blast
qed

definition secret_dispatcher :: "(string, http_request list) dispatcher" where
  "secret_dispatcher = newDispatcher (normalizeReceivers secret_receivers) (Logger []) 1 True"

fun at_deliver :: "'v worker \<Rightarrow> bool" where
  "at_deliver (WDeliver _ _) = True" | "at_deliver _ = False"

definition secret_events :: "(string, http_request list) event list" where
  "secret_events = [EvEnqueue (Some None) (Notification demo_payload), EvSlot 0, EvLock 0, EvCheck 0, EvSend 0,
     EvStart (Some None), EvWorkerRecv 0] @ replicate 3 (EvWorker Background demo_state 0)"

lemma run_secret:
  "map_option (\<lambda>m. (map at_deliver (workers m), map (\<lambda>(q, n). (NotificationID n, receiverIDs n)) (admitted m)))
     (mrun secret_dispatcher secret_events (new_manager 1)) = Some ([True], [(''n1'', [])])"
  by code_simp

lemma secret_valid: "valid_dispatcher secret_dispatcher"
  by (simp add: secret_dispatcher_def secret_normalized valid_dispatcher_def newDispatcher_def valid_receiver_def secret_sel map_ok_def)

lemma secret_outcome:
  assumes "receiverIDs n = []"
  shows "\<exists>e w'. deliver_outcome secret_dispatcher Background q n demo_state = Some (Some e, w')"
proof -
  have "map_range [(ReceiverID ''ops'', secret_receiver)] demo_state = ([(ReceiverID ''ops'', secret_receiver)], demo_state)"
    by (simp add: map_range_def demo_state_def)
  moreover obtain e w' where "dispatch Background (Logger []) \<lparr>Notification = Some n, PayloadReceiver = [], PayloadCustomData = None\<rparr>
      [secret_receiver] demo_state = Some (Some e, w')"
    using secret_dispatch by blast
  ultimately show ?thesis
    by (simp add: deliver_outcome_def secret_dispatcher_def newDispatcher_def secret_normalized resolveReceivers_def assms Let_def)
qed

lemma callbacks_hide_secrets_witness:
  "\<exists>m c e. reachable_by (discreet_event demo_public) secret_dispatcher 1 m \<and> c \<in> set (callbacks m) \<and> Err c = Some e \<and>
     {''https://example.org/secret'', ''k'', ''to T'', ''busy''} \<inter> shown e = {}"
proof -
  obtain m where m: "mrun secret_dispatcher secret_events (new_manager 1) = Some m" "map at_deliver (workers m) = [True]"
      "map (\<lambda>(q, n). (NotificationID n, receiverIDs n)) (admitted m) = [(''n1'', [])]"
    using run_secret by (auto simp: map_option_case split: option.splits)
  have r: "reachable_by (discreet_event demo_public) secret_dispatcher 1 m"
    using reachable_by_run[OF reachable_by.init _ m(1)]
    by (simp add: secret_events_def list_all_iff discreet_context_def Background_def)
  obtain p where p: "workers m = [p]" "at_deliver p" using m(2) by (auto simp: map_eq_Cons_conv)
  then obtain q n where q: "workers m = [WDeliver q n]" by (cases p) auto
  then have adm: "(q, n) \<in> set (admitted m)"
    using worker_admitted[OF minvD(6)[OF reachable_minv[OF r secret_valid]]] by simp
  have named: "NotificationID n' = ''n1'' \<and> receiverIDs n' = []" if "(q', n') \<in> set (admitted m)" for q' n'
  proof -
    have "(NotificationID n', receiverIDs n') \<in> set (map (\<lambda>(q, n). (NotificationID n, receiverIDs n)) (admitted m))"
      using that by force
    then show ?thesis using m(3) by simp
  qed
  obtain e w' where "deliver_outcome secret_dispatcher Background q n demo_state = Some (Some e, w')"
    using secret_outcome named[OF adm] by blast
  then have s1: "mstep secret_dispatcher (EvWorker Background demo_state 0) m = Some (set_worker 0 (WComplete q n (Some e)) m)"
    using q by (simp add: worker_step_def worker_at_def)
  let ?c = "\<lparr>QueueID = q, CompletionNotificationID = NotificationID n, Err = Some e\<rparr>"
  obtain m2 where s2: "mstep secret_dispatcher (EvWorker Background demo_state 0) (set_worker 0 (WComplete q n (Some e)) m) = Some m2"
      "?c \<in> set (callbacks m2)" "admitted m2 = admitted m"
    using q by (simp add: worker_step_def worker_at_def set_worker_def complete_def Let_def secret_dispatcher_def newDispatcher_def)
  have ok: "discreet_event demo_public (EvWorker Background demo_state 0 :: (string, http_request list) event)"
    by (simp add: discreet_context_def Background_def)
  have r2: "reachable_by (discreet_event demo_public) secret_dispatcher 1 m2"
    by (rule reachable_by.step[OF reachable_by.step[OF r ok s1] ok s2(1)])
  have "\<forall>c e. c \<in> set (callbacks m2) \<and> Err c = Some e \<longrightarrow> shown e \<subseteq> demo_public"
  proof (rule callbacks_hide_secrets[OF demo_public_def demo_public_http _ _ r2 secret_valid, THEN conjunct1])
    show "logger_within demo_public (d_logger secret_dispatcher)" by (simp add: secret_dispatcher_def newDispatcher_def)
    fix rid r
    assume "(rid, r) \<in> set (d_receivers secret_dispatcher)"
    then have "r = secret_receiver" by (simp add: secret_dispatcher_def newDispatcher_def secret_normalized)
    then show "{id_string (ID r), Name r} \<subseteq> demo_public \<and>
        (\<forall>ot \<in> set (Targets r). ot = None \<or> (\<exists>t. ot = Some (webhook_target demo_http [] (Some t)) \<and> public_webhook demo_public t))"
      using demo_public_webhook by (auto simp: secret_sel) (auto simp: demo_public_def)
  next
    fix q' n'
    assume "(q', n') \<in> set (admitted m2)"
    then show "public_notification demo_public n'" using named s2(3) demo_public_notification by metis
  qed
  then have "shown e \<subseteq> demo_public" using s2(2) by force
  then show ?thesis using r2 s2(2) demo_secrets by (intro exI[of _ m2] exI[of _ ?c] exI[of _ e]) auto
qed

section \<open>The proxy tunnel\<close>

text \<open>
  C36: a tunnel is used only after the proxy has answered the CONNECT request for exactly the
  target address with a 2xx status, over TLS with the proxy's own name and full verification
  if its URL says https; and nothing but the proxy's host and port, 80 or 443 when the URL has
  none, is dialled. Until then nothing of the SMTP conversation is said.
\<close>

theorem proxy_tunnel:
  assumes "dialProxy converse ctx (Some u) target timeout w = (Inr (), w')" and "\<not> bracketed (Hostname u)"
  shows "\<exists>address d tr. talk w w' = (DialTCP address timeout ctx, Inr d) # tr \<and> tunnel_opened ctx u target tr \<and>
    splitHostPort address = (Hostname u, if Port u = [] then default_port u else Port u) \<and>
    list_all (connecting \<circ> fst) (talk w w')"
proof -
  obtain address d tr where "proxyDialAddress (Some u) = Inr address"
    and "talk w w' = (DialTCP address timeout ctx, Inr d) # tr" and "tunnel_opened ctx u target tr"
    using saysD[OF says_dialProxy assms(1)] by auto
  moreover have "list_all (connecting \<circ> fst) (talk w w')"
    using saysD[OF dialProxy_connects[unfolded only_connects_def] assms(1)] by simp
  ultimately show ?thesis using proxyDialAddress_split[OF _ assms(2)] by blast
qed

definition demo_proxy :: proxy_url where
  "demo_proxy = \<lparr>px_Scheme = ''http'', px_User = Some (''me'', ''s3cret''), px_Host = ''proxy''\<rparr>"

definition proxied_state :: "conversation runtime" where
  "proxied_state = \<lparr>now = 0, entropy = [], logs = [],
     world = \<lparr>said = [], peer = (\<lambda>tr n c. (Inr (Answer 200 ''200 OK'' []), 5))\<rparr>\<rparr>"

lemma demo_proxy_host: "Hostname demo_proxy = ''proxy''" "Port demo_proxy = []"
  by (simp_all add: Hostname_def Port_def demo_proxy_def splitHostPort_def split_last_def ContainsByte_def strip_brackets_def)

lemma proxy_tunnel_witness:
  "\<exists>w'. dialProxy converse Background (Some demo_proxy) ''mx:587'' 10 proxied_state = (Inr (), w') \<and>
     (\<exists>address d tr. said (world w') = (DialTCP address 10 Background, Inr d) # tr \<and> splitHostPort address = (''proxy'', ''80''))"
proof -
  have fold: "\<not> EqualFold ''http'' ''https''" "EqualFold ''http'' ''http''"
    by (simp_all add: EqualFold_def fold_rune_def)
  have address: "proxyDialAddress (Some demo_proxy) = Inr ''proxy:80''"
    by (simp add: proxyDialAddress_def demo_proxy_host) (simp add: demo_proxy_def fold JoinHostPort_def ContainsByte_def)
  have "\<exists>w'. dialProxy converse Background (Some demo_proxy) ''mx:587'' 10 proxied_state = (Inr (), w')"
    by (simp add: dialProxy_def address close_on_error_def open_tunnel_def secure_proxy_def writeConnectRequest_def proxy_deadline_def
        andThen_def map_error_def ignore_error_def converse_def proxied_state_def)
      (simp add: demo_proxy_def fold)
  then obtain w' where run: "dialProxy converse Background (Some demo_proxy) ''mx:587'' 10 proxied_state = (Inr (), w')" by blast
  have "\<not> bracketed (Hostname demo_proxy)" by (simp add: demo_proxy_host bracketed_def)
  from proxy_tunnel[OF run this] run show ?thesis
    by (auto simp: talk_def proxied_state_def demo_proxy_host default_port_def) (auto simp: demo_proxy_def fold)
qed

text \<open>
  C37: a proxy that reads the CONNECT request finds the target address, the three fixed lines
  and, exactly when the proxy URL has credentials, one more, from which base64 gives back user
  name and password byte for byte; whatever bytes these have, they add no line. The target
  address itself must be on one line.
\<close>

theorem connect_request_round_trip:
  assumes "one_line target"
  shows "\<exists>credentials. parse_message (connect_request u target) =
      ([''CONNECT '' @ target @ '' HTTP/1.1'', ''Host: '' @ target, ''Proxy-Connection: Keep-Alive''] @ credentials, []) \<and>
    (case px_User u of
       None \<Rightarrow> credentials = []
     | Some (username, password) \<Rightarrow> \<exists>c. credentials = [''Proxy-Authorization: Basic '' @ c] \<and>
         one_line c \<and> b64_decode c = username @ '':'' @ password)"
  unfolding parse_connect[OF assms, of u]
  by (auto simp: connect_lines_def b64_roundtrip one_line_def b64_one_line split: option.split)

lemma connect_request_round_trip_witness:
  "\<exists>c. parse_message (connect_request demo_proxy ''mx:587'') =
     ([''CONNECT mx:587 HTTP/1.1'', ''Host: mx:587'', ''Proxy-Connection: Keep-Alive'', ''Proxy-Authorization: Basic '' @ c], []) \<and>
     b64_decode c = ''me:s3cret''"
  using connect_request_round_trip[of "''mx:587''" demo_proxy] by (auto simp: demo_proxy_def one_line_def)

text \<open>
  C38: however the network cuts the proxy's stream into pieces, and whatever sizes are read,
  the connection behind the tunnel yields exactly the bytes that follow the header of the
  proxy's response: nothing the server has already said is lost with the reader's buffer, and
  nothing of the response is taken for the server's. Reading long enough gives all of it.
\<close>

theorem tunnel_loses_nothing:
  assumes "concat chunks = concat (map (\<lambda>l. l @ crlf) ls) @ crlf @ rest" and "list_all (\<lambda>l. one_line l \<and> l \<noteq> []) ls"
    and "list_all (\<lambda>c. c \<noteq> []) chunks"
  shows "\<exists>c. tunnel chunks = Some c \<and> (\<forall>ns. \<exists>left. rest = fst (reads ns c) @ left \<and>
    (list_all (\<lambda>n. 0 < n) ns \<and> length rest \<le> length ns \<longrightarrow> left = []))"
proof -
  have "unread (NewReader chunks) = concat (map (\<lambda>l. l @ crlf) ls) @ crlf @ rest"
    by (simp add: unread_def NewReader_def assms(1))
  then obtain b where head: "read_head (NewReader chunks) = Some (map (\<lambda>l. l @ crlf) ls, b)" and b: "unread b = rest"
    using read_head_lines[OF assms(2)] by blast
  have ok: "chunks_ok b"
    using read_head_ok[OF head] assms(3) by (simp add: chunks_ok_def NewReader_def)
  have "\<exists>left. rest = fst (reads ns \<lparr>conn_reader = b\<rparr>) @ left \<and>
      (list_all (\<lambda>n. 0 < n) ns \<and> length rest \<le> length ns \<longrightarrow> left = [])" for ns
  proof -
    obtain s c where r: "reads ns \<lparr>conn_reader = b\<rparr> = (s, c)" by fastforce
    show ?thesis
      using reads_unread[OF r] reads_all[OF r] ok b
      by (intro exI[of _ "unread (conn_reader c)"]) (auto simp: r)
  qed
  then show ?thesis using head by (auto simp: tunnel_def)
qed

lemma tunnel_loses_nothing_witness:
  "\<exists>c. tunnel [''HTTP/1.1 200 OK'' @ [CR], [LF, CR, LF] @ ''220 m'', ''x''] = Some c \<and>
     fst (reads [4, 10, 4096, 1, 1, 1] c) = ''220 mx''"
proof -
  let ?chunks = "[''HTTP/1.1 200 OK'' @ [CR], [LF, CR, LF] @ ''220 m'', ''x'']"
  obtain c where c: "tunnel ?chunks = Some c" and all: "\<forall>ns. \<exists>left. ''220 mx'' = fst (reads ns c) @ left \<and>
      (list_all (\<lambda>n. 0 < n) ns \<and> length ''220 mx'' \<le> length ns \<longrightarrow> left = [])"
    using tunnel_loses_nothing[of ?chunks "[''HTTP/1.1 200 OK'']" "''220 mx''"] by (auto simp: one_line_def)
  have "fst (reads [4, 10, 4096, 1, 1, 1] c) = ''220 mx''"
    using spec[OF all, of "[4, 10, 4096, 1, 1, 1]"] by auto
  then show ?thesis using c by blast
qed

section \<open>Templates\<close>

text \<open>
  C39: a template loaded from a built-in source is the file of that name in the file system
  given, with the extension .tmpl; the name is not empty and has no path separator, so nothing
  outside the directory is read, and no file of the operating system is. The parser gets a
  valid missing-key policy, error unless the options say otherwise.
\<close>

theorem builtin_source:
  assumes "LoadSource lib files source opts = Some (Inr t)" and "isBuiltin (TrimSpace source)"
  shows "\<exists>dir name body cfg x. files = Some dir \<and> name = builtinName (TrimSpace source) \<and> name \<noteq> [] \<and>
    CHR ''/'' \<notin> set name \<and> CHR 0x5C \<notin> set name \<and> fs_ReadFile dir (name @ ''.tmpl'') = Inr body \<and>
    parseOptions opts = Inr cfg \<and> missingKey cfg \<in> {''default'', ''zero'', ''error''} \<and>
    (opts = [] \<longrightarrow> missingKey cfg = ''error'') \<and>
    text_Parse lib (name @ ''.tmpl'') (''missingkey='' @ missingKey cfg) (parse_funcs lib cfg) body = Inr x \<and>
    t = Template (Some x) \<and> LoadSource (lib\<lparr>os_ReadFile := disk\<rparr>) files source opts = LoadSource lib files source opts"
proof -
  obtain x where src: "parseSource lib files source opts = Some (Inr x)" and t: "t = Template (Some x)"
    using assms(1) by (cases "parseSource lib files source opts") (auto simp: LoadSource_def wrap_call_def elim: map_sum_Inr)
  obtain fname body where read: "readSource lib files source = Inr (fname, body)"
    and parsed: "parse lib fname body opts = Some (Inr x)"
    using src by (auto simp: parseSource_def split: sum.splits option.splits)
  have built: "read_builtin (newBuiltins files) (TrimSpace source) = Inr (fname, body)"
    using read assms(2) by (auto simp: readSource_def Let_def split: if_splits)
  have os: "LoadSource (lib\<lparr>os_ReadFile := disk\<rparr>) files source opts = LoadSource lib files source opts"
    using assms(2) by (simp add: LoadSource_def parseSource_def readSource_def parse_def parse_funcs_def DefaultFuncs_def Let_def
        split: sum.split)
  obtain dir where dir: "files = Some dir" "fs_ReadFile dir fname = Inr body" "fname = builtinName (TrimSpace source) @ ''.tmpl''"
    "builtinName (TrimSpace source) \<noteq> []" "CHR ''/'' \<notin> set (builtinName (TrimSpace source))"
    "CHR 0x5C \<notin> set (builtinName (TrimSpace source))"
    using built by (auto simp: read_builtin_def newBuiltins_def ContainsByte_def Let_def split: if_splits option.splits sum.splits)
  obtain cfg where cfg: "parseOptions opts = Inr cfg"
    and prs: "text_Parse lib fname (templateOption cfg) (parse_funcs lib cfg) body = Inr x"
    using parsed by (auto simp: parse_def Let_def split: sum.splits if_splits)
  show ?thesis
    using dir cfg prs t os parseOptions_policy[OF cfg] by (auto simp: templateOption_def)
qed

definition demo_files :: fs where
  "demo_files = \<lparr>fs_Open = (\<lambda>p. Inl (ErrorString ''no such file'')),
     fs_ReadFile = (\<lambda>p. if p = ''slack.tmpl'' then Inr ''text'' else Inl (ErrorString ''no such file'')),
     fs_ReadDir = (\<lambda>p. Inr [(''slack.tmpl'', False)])\<rparr>"

definition demo_templates :: "(nat, nat) template_lib" where
  "demo_templates = \<lparr>text_Parse = (\<lambda>name opt fm body. Inr (\<lambda>v. Inr (opt @ '': '' @ body))),
     html_Parse = (\<lambda>name opt fm body. Inr (\<lambda>v. Inr body)), Funcs_panics = (\<lambda>fm. False), tmplfuncs_FuncMap = [],
     os_ReadFile = (\<lambda>p. Inl (ErrorString ''no such file''))\<rparr>"

lemma builtin_source_witness:
  "\<exists>t x. LoadSource demo_templates (Some demo_files) ''builtin:slack'' [] = Some (Inr t) \<and>
     demo_templates\<lparr>os_ReadFile := (\<lambda>p. Inr p)\<rparr> \<noteq> demo_templates \<and>
     LoadSource (demo_templates\<lparr>os_ReadFile := (\<lambda>p. Inr p)\<rparr>) (Some demo_files) ''builtin:slack'' [] = Some (Inr t) \<and>
     t = Template (Some x) \<and> x 0 = Inr ''missingkey=error: text''"
proof -
  have trim: "TrimSpace ''builtin:slack'' = ''builtin:slack''" "TrimSpace ''slack'' = ''slack''"
    by (simp_all add: TrimSpace_ascii is_space_def)
  have name: "builtinName ''builtin:slack'' = ''slack''" and builtin: "isBuiltin ''builtin:slack''"
    by (simp_all add: builtinName_def isBuiltin_def builtinPrefix_def TrimPrefix_def trim)
  have load: "\<exists>t. LoadSource demo_templates (Some demo_files) ''builtin:slack'' [] = Some (Inr t)"
    by (simp add: LoadSource_def parseSource_def readSource_def trim builtin read_builtin_def newBuiltins_def name
        ContainsByte_def demo_files_def parse_def parseOptions_def MissingKeyError_def cmp_Or_def validateMissingKey_def
        demo_templates_def wrap_call_def Let_def)
  then obtain t where run: "LoadSource demo_templates (Some demo_files) ''builtin:slack'' [] = Some (Inr t)" by blast
  have "isBuiltin (TrimSpace ''builtin:slack'')" by (simp add: trim builtin)
  from builtin_source[OF run this, of "\<lambda>p. Inr p"] run show ?thesis
    by (auto simp: trim name demo_files_def demo_templates_def fun_eq_iff)
qed

end
