(* ===== verification/Mock_API.thy ===== *)
theory Mock_API
  imports Receivers Webhook Go_Text
begin

text \<open>
  What the programs of \<open>examples/\<close> share: their event type \<open>Alert\<close>, the local HTTP servers that
  stand for external services (\<open>mockExternalAPI\<close>), and what their handlers answer and print.

  \<open>any\<close> has the values the programs put into one. The state of the world is that of the running
  servers, by URL, and what has been printed to the standard output: one list of pieces for
  each formatted line, without its line feed. The address a server listens on is the operating system's choice and
  an argument.
\<close>

section \<open>Alerts\<close>

datatype any = AnyNil | AnyString string | AnyMap "(string \<times> any) list option"

record alert =
  IDValue :: string
  Service :: string
  AlertStatus :: string

definition Alert_ID :: "alert \<Rightarrow> string" where
  "Alert_ID a = IDValue a"

definition Alert_Data :: "alert \<Rightarrow> string \<Rightarrow> any custom_data \<Rightarrow> string \<Rightarrow> any" where
  "Alert_Data a receiver customData title = AnyMap (Some
     [(''ID'', AnyString (IDValue a)), (''Service'', AnyString (Service a)), (''Status'', AnyString (AlertStatus a)),
      (''Title'', AnyString title), (''Receiver'', AnyString receiver), (''CustomData'', AnyMap customData)])"

text \<open>An alert has no \<open>ReceiverIDs\<close>.\<close>

definition Alert_notification :: "alert \<Rightarrow> any notification" where
  "Alert_notification a = \<lparr>NotificationID = Alert_ID a, NotificationData = Alert_Data a, Router = None\<rparr>"

section \<open>Local servers\<close>

record 's local_world =
  servers :: "(string, 's) go_map"
  printed :: "piece list list"

definition start_server :: "string \<Rightarrow> 's \<Rightarrow> 's local_world runtime \<Rightarrow> 's local_world runtime" where
  "start_server url s w = w\<lparr>world := (world w)\<lparr>servers := map_set url s (servers (world w))\<rparr>\<rparr>"

definition stop_server :: "string \<Rightarrow> 's local_world runtime \<Rightarrow> 's local_world runtime" where
  "stop_server url w = w\<lparr>world := (world w)\<lparr>servers := map_delete url (servers (world w))\<rparr>\<rparr>"

text \<open>
  A handler gets the request's body and gives the server's next state, the lines it prints, and
  the status and the body of its answer.
\<close>

type_synonym 's handler = "'s \<Rightarrow> string \<times> go_error option \<Rightarrow> 's \<times> piece list list \<times> int \<times> string"

text \<open>\<open>http.StatusText\<close>.\<close>

definition status_texts :: "(int \<times> string) list" where
  "status_texts =
     [(100, ''Continue''), (101, ''Switching Protocols''), (102, ''Processing''), (103, ''Early Hints''),
      (200, ''OK''), (201, ''Created''), (202, ''Accepted''), (203, ''Non-Authoritative Information''),
      (204, ''No Content''), (205, ''Reset Content''), (206, ''Partial Content''), (207, ''Multi-Status''),
      (208, ''Already Reported''), (226, ''IM Used''),
      (300, ''Multiple Choices''), (301, ''Moved Permanently''), (302, ''Found''), (303, ''See Other''),
      (304, ''Not Modified''), (305, ''Use Proxy''), (307, ''Temporary Redirect''), (308, ''Permanent Redirect''),
      (400, ''Bad Request''), (401, ''Unauthorized''), (402, ''Payment Required''), (403, ''Forbidden''),
      (404, ''Not Found''), (405, ''Method Not Allowed''), (406, ''Not Acceptable''),
      (407, ''Proxy Authentication Required''), (408, ''Request Timeout''), (409, ''Conflict''), (410, ''Gone''),
      (411, ''Length Required''), (412, ''Precondition Failed''), (413, ''Request Entity Too Large''),
      (414, ''Request URI Too Long''), (415, ''Unsupported Media Type''),
      (416, ''Requested Range Not Satisfiable''), (417, ''Expectation Failed''), (418, ''I'' @ [CHR 0x27] @ ''m a teapot''),
      (421, ''Misdirected Request''), (422, ''Unprocessable Entity''), (423, ''Locked''), (424, ''Failed Dependency''),
      (425, ''Too Early''), (426, ''Upgrade Required''), (428, ''Precondition Required''), (429, ''Too Many Requests''),
      (431, ''Request Header Fields Too Large''), (451, ''Unavailable For Legal Reasons''),
      (500, ''Internal Server Error''), (501, ''Not Implemented''), (502, ''Bad Gateway''),
      (503, ''Service Unavailable''), (504, ''Gateway Timeout''), (505, ''HTTP Version Not Supported''),
      (506, ''Variant Also Negotiates''), (507, ''Insufficient Storage''), (508, ''Loop Detected''),
      (510, ''Not Extended''), (511, ''Network Authentication Required'')]"

definition StatusText :: "int \<Rightarrow> string" where
  "StatusText code = (case map_of status_texts code of None \<Rightarrow> [] | Some t \<Rightarrow> t)"

section \<open>The server of examples/multiple\<close>

definition ansiReset :: string where "ansiReset = CHR 0x1B # ''[0m''"
definition ansiCyan :: string where "ansiCyan = CHR 0x1B # ''[36m''"
definition ansiYellow :: string where "ansiYellow = CHR 0x1B # ''[33m''"
definition ansiMagenta :: string where "ansiMagenta = CHR 0x1B # ''[35m''"

record mock_api =
  api_name :: string
  api_color :: string
  api_statuses :: "int list"
  api_attempt :: nat

definition mock_line :: "mock_api \<Rightarrow> int \<Rightarrow> string \<Rightarrow> piece list" where
  "mock_line a status body = [Lit ''%s[%s]%s attempt %d -> %d %s | %s'', Str (api_color a), Str (api_name a), Str ansiReset,
     Num (int (api_attempt a)), Num status, Str (StatusText status), Str (TrimSpace body)]"

definition mock_status :: "mock_api \<Rightarrow> int" where
  "mock_status a = (if api_statuses a \<noteq> []
     then api_statuses a ! min (api_attempt a - 1) (length (api_statuses a) - 1) else 200)"

definition mock_handler :: "mock_api handler" where
  "mock_handler a body =
     (let a = a\<lparr>api_attempt := api_attempt a + 1\<rparr> in
      case body of
        (_, Some _) \<Rightarrow> (a, [], 500, ''read request body'' @ [CHR 0x0A])
      | (bytes, None) \<Rightarrow>
          let status = mock_status a in (a, [mock_line a status bytes], status, StatusText status))"

definition mockExternalAPI ::
  "string \<Rightarrow> string \<Rightarrow> string \<Rightarrow> int list \<Rightarrow> mock_api local_world runtime \<Rightarrow> mock_api local_world runtime" where
  "mockExternalAPI url name color statuses w =
     start_server url \<lparr>api_name = name, api_color = color, api_statuses = statuses, api_attempt = 0\<rparr> w"

section \<open>The server of examples/single\<close>

text \<open>Its state is its name.\<close>

definition single_handler :: "string handler" where
  "single_handler name body =
     (name, [[Lit ''mock external API %q received webhook notification'', Quo name]], 200, ''ok'')"

definition single_mockExternalAPI :: "string \<Rightarrow> string \<Rightarrow> string local_world runtime \<Rightarrow> string local_world runtime" where
  "single_mockExternalAPI url name w = start_server url name w"

end
