(* ===== verification/Example_Programs.thy ===== *)
theory Example_Programs
  imports Mock_API
begin

text \<open>
  The main functions of \<open>examples/multiple/main.go\<close> and \<open>examples/single/main.go\<close>: they use the
  library from parsing templates to synchronous delivery. \<open>None\<close> is a panic, the library's or
  the one of the program on an error.

  The structured log goes to the standard output too; here it is in the runtime's log.
\<close>

definition logger_stdout :: logger where "logger_stdout = Logger []"

definition title_template :: string where
  "title_template = ''{{ .Service }} is {{ .Status }}''"

text \<open>\<open>q\<close> is the quotation mark of the templates' JSON.\<close>

definition quoted :: "string \<Rightarrow> string" where
  "quoted s = CHR 0x22 # s @ [CHR 0x22]"

definition multiple_template :: string where
  "multiple_template = ''{'' @ quoted ''text'' @ '': {{ .Title | json }}, '' @ quoted ''receiver'' @ '': {{ .Receiver | json }}, '' @
     quoted ''team'' @ '': {{ .CustomData.team | json }}, '' @ quoted ''environment'' @ '': {{ .CustomData.environment | json }}}''"

definition single_template :: string where
  "single_template = ''{'' @ quoted ''text'' @ '': {{ .Title | json }}, '' @ quoted ''receiver'' @ '': {{ .Receiver | json }}}''"

definition down_alert :: alert where
  "down_alert = \<lparr>IDValue = ''alert-api-down'', Service = ''api'', AlertStatus = ''down''\<rparr>"

text \<open>The webhook target of a receiver; the programs write the same list of options for each.\<close>

definition mock_webhook :: "string \<Rightarrow> string \<Rightarrow> any string_template \<Rightarrow> any template \<Rightarrow> http_client \<Rightarrow> any webhook" where
  "mock_webhook name url title body client = wh_New
     [wh_WithName name, wh_WithURL url, wh_WithTitleTemplate (Some title), wh_WithTemplate (Some body),
      wh_WithClient (Some client), wh_WithLogger (Some logger_stdout), wh_WithValidateJSON]"

definition mock_target :: "'s local_world http_lib \<Rightarrow> any webhook \<Rightarrow> (any, 's local_world) target option" where
  "mock_target lib t = Some (webhook_target lib AnyNil (Some t))"

section \<open>examples/multiple\<close>

text \<open>The receivers, from the URLs of the servers and the parsed templates.\<close>

definition ops_receiver ::
  "mock_api local_world http_lib \<Rightarrow> string \<Rightarrow> any string_template \<Rightarrow> any template \<Rightarrow> (any, mock_api local_world) receiver option" where
  "ops_receiver lib url title body =
     WithCustomData (Some [(''team'', AnyString ''operations''), (''environment'', AnyString ''production'')])
       (Some (NewReceiver (ReceiverID ''ops'')
         [mock_target lib (mock_webhook ''mock-ops-api'' url title body (NewClient (5 * Second) []))]))"

definition dev_receiver ::
  "mock_api local_world http_lib \<Rightarrow> string \<Rightarrow> any string_template \<Rightarrow> any template \<Rightarrow> (any, mock_api local_world) receiver option" where
  "dev_receiver lib url title body =
     WithRetry \<lparr>Count = 3, Backoff = Second, MaxBackoff = 10 * Second, Jitter = True, Policy = Some DefaultRetryPolicy\<rparr>
       (WithCustomData (Some [(''team'', AnyString ''developers''), (''environment'', AnyString ''development'')])
         (Some (NewReceiver (ReceiverID ''dev'')
           [mock_target lib (mock_webhook ''mock-dev-api'' url title body (NewClient (5 * Second) []))])))"

definition audit_receiver ::
  "mock_api local_world http_lib \<Rightarrow> string \<Rightarrow> any string_template \<Rightarrow> any template \<Rightarrow> (any, mock_api local_world) receiver option" where
  "audit_receiver lib url title body =
     WithRetry \<lparr>Count = 2, Backoff = 500 * Millisecond, MaxBackoff = 0, Jitter = False,
         Policy = Some (AnyRetryPolicy [Some (RetryOnStatusCode [409]), Some RetryOnServerError])\<rparr>
       (WithCustomData (Some [(''team'', AnyString ''security''), (''environment'', AnyString ''production'')])
         (Some (NewReceiver (ReceiverID ''audit'')
           [mock_target lib (mock_webhook ''mock-audit-api'' url title body (NewClient (5 * Second) []))])))"

definition multiple_main ::
  "(any, 'f) template_lib \<Rightarrow> mock_api local_world http_lib \<Rightarrow> string \<Rightarrow> string \<Rightarrow> string
     \<Rightarrow> mock_api local_world runtime \<Rightarrow> mock_api local_world runtime option" where
  "multiple_main tlib lib opsURL devURL auditURL w =
     (let w1 = mockExternalAPI opsURL ''ops'' ansiCyan [200] w;
          w2 = mockExternalAPI devURL ''dev'' ansiYellow [500, 200] w1;
          w3 = mockExternalAPI auditURL ''audit'' ansiMagenta [409, 200] w2
      in case ParseStringTemplate tlib ''title'' title_template [] of
           Some (Inr title) \<Rightarrow>
             (case ParseTemplate tlib ''webhook'' multiple_template [WithDefaultFuncs] of
                Some (Inr body) \<Rightarrow>
                  (case SendTo (Some Background) (Some (Alert_notification down_alert))
                      [ops_receiver lib opsURL title body, dev_receiver lib devURL title body,
                       audit_receiver lib auditURL title body] w3 of
                     Some (None, w4) \<Rightarrow> Some (stop_server opsURL (stop_server devURL (stop_server auditURL w4)))
                   | _ \<Rightarrow> None)
              | _ \<Rightarrow> None)
         | _ \<Rightarrow> None)"

section \<open>examples/single\<close>

definition single_receiver ::
  "string local_world http_lib \<Rightarrow> string \<Rightarrow> any string_template \<Rightarrow> any template \<Rightarrow> (any, string local_world) receiver option" where
  "single_receiver lib url title body =
     WithRetry \<lparr>Count = 2, Backoff = Second, MaxBackoff = 0, Jitter = False, Policy = Some DefaultRetryPolicy\<rparr>
       (Some (NewReceiver (ReceiverID ''ops'')
         [mock_target lib (mock_webhook ''mock-ops-api'' url title body (NewClient (5 * Second) []))]))"

definition single_main ::
  "(any, 'f) template_lib \<Rightarrow> string local_world http_lib \<Rightarrow> string
     \<Rightarrow> string local_world runtime \<Rightarrow> string local_world runtime option" where
  "single_main tlib lib webhookURL w =
     (let w1 = single_mockExternalAPI webhookURL ''ops'' w
      in case ParseStringTemplate tlib ''title'' title_template [] of
           Some (Inr title) \<Rightarrow>
             (case ParseTemplate tlib ''webhook'' single_template [WithDefaultFuncs] of
                Some (Inr body) \<Rightarrow>
                  (case SendTo (Some Background) (Some (Alert_notification down_alert))
                      [single_receiver lib webhookURL title body] w1 of
                     Some (None, w2) \<Rightarrow> Some (stop_server webhookURL w2)
                   | _ \<Rightarrow> None)
              | _ \<Rightarrow> None)
         | _ \<Rightarrow> None)"

end
