(* ===== verification/Example_Facts.thy ===== *)
theory Example_Facts
  imports Example_Programs Webhook_Facts
begin

text \<open>
  A delivery to a local server: what one request does to the server, and how the retry loop
  walks through the server's answers until one is a success.
\<close>

section \<open>One request\<close>

definition answered :: "string \<Rightarrow> 's \<Rightarrow> piece list list \<Rightarrow> 's local_world \<Rightarrow> 's local_world" where
  "answered url s out x = \<lparr>servers = map_set url s (servers x), printed = printed x @ out\<rparr>"

text \<open>
  A POST request reaches every running server, which answers well within the five seconds the
  programs give their clients: the request's body arrives, and so do the handler's status and
  body, if the status ends the exchange and allows a body. Nothing is assumed of other methods
  or of shorter timeouts.
\<close>

definition final_status :: "int \<Rightarrow> bool" where
  "final_status s \<longleftrightarrow> (200 \<le> s \<and> s < 300 \<or> 400 \<le> s \<and> s < 600) \<and> s \<noteq> 204"

definition local_network :: "'s handler \<Rightarrow> 's local_world http_lib \<Rightarrow> bool" where
  "local_network handler lib \<longleftrightarrow> (\<forall>client req w s s' out status text.
     Req_method req = ''POST'' \<and> 5 * Second \<le> ClientTimeout client \<and>
     map_get (servers (world w)) (Req_url req) = Some s \<and> handler s (Req_body req, None) = (s', out, status, text) \<and>
     final_status status \<longrightarrow>
     (\<exists>resp w'. Do lib client Background req w = (Inr resp, w') \<and> Resp_StatusCode resp = status \<and>
        Resp_Body resp = (text, None) \<and> world w' = answered (Req_url req) s' out (world w)))"

definition posts_locally :: "'v webhook \<Rightarrow> bool" where
  "posts_locally t \<longleftrightarrow> wh_Method (wh_applyDefaults t) = ''POST'' \<and>
     5 * Second \<le> ClientTimeout (the (wh_Client (wh_applyDefaults t)))"

lemma request_sel: "Req_method (fst (wh_request t body w)) = wh_Method t" "Req_url (fst (wh_request t body w)) = wh_URL t" "Req_body (fst (wh_request t body w)) = body"
  by (simp_all add: wh_request_def split_beta)

lemma applyDefaults_URL [simp]: "wh_URL (wh_applyDefaults t) = wh_URL t"
  by (simp add: wh_applyDefaults_def)

lemma wh_receive_status:
  assumes "Resp_Body resp = (bytes, None)"
  shows "\<exists>s b ra e w'. wh_receive lib t resp d w = ((s, Resp_StatusCode resp, b, ra, e), w') \<and> world w' = world w \<and>
    (e = None \<longleftrightarrow> 200 \<le> Resp_StatusCode resp \<and> Resp_StatusCode resp < 300) \<and> \<not> IsPermanent e"
proof -
  obtain s c b ra e w' where r: "wh_receive lib t resp d w = ((s, c, b, ra, e), w')" by (metis prod_cases5 surj_pair)
  obtain shown tr where "readResponseBody (Resp_Body resp) (wh_ResponseBodyLimit t) = Inr (shown, tr)"
    using readResponseBody_ok assms by metis
  then show ?thesis using wh_receive_outcome[OF r] r by auto
qed

lemma send_local:
  assumes "local_network handler lib" and "wh_ready lib nil_any (Some t) p = Some body"
    and "map_get (servers (world w)) (wh_URL t) = Some s" and "handler s (body, None) = (s', out, status, text)"
    and "final_status status" and "posts_locally t"
  shows "\<exists>r e w'. wh_SendResult lib nil_any (Some t) (Some Background) p w = ((r, e), w') \<and> StatusCode r = status \<and>
    (e = None \<longleftrightarrow> status < 300) \<and> \<not> IsPermanent e \<and> world w' = answered (wh_URL t) s' out (world w)"
proof -
  let ?t = "wh_applyDefaults t"
  obtain w1 where w1: "world w1 = world w"
    and send: "wh_SendResult lib nil_any (Some t) (Some Background) p w =
      (let ((status, code, response, retryAfter, err), w2) = wh_post lib ?t Background body w1
       in ((\<lparr>Status = status, StatusCode = code,
             Response = truncateBody response (wh_ResponseBodyLimit ?t), RetryAfter = retryAfter\<rparr>, err), w2))"
    using wh_SendResult_ready[OF assms(2), of w Background] by (auto simp: Let_def)
  obtain u where u: "NewRequest lib (wh_Method ?t) (wh_URL ?t) = Inr u" using wh_ready_NewRequest[OF assms(2)] by blast
  obtain req w2 where req: "wh_request ?t body w1 = (req, w2)" by fastforce
  have "Req_method req = ''POST''" "Req_url req = wh_URL t" "Req_body req = body" "world w2 = world w"
    and "5 * Second \<le> ClientTimeout (the (wh_Client ?t))"
    using request_sel[of ?t body w1] wh_request_frame(3)[of ?t body w1] assms(6) by (simp_all add: req w1 posts_locally_def)
  then obtain resp w3 where resp: "Do lib (the (wh_Client ?t)) Background req w2 = (Inr resp, w3)"
    "Resp_StatusCode resp = status" "Resp_Body resp = (text, None)" "world w3 = answered (wh_URL t) s' out (world w)"
    using assms(1,3-5) unfolding local_network_def by metis
  obtain st b ra e w4 where "wh_receive lib ?t resp (now w3 - now w1) w3 = ((st, status, b, ra, e), w4)"
    "world w4 = world w3" "e = None \<longleftrightarrow> 200 \<le> status \<and> status < 300" "\<not> IsPermanent e"
    using wh_receive_status[OF resp(3), of lib ?t "now w3 - now w1" w3] unfolding resp(2) by blast
  then show ?thesis
    using assms(5) by (auto simp: final_status_def send wh_post_simp[OF u req resp(1)] resp(4))
qed

section \<open>The retry loop\<close>

text \<open>
  \<open>P i\<close> describes the world after \<open>i\<close> calls: \<open>k\<close> of them fail with what the policy retries, and
  the next one succeeds.
\<close>

lemma retry_loop_chain:
  assumes fail: "\<And>i v. i < k \<Longrightarrow> P i (world v) \<Longrightarrow>
      \<exists>r e v'. fn v = ((r, Some e), v') \<and> P (Suc i) (world v') \<and> \<not> gives_up cfg r (Some e)"
    and ok: "\<And>v. P k (world v) \<Longrightarrow> \<exists>r v'. fn v = ((r, None), v') \<and> P (Suc k) (world v')"
  shows "i \<le> k \<Longrightarrow> k < i + n \<Longrightarrow> P i (world w) \<Longrightarrow>
    \<exists>r w'. retry_loop Background lg cfg fn (int (i + n)) n a res err (int i) w = ((r, int k + 1, None), w') \<and> P (Suc k) (world w')"
proof (induction n arbitrary: i a res err w)
  case 0
  then show ?case by simp
next
  case (Suc n)
  obtain w1 where b: "before_attempt Background lg cfg a res w = (None, w1)" "world w1 = world w"
    by (rule before_attempt_Background)
  let ?v = "log_to lg LevelDebug ''notification target attempt''
              [(''attempt'', AInt (a + 1)), (''maxAttempts'', AInt (int (i + Suc n)))] w1"
  have P: "P i (world ?v)" using Suc.prems(3) b(2) by simp
  show ?case
  proof (cases "i = k")
    case True
    then obtain r v where "fn ?v = ((r, None), v)" "P (Suc k) (world v)" using ok P by blast
    then show ?thesis by (simp add: b(1) True)
  next
    case False
    then obtain r e v where f: "fn ?v = ((r, Some e), v)" "P (Suc i) (world v)" "\<not> gives_up cfg r (Some e)"
      using fail[of i ?v] P Suc.prems(1) by auto
    have "retry_loop Background lg cfg fn (int (i + Suc n)) (Suc n) a res err (int i) w =
        retry_loop Background lg cfg fn (int (Suc i + n)) n (a + 1) r (Some e) (int (Suc i)) v"
      using f(1,3) False Suc.prems(1,2) by (auto simp: b(1) Let_def gives_up_def add.commute split: option.splits)
    then show ?thesis
      using Suc.IH[of "Suc i" v "a + 1" r "Some e"] f(2) False Suc.prems(1,2) by simp
  qed
qed

lemma withRetry_chain:
  assumes "\<And>i v. i < k \<Longrightarrow> P i (world v) \<Longrightarrow>
      \<exists>r e v'. fn v = ((r, Some e), v') \<and> P (Suc i) (world v') \<and> \<not> gives_up cfg r (Some e)"
    and "\<And>v. P k (world v) \<Longrightarrow> \<exists>r v'. fn v = ((r, None), v') \<and> P (Suc k) (world v')"
    and "int k < max_attempts cfg" and "P 0 (world w)"
  shows "\<exists>r w'. withRetry Background lg cfg fn w = ((r, int k + 1, None), w') \<and> P (Suc k) (world w')"
  using retry_loop_chain[of k P fn cfg 0 "nat (max_attempts cfg)" w lg 0 zero_result None] assms
  by (simp add: withRetry_def del: int_nat_eq)

section \<open>Deliveries to the server of examples/multiple\<close>

definition called :: "nat \<Rightarrow> mock_api \<Rightarrow> mock_api" where
  "called i a = a\<lparr>api_attempt := api_attempt a + i\<rparr>"

definition mock_lines :: "mock_api \<Rightarrow> string \<Rightarrow> nat \<Rightarrow> piece list list" where
  "mock_lines a body n = map (\<lambda>i. mock_line (called (Suc i) a) (mock_status (called (Suc i) a)) body) [0..<n]"

text \<open>After \<open>n\<close> calls of a server with the same body; nothing else has changed in the world.\<close>

definition after_calls :: "string \<Rightarrow> mock_api \<Rightarrow> string \<Rightarrow> mock_api local_world \<Rightarrow> nat \<Rightarrow> mock_api local_world \<Rightarrow> bool" where
  "after_calls url a body x n y \<longleftrightarrow> map_get (servers y) url = Some (called n a) \<and> printed y = printed x @ mock_lines a body n \<and>
     (\<forall>u. u \<noteq> url \<longrightarrow> map_get (servers y) u = map_get (servers x) u)"

lemma after_calls_0: "map_get (servers x) url = Some a \<Longrightarrow> after_calls url a body x 0 x"
  by (simp add: after_calls_def mock_lines_def called_def)

lemma after_calls_Suc:
  "after_calls url a body x n y \<Longrightarrow>
   after_calls url a body x (Suc n)
     (answered url (called (Suc n) a) [mock_line (called (Suc n) a) (mock_status (called (Suc n) a)) body] y)"
  by (simp add: after_calls_def answered_def mock_lines_def)

lemma mock_handler_called:
  "mock_handler (called i a) (body, None) =
     (called (Suc i) a, [mock_line (called (Suc i) a) (mock_status (called (Suc i) a)) body],
      mock_status (called (Suc i) a), StatusText (mock_status (called (Suc i) a)))"
  by (simp add: mock_handler_def called_def Let_def)

lemma mock_status_called:
  "api_attempt a = 0 \<Longrightarrow> i < length (api_statuses a) \<Longrightarrow> mock_status (called (Suc i) a) = api_statuses a ! i"
  by (auto simp: mock_status_def called_def min_def)

text \<open>A status that the policy retries.\<close>

definition retried_status :: "retry_config \<Rightarrow> int \<Rightarrow> bool" where
  "retried_status cfg s \<longleftrightarrow> 300 \<le> s \<and> final_status s \<and>
     (\<forall>r e. StatusCode r = s \<and> \<not> IsPermanent (Some e) \<longrightarrow> \<not> gives_up cfg r (Some e))"

lemma mock_send:
  assumes "local_network mock_handler lib" and "wh_ready lib AnyNil (Some t) p = Some body"
    and "after_calls (wh_URL t) a body x i (world w)" and "final_status (mock_status (called (Suc i) a))"
    and "posts_locally t"
  shows "\<exists>r e w'. wh_SendResult lib AnyNil (Some t) (Some Background) p w = ((r, e), w') \<and>
    StatusCode r = mock_status (called (Suc i) a) \<and> (e = None \<longleftrightarrow> mock_status (called (Suc i) a) < 300) \<and>
    \<not> IsPermanent e \<and> after_calls (wh_URL t) a body x (Suc i) (world w')"
proof -
  have "map_get (servers (world w)) (wh_URL t) = Some (called i a)" using assms(3) by (simp add: after_calls_def)
  then show ?thesis
    using send_local[OF assms(1,2) _ mock_handler_called assms(4,5), of w] after_calls_Suc[OF assms(3)] by auto
qed

lemma mock_delivery:
  assumes net: "local_network mock_handler lib" and ready: "wh_ready lib AnyNil (Some t) (target_payload rc p) = Some body"
    and server: "map_get (servers (world w)) (wh_URL t) = Some a" "api_attempt a = 0"
    and k: "k < length (api_statuses a)" "int k < max_attempts (Retry rc)"
    and failing: "\<And>i. i < k \<Longrightarrow> retried_status (Retry rc) (api_statuses a ! i)"
    and final: "final_status (api_statuses a ! k)" "api_statuses a ! k < 300" and posts: "posts_locally t"
  shows "\<exists>r w'. send_target Background lg rc p idx (webhook_target lib AnyNil (Some t)) w = ((r, int k + 1, None), w') \<and>
    after_calls (wh_URL t) a body (world w) (Suc k) (world w')"
proof -
  let ?P = "after_calls (wh_URL t) a body (world w)" and ?t = "webhook_target lib AnyNil (Some t)"
  let ?fn = "Send ?t Background (target_payload rc p)"
  have send: "\<exists>r e v'. ?fn v = ((r, e), v') \<and> StatusCode r = api_statuses a ! i \<and> (e = None \<longleftrightarrow> api_statuses a ! i < 300) \<and>
      \<not> IsPermanent e \<and> ?P (Suc i) (world v')"
    if "i \<le> k" and "final_status (api_statuses a ! i)" and "?P i (world v)" for i v
    using mock_send[OF net ready that(3) _ posts] mock_status_called[OF server(2), of i] that(1,2) k(1)
    by (simp add: webhook_target_def)
  have fail: "\<exists>r e v'. ?fn v = ((r, Some e), v') \<and> ?P (Suc i) (world v') \<and> \<not> gives_up (Retry rc) r (Some e)"
    if less: "i < k" and P: "?P i (world v)" for i v
  proof -
    obtain r e v' where s: "?fn v = ((r, e), v')" "StatusCode r = api_statuses a ! i" "e = None \<longleftrightarrow> api_statuses a ! i < 300"
        "\<not> IsPermanent e" "?P (Suc i) (world v')"
      using send[OF less_imp_le[OF less] _ P] failing[OF less] unfolding retried_status_def by blast
    then obtain e' where "e = Some e'" using failing[OF less] by (cases e) (auto simp: retried_status_def)
    then show ?thesis using s failing[OF less] by (auto simp: retried_status_def)
  qed
  have ok: "\<exists>r v'. ?fn v = ((r, None), v') \<and> ?P (Suc k) (world v')" if "?P k (world v)" for v
    using send[of k v] that final by auto
  obtain r w' where "withRetry Background (target_logger lg rc ?t p idx) (Retry rc) ?fn w = ((r, int k + 1, None), w')"
    "?P (Suc k) (world w')"
    using withRetry_chain[of k ?P ?fn "Retry rc" w "target_logger lg rc ?t p idx"] fail ok k(2) after_calls_0[OF server(1)]
    by blast
  then show ?thesis by (simp add: send_target_def Let_def)
qed

text \<open>A receiver with that one target.\<close>

lemma mock_receiver:
  assumes "local_network mock_handler lib" and "wh_ready lib AnyNil (Some t) (target_payload rc p) = Some body"
    and "map_get (servers (world w)) (wh_URL t) = Some a" "api_attempt a = 0"
    and "k < length (api_statuses a)" "int k < max_attempts (Retry rc)"
    and "\<And>i. i < k \<Longrightarrow> retried_status (Retry rc) (api_statuses a ! i)"
    and "final_status (api_statuses a ! k)" "api_statuses a ! k < 300"
    and "posts_locally t" and "Targets rc = [mock_target lib t]"
  shows "\<exists>w'. dispatchReceiver Background lg rc p w = Some (None, w') \<and>
    after_calls (wh_URL t) a body (world w) (Suc k) (world w')"
  using mock_delivery[OF assms(1-10), of lg 0] by (auto simp: dispatchReceiver_def assms(11) mock_target_def)

end
