(* ===== verification/Example_Properties.thy ===== *)
theory Example_Properties
  imports Example_Facts
begin

text \<open>
  What the programs of \<open>examples/\<close> do from end to end: templates, targets, routing, the retry
  loop and its policies together.
\<close>

section \<open>Their templates\<close>

fun any_field :: "any \<Rightarrow> string \<Rightarrow> any option" where
  "any_field (AnyMap (Some m)) k = map_get m k"
| "any_field _ k = None"

definition multiple_body :: "(string \<Rightarrow> string) \<Rightarrow> string \<Rightarrow> string \<Rightarrow> string \<Rightarrow> string \<Rightarrow> string" where
  "multiple_body json title receiver team environment = ''{'' @ quoted ''text'' @ '': '' @ json title @ '', '' @ quoted ''receiver'' @ '': '' @
     json receiver @ '', '' @ quoted ''team'' @ '': '' @ json team @ '', '' @ quoted ''environment'' @ '': '' @ json environment @ ''}''"

definition single_body :: "(string \<Rightarrow> string) \<Rightarrow> string \<Rightarrow> string \<Rightarrow> string" where
  "single_body json title receiver = ''{'' @ quoted ''text'' @ '': '' @ json title @ '', '' @ quoted ''receiver'' @ '': '' @ json receiver @ ''}''"

text \<open>
  What \<open>text/template\<close> does with the templates: a field of the data is written as it is, or
  through the helper \<open>json\<close>.
\<close>

definition renders_title :: "(any, 'f) template_lib \<Rightarrow> bool" where
  "renders_title tlib \<longleftrightarrow> \<not> Funcs_panics tlib [] \<and>
     (\<exists>tx. text_Parse tlib ''title'' ''missingkey=error'' [] title_template = Inr tx \<and>
       (\<forall>d s t. any_field d ''Service'' = Some (AnyString s) \<and> any_field d ''Status'' = Some (AnyString t) \<longrightarrow>
          tx d = Inr (s @ '' is '' @ t)))"

definition renders_multiple :: "(any, 'f) template_lib \<Rightarrow> (string \<Rightarrow> string) \<Rightarrow> bool" where
  "renders_multiple tlib json \<longleftrightarrow> (let fm = maps_Copy [] (tmplfuncs_FuncMap tlib) in \<not> Funcs_panics tlib fm \<and>
     (\<exists>bx. text_Parse tlib ''webhook'' ''missingkey=error'' fm multiple_template = Inr bx \<and>
       (\<forall>d c t r u e. any_field d ''Title'' = Some (AnyString t) \<and> any_field d ''Receiver'' = Some (AnyString r) \<and>
          any_field d ''CustomData'' = Some c \<and> any_field c ''team'' = Some (AnyString u) \<and>
          any_field c ''environment'' = Some (AnyString e) \<longrightarrow> bx d = Inr (multiple_body json t r u e))))"

definition renders_single :: "(any, 'f) template_lib \<Rightarrow> (string \<Rightarrow> string) \<Rightarrow> bool" where
  "renders_single tlib json \<longleftrightarrow> (let fm = maps_Copy [] (tmplfuncs_FuncMap tlib) in \<not> Funcs_panics tlib fm \<and>
     (\<exists>bx. text_Parse tlib ''webhook'' ''missingkey=error'' fm single_template = Inr bx \<and>
       (\<forall>d t r. any_field d ''Title'' = Some (AnyString t) \<and> any_field d ''Receiver'' = Some (AnyString r) \<longrightarrow>
          bx d = Inr (single_body json t r))))"

definition http_url :: "'x http_lib \<Rightarrow> string \<Rightarrow> bool" where
  "http_url lib url \<longleftrightarrow> (\<exists>host. NewRequest lib ''POST'' url = Inr (''http'', host) \<and> host \<noteq> [])"

lemma parse_funcs_simps:
  "parse_funcs tlib \<lparr>missingKey = m, funcs = None, useDefaultFuncs = False\<rparr> = []"
  "parse_funcs tlib \<lparr>missingKey = m, funcs = None, useDefaultFuncs = True\<rparr> = maps_Copy [] (tmplfuncs_FuncMap tlib)"
  by (simp_all add: parse_funcs_def DefaultFuncs_def maps_Copy_def)

lemma parse_plain:
  assumes "\<not> Funcs_panics tlib []"
  shows "parse tlib name value [] = Some (case text_Parse tlib name ''missingkey=error'' [] value of
      Inl e \<Rightarrow> Inl (Errorf ''parse %s: %w'' [Str name] (Some e)) | Inr x \<Rightarrow> Inr x)"
  using assms
  by (simp add: parse_def parseOptions_def validateMissingKey_def MissingKeyError_def cmp_Or_def parse_funcs_simps templateOption_def)

lemma parse_with_defaults:
  assumes "fm = maps_Copy [] (tmplfuncs_FuncMap tlib)" and "\<not> Funcs_panics tlib fm"
  shows "parse tlib name value [WithDefaultFuncs] = Some (case text_Parse tlib name ''missingkey=error'' fm value of
      Inl e \<Rightarrow> Inl (Errorf ''parse %s: %w'' [Str name] (Some e)) | Inr x \<Rightarrow> Inr x)"
  using assms
  by (simp add: parse_def parseOptions_def validateMissingKey_def MissingKeyError_def cmp_Or_def parse_funcs_simps templateOption_def
      WithDefaultFuncs_def)

lemma body_trimmed:
  "TrimSpace (multiple_body json t r u e) = multiple_body json t r u e"
  "TrimSpace (single_body json t r) = single_body json t r"
  by (rule TrimSpace_ascii; simp add: multiple_body_def single_body_def is_space_def)+

section \<open>Their targets\<close>

lemma mock_webhook_sel [simp]:
  "wh_URL (mock_webhook n url t b c) = url" "wh_Headers (mock_webhook n url t b c) = []"
  "wh_Method (mock_webhook n url t b c) = ''POST''" "wh_Template (mock_webhook n url t b c) = Some b"
  "wh_TitleTmpl (mock_webhook n url t b c) = Some t" "wh_ValidateJSON (mock_webhook n url t b c)"
  by (simp_all add: mock_webhook_def wh_New_def wh_applyDefaults_def zero_webhook_def cmp_Or_def wh_WithName_def wh_WithURL_def
      wh_WithTitleTemplate_def wh_WithTemplate_def wh_WithClient_def wh_WithLogger_def wh_WithValidateJSON_def)

lemma applyDefaults_sel [simp]:
  "wh_Headers (wh_applyDefaults t) = wh_Headers t" "wh_Template (wh_applyDefaults t) = wh_Template t"
  "wh_TitleTmpl (wh_applyDefaults t) = wh_TitleTmpl t" "wh_ValidateJSON (wh_applyDefaults t) = wh_ValidateJSON t"
  "wh_Method t \<noteq> [] \<Longrightarrow> wh_Method (wh_applyDefaults t) = wh_Method t"
  by (simp_all add: wh_applyDefaults_def cmp_Or_def)

lemma mock_webhook_ready:
  assumes "http_url lib url" and "tx (Payload_Data AnyNil p []) = Inr title" and "bx (Payload_Data AnyNil p title) = Inr body"
    and "TrimSpace body = body" and "json_Valid lib body"
  shows "wh_ready lib AnyNil (Some (mock_webhook n url (StringTemplate (Some tx)) (Template (Some bx)) c)) p = Some body"
  using assms
  by (auto simp: wh_ready_def wh_Render_def execute_template_def Let_def valid_headers_def wh_valid_url_def
      http_url_def ToLower_is_def lower_rune_def)

text \<open>With the programs' client they post, and wait five seconds for the answer.\<close>

lemma mock_posts: "posts_locally (mock_webhook n url t b (NewClient (5 * Second) []))"
  by (simp add: posts_locally_def) (simp add: mock_webhook_def wh_New_def wh_applyDefaults_def zero_webhook_def wh_WithName_def wh_WithURL_def
      wh_WithTitleTemplate_def wh_WithTemplate_def wh_WithClient_def wh_WithLogger_def wh_WithValidateJSON_def NewClient_def Let_def)

section \<open>Routing\<close>

lemma normalize_named: "ID r = rid \<Longrightarrow> rid \<noteq> ReceiverID [] \<Longrightarrow> Name r \<noteq> [] \<Longrightarrow> normalize_receiver rid r = r"
  by (cases r) (simp add: normalize_receiver_def cmp_Or_def)

text \<open>\<open>SendTo\<close> serves valid receivers with distinct names in the order of their IDs.\<close>

lemma map_set_new: "k \<notin> fst ` set m \<Longrightarrow> map_set k v m = m @ [(k, v)]"
  unfolding map_set_def by (induction m) auto

lemma NewReceivers_named:
  assumes "distinct (map ID rs)" and named: "\<forall>r \<in> set rs. ID r \<noteq> ReceiverID [] \<and> Name r \<noteq> []"
  shows "NewReceivers (map Some rs) = map (\<lambda>r. (ID r, r)) rs"
    and "normalizeReceivers (as_receivers (map (\<lambda>r. (ID r, r)) rs)) = map (\<lambda>r. (ID r, r)) rs"
proof -
  have insert: "fold (\<lambda>receiver out. case receiver of None \<Rightarrow> out | Some r \<Rightarrow> map_set (ID r) (Some r) out) (map Some rs) out =
      out @ map (\<lambda>r. (ID r, Some r)) rs"
    if "distinct (map ID rs)" and "ID ` set rs \<inter> fst ` set out = {}"
    for rs :: "('a, 'b) receiver list" and out :: "('a, 'b) receivers"
    using that by (induction rs arbitrary: out) (auto simp: map_set_new)
  have norm: "fold (\<lambda>(rid, receiver) out. case receiver of None \<Rightarrow> out
      | Some r \<Rightarrow> map_set rid (normalize_receiver rid r) out) (map (\<lambda>r. (ID r, Some r)) rs) out =
      out @ map (\<lambda>r. (ID r, r)) rs"
    if "distinct (map ID rs)" and "ID ` set rs \<inter> fst ` set out = {}" and "\<forall>r \<in> set rs. ID r \<noteq> ReceiverID [] \<and> Name r \<noteq> []"
    for rs :: "('a, 'b) receiver list" and out :: "('a, 'b) normalized"
    using that by (induction rs arbitrary: out) (auto simp: map_set_new normalize_named)
  show "normalizeReceivers (as_receivers (map (\<lambda>r. (ID r, r)) rs)) = map (\<lambda>r. (ID r, r)) rs"
    using norm[OF assms(1) _ named, of "[]"] by (simp add: normalizeReceivers_def as_receivers_def comp_def)
  show "NewReceivers (map Some rs) = map (\<lambda>r. (ID r, r)) rs"
    using insert[OF assms(1), of "[]"] norm[OF assms(1) _ named, of "[]"] by (simp add: NewReceivers_def normalizeReceivers_def)
qed

lemma SendTo_named:
  assumes rs: "rs \<noteq> []" "distinct (map ID rs)" "\<forall>r \<in> set rs. ID r \<noteq> ReceiverID [] \<and> Name r \<noteq> []" "\<forall>r \<in> set rs. valid_receiver r"
    and n: "NotificationID n \<noteq> []" "Router n = None"
  shows "\<exists>w'. world w' = world w \<and> SendTo (Some Background) (Some n) (map Some rs) w =
    dispatch Background Discard \<lparr>Notification = Some n, PayloadReceiver = [], PayloadCustomData = None\<rparr> (sort_key ID rs) w'"
proof -
  let ?rs = "map (\<lambda>r. (ID r, r)) rs"
  obtain verr w1 where v: "validateReceivers ?rs w = (verr, w1)" by fastforce
  have "verr = None" and w1: "world w1 = world w"
    using validateReceivers_None[of ?rs w] validateReceivers_frame(3)[of ?rs w] rs(4) by (auto simp: v)
  let ?w0 = "\<lparr>now = 0, entropy = [], logs = [], world = world w\<rparr>"
  have "fst (resolveReceivers Discard ?rs [] w1) = fst (resolveReceivers Discard ?rs [] ?w0)"
    using rs(2) by (intro resolveReceivers_deterministic) (simp add: comp_def)
  also have "\<dots> = sort_key ID rs"
    by (simp add: resolveReceivers_def map_range_def comp_def)
  finally obtain w2 where r: "resolveReceivers Discard ?rs [] w1 = (sort_key ID rs, w2)" by (metis prod.collapse)
  have "world w2 = world w1" using r by (auto simp: resolveReceivers_def map_range_def)
  moreover have "sort_key ID rs \<noteq> []" using rs(1) by (metis length_0_conv length_sort)
  ultimately show ?thesis
    using \<open>verr = None\<close> w1 n
    by (auto simp: SendTo_def SendSync_def NewReceivers_named[OF rs(2,3)] v r validateNotificationID_def receiverIDs_def)
qed

section \<open>The program of examples/multiple\<close>

definition request_line :: "string \<Rightarrow> string \<Rightarrow> int \<Rightarrow> int \<Rightarrow> string \<Rightarrow> string \<Rightarrow> piece list" where
  "request_line color name attempt status text body = [Lit ''%s[%s]%s attempt %d -> %d %s | %s'', Str color, Str name,
     Str ansiReset, Num attempt, Num status, Str text, Str body]"

text \<open>What the servers print in a run, with the body of each receiver.\<close>

definition multiple_output :: "(string \<Rightarrow> string \<Rightarrow> string \<Rightarrow> string) \<Rightarrow> piece list list" where
  "multiple_output content =
      [request_line ansiMagenta ''audit'' 1 409 ''Conflict'' (content ''audit'' ''security'' ''production''),
       request_line ansiMagenta ''audit'' 2 200 ''OK'' (content ''audit'' ''security'' ''production''),
       request_line ansiYellow ''dev'' 1 500 ''Internal Server Error'' (content ''dev'' ''developers'' ''development''),
       request_line ansiYellow ''dev'' 2 200 ''OK'' (content ''dev'' ''developers'' ''development''),
       request_line ansiCyan ''ops'' 1 200 ''OK'' (content ''ops'' ''operations'' ''production'')]"

lemma status_texts: "StatusText 200 = ''OK''" "StatusText 409 = ''Conflict''" "StatusText 500 = ''Internal Server Error''"
  by (simp_all add: StatusText_def status_texts_def)

text \<open>The lines of the three servers.\<close>

lemma lines_of:
  assumes "TrimSpace body = body"
  shows "mock_lines \<lparr>api_name = n, api_color = c, api_statuses = [s], api_attempt = 0\<rparr> body 1 =
      [request_line c n 1 s (StatusText s) body]"
    and "mock_lines \<lparr>api_name = n, api_color = c, api_statuses = [s, s'], api_attempt = 0\<rparr> body 2 =
      [request_line c n 1 s (StatusText s) body, request_line c n 2 s' (StatusText s') body]"
  by (simp_all add: mock_lines_def mock_line_def mock_status_def called_def request_line_def assms upt_rec numeral_2_eq_2)

definition alert_payload :: "(any, 'x) receiver \<Rightarrow> any payload" where
  "alert_payload rc = target_payload rc \<lparr>Notification = Some (Alert_notification down_alert), PayloadReceiver = [], PayloadCustomData = None\<rparr>"

lemma alert_sel: "NotificationID (Alert_notification down_alert) = ''alert-api-down''" "Router (Alert_notification down_alert) = None"
  by (simp_all add: Alert_notification_def Alert_ID_def down_alert_def)

lemma payload_fields:
  "any_field (Payload_Data AnyNil (alert_payload rc) t) ''Service'' = Some (AnyString ''api'')"
  "any_field (Payload_Data AnyNil (alert_payload rc) t) ''Status'' = Some (AnyString ''down'')"
  "any_field (Payload_Data AnyNil (alert_payload rc) t) ''Title'' = Some (AnyString t)"
  "any_field (Payload_Data AnyNil (alert_payload rc) t) ''Receiver'' = Some (AnyString (Name rc))"
  "any_field (Payload_Data AnyNil (alert_payload rc) t) ''CustomData'' = Some (AnyMap (CustomData rc))"
  by (simp_all add: alert_payload_def target_payload_def Payload_Data_def Alert_notification_def Alert_Data_def down_alert_def)

text \<open>What the three receivers are.\<close>

lemma receivers_sel:
  "ops_receiver lib url t b = Some \<lparr>ID = ReceiverID ''ops'', Name = ''ops'', Retry = zero_retry,
     Targets = [mock_target lib (mock_webhook ''mock-ops-api'' url t b (NewClient (5 * Second) []))],
     CustomData = Some [(''team'', AnyString ''operations''), (''environment'', AnyString ''production'')]\<rparr>"
  "dev_receiver lib url t b = Some \<lparr>ID = ReceiverID ''dev'', Name = ''dev'',
     Retry = \<lparr>Count = 3, Backoff = Second, MaxBackoff = 10 * Second, Jitter = True, Policy = Some DefaultRetryPolicy\<rparr>,
     Targets = [mock_target lib (mock_webhook ''mock-dev-api'' url t b (NewClient (5 * Second) []))],
     CustomData = Some [(''team'', AnyString ''developers''), (''environment'', AnyString ''development'')]\<rparr>"
  "audit_receiver lib url t b = Some \<lparr>ID = ReceiverID ''audit'', Name = ''audit'',
     Retry = \<lparr>Count = 2, Backoff = 500 * Millisecond, MaxBackoff = 0, Jitter = False,
       Policy = Some (AnyRetryPolicy [Some (RetryOnStatusCode [409]), Some RetryOnServerError])\<rparr>,
     Targets = [mock_target lib (mock_webhook ''mock-audit-api'' url t b (NewClient (5 * Second) []))],
     CustomData = Some [(''team'', AnyString ''security''), (''environment'', AnyString ''production'')]\<rparr>"
  by (simp_all add: ops_receiver_def dev_receiver_def audit_receiver_def NewReceiver_def WithRetry_def WithCustomData_def)

lemma retried:
  "Policy cfg = Some DefaultRetryPolicy \<Longrightarrow> retried_status cfg 500"
  "Policy cfg = Some (AnyRetryPolicy [Some (RetryOnStatusCode [409]), Some RetryOnServerError]) \<Longrightarrow> retried_status cfg 409"
  by (auto simp: retried_status_def final_status_def gives_up_def DefaultRetryPolicy_iff AnyRetryPolicy_def
      RetryOnStatusCode_iff)

lemma final_200: "final_status 200"
  by (simp add: final_status_def)

lemma retries_allowed: "max_attempts zero_retry = 1" "Count cfg = 3 \<Longrightarrow> max_attempts cfg = 4" "Count cfg = 2 \<Longrightarrow> max_attempts cfg = 3"
  by (simp_all add: max_attempts_eq int64_def zero_retry_def)

lemma multiple_ready:
  assumes "http_url lib url" and "\<forall>t r u e. json_Valid lib (multiple_body json t r u e)"
    and tx: "\<forall>d s t. any_field d ''Service'' = Some (AnyString s) \<and> any_field d ''Status'' = Some (AnyString t) \<longrightarrow>
      tx d = Inr (s @ '' is '' @ t)"
    and bx: "\<forall>d c t r u e. any_field d ''Title'' = Some (AnyString t) \<and> any_field d ''Receiver'' = Some (AnyString r) \<and>
      any_field d ''CustomData'' = Some c \<and> any_field c ''team'' = Some (AnyString u) \<and>
      any_field c ''environment'' = Some (AnyString e) \<longrightarrow> bx d = Inr (multiple_body json t r u e)"
    and data: "CustomData rc = Some [(''team'', AnyString u), (''environment'', AnyString e)]"
  shows "wh_ready lib AnyNil (Some (mock_webhook n url (StringTemplate (Some tx)) (Template (Some bx)) c)) (alert_payload rc) =
    Some (multiple_body json ''api is down'' (Name rc) u e)"
proof (rule mock_webhook_ready[OF assms(1)])
  show "tx (Payload_Data AnyNil (alert_payload rc) []) = Inr ''api is down''"
    using tx[rule_format, of "Payload_Data AnyNil (alert_payload rc) []" "''api''" "''down''"] by (simp add: payload_fields)
  show "bx (Payload_Data AnyNil (alert_payload rc) ''api is down'') = Inr (multiple_body json ''api is down'' (Name rc) u e)"
    by (rule bx[rule_format, of _ _ _ "AnyMap (CustomData rc)"]) (simp add: payload_fields data)
qed (simp_all add: body_trimmed assms(2))

text \<open>The three deliveries, one after the other.\<close>

lemma dispatch_three:
  assumes "dispatchReceiver Background lg a p w = Some (None, w1)" and "dispatchReceiver Background lg d p w1 = Some (None, w2)"
    and "dispatchReceiver Background lg q p w2 = Some (None, w3)"
  shows "dispatch Background lg p [a, d, q] w = Some (None, w3)"
  by (simp add: dispatch_def assms)

lemma multiple_dispatch:
  assumes net: "local_network mock_handler lib" and urls: "distinct [opsURL, devURL, auditURL]"
    and ready: "\<And>n url (rc :: (any, mock_api local_world) receiver) u e. url \<in> {opsURL, devURL, auditURL} \<Longrightarrow>
      CustomData rc = Some [(''team'', AnyString u), (''environment'', AnyString e)] \<Longrightarrow>
      wh_ready lib AnyNil (Some (mock_webhook n url title body (NewClient (5 * Second) []))) (alert_payload rc) = Some (content (Name rc) u e)"
    and trim: "\<And>r u e. TrimSpace (content r u e) = content r u e"
    and start: "map_get (servers x) opsURL = Some \<lparr>api_name = ''ops'', api_color = ansiCyan, api_statuses = [200], api_attempt = 0\<rparr>"
      "map_get (servers x) devURL = Some \<lparr>api_name = ''dev'', api_color = ansiYellow, api_statuses = [500, 200], api_attempt = 0\<rparr>"
      "map_get (servers x) auditURL = Some \<lparr>api_name = ''audit'', api_color = ansiMagenta, api_statuses = [409, 200], api_attempt = 0\<rparr>"
    and w: "world w = x"
  shows "\<exists>w'. dispatch Background Discard
      \<lparr>Notification = Some (Alert_notification down_alert), PayloadReceiver = [], PayloadCustomData = None\<rparr>
      (map the [audit_receiver lib auditURL title body, dev_receiver lib devURL title body, ops_receiver lib opsURL title body]) w =
        Some (None, w') \<and>
    printed (world w') = printed x @ multiple_output content \<and>
    (\<forall>u. u \<notin> {opsURL, devURL, auditURL} \<longrightarrow> map_get (servers (world w')) u = map_get (servers x) u)"
proof -
  let ?p = "\<lparr>Notification = Some (Alert_notification down_alert), PayloadReceiver = [], PayloadCustomData = None\<rparr>"
  let ?a = "the (audit_receiver lib auditURL title body)" and ?d = "the (dev_receiver lib devURL title body)"
  let ?o = "the (ops_receiver lib opsURL title body)"
  let ?t = "\<lambda>n url. mock_webhook n url title body (NewClient (5 * Second) [])"
  have step: "\<exists>w'. dispatchReceiver Background Discard rc ?p v = Some (None, w') \<and>
      after_calls url a (content (Name rc) u e) (world v) (Suc k) (world w')"
    if "url \<in> {opsURL, devURL, auditURL}" and "CustomData rc = Some [(''team'', AnyString u), (''environment'', AnyString e)]"
      and "Targets rc = [mock_target lib (?t n url)]" and "map_get (servers (world v)) url = Some a"
      and "api_attempt a = 0" "k < length (api_statuses a)" "int k < max_attempts (Retry rc)"
      and "\<And>i. i < k \<Longrightarrow> retried_status (Retry rc) (api_statuses a ! i)"
      and "final_status (api_statuses a ! k)" "api_statuses a ! k < 300" for rc v url u e n a k
    using mock_receiver[OF net ready[OF that(1,2), unfolded alert_payload_def] _ that(5-10) mock_posts that(3)] that(4) by simp
  obtain w1 where w1: "dispatchReceiver Background Discard ?a ?p w = Some (None, w1)"
    "after_calls auditURL \<lparr>api_name = ''audit'', api_color = ansiMagenta, api_statuses = [409, 200], api_attempt = 0\<rparr>
       (content ''audit'' ''security'' ''production'') x 2 (world w1)"
    using step[of auditURL ?a "''security''" "''production''" "''mock-audit-api''" w _ 1] start(3)
    by (auto simp: receivers_sel w retries_allowed retried final_200 numeral_2_eq_2)
  obtain w2 where w2: "dispatchReceiver Background Discard ?d ?p w1 = Some (None, w2)"
    "after_calls devURL \<lparr>api_name = ''dev'', api_color = ansiYellow, api_statuses = [500, 200], api_attempt = 0\<rparr>
       (content ''dev'' ''developers'' ''development'') (world w1) 2 (world w2)"
    using step[of devURL ?d "''developers''" "''development''" "''mock-dev-api''" w1 _ 1] w1(2) urls start(2)
    by (auto simp: receivers_sel retries_allowed retried final_200 numeral_2_eq_2 after_calls_def)
  obtain w3 where w3: "dispatchReceiver Background Discard ?o ?p w2 = Some (None, w3)"
    "after_calls opsURL \<lparr>api_name = ''ops'', api_color = ansiCyan, api_statuses = [200], api_attempt = 0\<rparr>
       (content ''ops'' ''operations'' ''production'') (world w2) 1 (world w3)"
    using step[of opsURL ?o "''operations''" "''production''" "''mock-ops-api''" w2 _ 0] w1(2) w2(2) urls start(1)
    by (auto simp: receivers_sel retries_allowed final_200 after_calls_def)
  have "dispatch Background Discard ?p [?a, ?d, ?o] w = Some (None, w3)"
    by (rule dispatch_three[OF w1(1) w2(1) w3(1)])
  moreover have "printed (world w3) = printed x @ mock_lines \<lparr>api_name = ''audit'', api_color = ansiMagenta, api_statuses = [409, 200], api_attempt = 0\<rparr>
      (content ''audit'' ''security'' ''production'') 2 @
    mock_lines \<lparr>api_name = ''dev'', api_color = ansiYellow, api_statuses = [500, 200], api_attempt = 0\<rparr>
      (content ''dev'' ''developers'' ''development'') 2 @
    mock_lines \<lparr>api_name = ''ops'', api_color = ansiCyan, api_statuses = [200], api_attempt = 0\<rparr>
      (content ''ops'' ''operations'' ''production'') 1"
    using w1(2) w2(2) w3(2) by (simp add: after_calls_def)
  moreover have "\<forall>u. u \<notin> {opsURL, devURL, auditURL} \<longrightarrow> map_get (servers (world w3)) u = map_get (servers x) u"
    using w1(2) w2(2) w3(2) by (simp add: after_calls_def)
  ultimately show ?thesis unfolding lines_of[OF trim] status_texts multiple_output_def by (intro exI[of _ w3]) simp
qed

lemma parsed_title:
  assumes "renders_title tlib"
  obtains tx where "ParseStringTemplate tlib ''title'' title_template [] = Some (Inr (StringTemplate (Some tx)))"
    "\<forall>d s t. any_field d ''Service'' = Some (AnyString s) \<and> any_field d ''Status'' = Some (AnyString t) \<longrightarrow>
      tx d = Inr (s @ '' is '' @ t)"
proof -
  obtain tx where "text_Parse tlib ''title'' ''missingkey=error'' [] title_template = Inr tx"
    "\<forall>d s t. any_field d ''Service'' = Some (AnyString s) \<and> any_field d ''Status'' = Some (AnyString t) \<longrightarrow>
      tx d = Inr (s @ '' is '' @ t)"
    using assms unfolding renders_title_def by blast
  moreover have "title_template \<noteq> []" by (simp add: title_template_def)
  ultimately show ?thesis
    using assms that[of tx] by (simp add: renders_title_def ParseStringTemplate_def wrap_call_def parse_plain)
qed

lemma parsed_body:
  assumes "text_Parse tlib ''webhook'' ''missingkey=error'' (maps_Copy [] (tmplfuncs_FuncMap tlib)) template = Inr bx"
    and "\<not> Funcs_panics tlib (maps_Copy [] (tmplfuncs_FuncMap tlib))" and "template \<noteq> []"
  shows "ParseTemplate tlib ''webhook'' template [WithDefaultFuncs] = Some (Inr (Template (Some bx)))"
  using assms by (simp add: ParseTemplate_def wrap_call_def parse_with_defaults[OF refl])

lemma servers_started [simp]:
  "map_get (servers (world (start_server url s w))) u = (if u = url then Some s else map_get (servers (world w)) u)"
  "printed (world (start_server url s w)) = printed (world w)"
  "map_get (servers (world (stop_server url w))) u = (if u = url then None else map_get (servers (world w)) u)"
  "printed (world (stop_server url w)) = printed (world w)"
  by (simp_all add: start_server_def stop_server_def)

text \<open>
  C40: run on a machine whose local network works, with templates that render, the program of
  examples/multiple ends without a panic, and its servers' handlers print exactly five lines, one
  per request: the receivers are served in the order of their IDs and not of the call, the
  conflict of audit is retried by its own policy and the server error of dev by the default one,
  ops gets one request, and every request has the body rendered with that receiver's own data.
  In the end its servers are stopped and all others are as they were. The records of the
  structured logger, which the program sends to the standard output as well, are in the log of
  the runtime and not among these lines.
\<close>

theorem multiple_program:
  assumes "local_network mock_handler lib" and "renders_title tlib" and "renders_multiple tlib json"
    and "\<forall>t r u e. json_Valid lib (multiple_body json t r u e)"
    and "\<forall>url \<in> {opsURL, devURL, auditURL}. http_url lib url" and "distinct [opsURL, devURL, auditURL]"
  shows "\<exists>w'. multiple_main tlib lib opsURL devURL auditURL w = Some w' \<and>
    printed (world w') = printed (world w) @ multiple_output (multiple_body json ''api is down'') \<and>
    (\<forall>url. map_get (servers (world w')) url =
       (if url \<in> {opsURL, devURL, auditURL} then None else map_get (servers (world w)) url))"
proof -
  obtain tx where title: "ParseStringTemplate tlib ''title'' title_template [] = Some (Inr (StringTemplate (Some tx)))"
    and tx: "\<forall>d s t. any_field d ''Service'' = Some (AnyString s) \<and> any_field d ''Status'' = Some (AnyString t) \<longrightarrow>
      tx d = Inr (s @ '' is '' @ t)"
    by (rule parsed_title[OF assms(2)])
  obtain bx where parsed: "text_Parse tlib ''webhook'' ''missingkey=error'' (maps_Copy [] (tmplfuncs_FuncMap tlib)) multiple_template = Inr bx"
    and bx: "\<forall>d c t r u e. any_field d ''Title'' = Some (AnyString t) \<and> any_field d ''Receiver'' = Some (AnyString r) \<and>
      any_field d ''CustomData'' = Some c \<and> any_field c ''team'' = Some (AnyString u) \<and>
      any_field c ''environment'' = Some (AnyString e) \<longrightarrow> bx d = Inr (multiple_body json t r u e)"
    using assms(3) unfolding renders_multiple_def Let_def by blast
  have body: "ParseTemplate tlib ''webhook'' multiple_template [WithDefaultFuncs] = Some (Inr (Template (Some bx)))"
    using assms(3) by (intro parsed_body[OF parsed]) (simp_all add: renders_multiple_def Let_def multiple_template_def)
  let ?st = "StringTemplate (Some tx)" and ?bt = "Template (Some bx)"
  let ?w3 = "mockExternalAPI auditURL ''audit'' ansiMagenta [409, 200] (mockExternalAPI devURL ''dev'' ansiYellow [500, 200]
    (mockExternalAPI opsURL ''ops'' ansiCyan [200] w))"
  obtain w3 where w3: "world w3 = world ?w3"
    and send: "SendTo (Some Background) (Some (Alert_notification down_alert))
      [ops_receiver lib opsURL ?st ?bt, dev_receiver lib devURL ?st ?bt, audit_receiver lib auditURL ?st ?bt] ?w3 =
      dispatch Background Discard \<lparr>Notification = Some (Alert_notification down_alert), PayloadReceiver = [], PayloadCustomData = None\<rparr>
        (map the [audit_receiver lib auditURL ?st ?bt, dev_receiver lib devURL ?st ?bt, ops_receiver lib opsURL ?st ?bt]) w3"
    using SendTo_named[of "map the [ops_receiver lib opsURL ?st ?bt, dev_receiver lib devURL ?st ?bt,
      audit_receiver lib auditURL ?st ?bt]" "Alert_notification down_alert" ?w3]
    by (auto simp: receivers_sel valid_receiver_def mock_target_def alert_sel less_eq_receiver_id_def)
  have url: "http_url lib url" if "url \<in> {opsURL, devURL, auditURL}" for url using assms(5) that by blast
  let ?text = "multiple_body json ''api is down''"
  obtain w4 where w4: "dispatch Background Discard
        \<lparr>Notification = Some (Alert_notification down_alert), PayloadReceiver = [], PayloadCustomData = None\<rparr>
        (map the [audit_receiver lib auditURL ?st ?bt, dev_receiver lib devURL ?st ?bt, ops_receiver lib opsURL ?st ?bt]) w3 = Some (None, w4)"
    "printed (world w4) = printed (world ?w3) @ multiple_output ?text"
    "\<forall>u. u \<notin> {opsURL, devURL, auditURL} \<longrightarrow> map_get (servers (world w4)) u = map_get (servers (world ?w3)) u"
    using multiple_dispatch[OF assms(1,6), where content = ?text and x = "world ?w3" and title = ?st and body = ?bt and w = w3,
        OF multiple_ready[OF url assms(4) tx bx] body_trimmed(1) _ _ _ w3] assms(6)
    by (auto simp: mockExternalAPI_def)
  have "multiple_main tlib lib opsURL devURL auditURL w = Some (stop_server opsURL (stop_server devURL (stop_server auditURL w4)))"
    by (simp add: multiple_main_def Let_def title body send w4(1) del: list.map)
  then show ?thesis using w4(2,3) by (auto simp: mockExternalAPI_def)
qed

text \<open>A machine for it: servers answer at once, and the templates write their fields.\<close>

definition local_lib :: "'s handler \<Rightarrow> 's local_world http_lib" where
  "local_lib handler = \<lparr>NewRequest = (\<lambda>method url. Inr (''http'', url)), json_Valid = (\<lambda>_. True), ParseTime = (\<lambda>_. None),
     Do = (\<lambda>client ctx req w. case map_get (servers (world w)) (Req_url req) of
         None \<Rightarrow> (Inl EOF, w)
       | Some s \<Rightarrow> (case handler s (Req_body req, None) of (s', out, status, content) \<Rightarrow>
           (Inr \<lparr>Resp_Status = StatusText status, Resp_StatusCode = status, Resp_Header = [], Resp_Body = (content, None)\<rparr>,
            w\<lparr>world := answered (Req_url req) s' out (world w)\<rparr>)))\<rparr>"

fun field_text :: "any option \<Rightarrow> string" where
  "field_text (Some (AnyString s)) = s"
| "field_text _ = []"

definition demo_templates :: "(any, unit) template_lib" where
  "demo_templates = \<lparr>
     text_Parse = (\<lambda>name opt fm source. Inr (\<lambda>d. Inr (
       if source = title_template then field_text (any_field d ''Service'') @ '' is '' @ field_text (any_field d ''Status'')
       else if source = single_template then single_body quoted (field_text (any_field d ''Title'')) (field_text (any_field d ''Receiver''))
       else case any_field d ''CustomData'' of None \<Rightarrow> []
         | Some c \<Rightarrow> multiple_body quoted (field_text (any_field d ''Title'')) (field_text (any_field d ''Receiver''))
             (field_text (any_field c ''team'')) (field_text (any_field c ''environment''))))),
     html_Parse = (\<lambda>name opt fm source. Inl EOF), Funcs_panics = (\<lambda>_. False), tmplfuncs_FuncMap = [(''json'', ())],
     os_ReadFile = (\<lambda>_. Inl EOF)\<rparr>"

lemma local_lib_works: "local_network handler (local_lib handler)" "json_Valid (local_lib handler) s" "url \<noteq> [] \<Longrightarrow> http_url (local_lib handler) url"
  by (auto simp: local_network_def local_lib_def http_url_def)

lemma demo_templates_render: "renders_title demo_templates" "renders_multiple demo_templates quoted" "renders_single demo_templates quoted"
proof -
  have "multiple_template \<noteq> title_template" "single_template \<noteq> title_template" "multiple_template \<noteq> single_template"
    by (simp_all add: multiple_template_def title_template_def single_template_def quoted_def)
  then show "renders_title demo_templates" "renders_multiple demo_templates quoted" "renders_single demo_templates quoted"
    by (auto simp: renders_title_def renders_multiple_def renders_single_def demo_templates_def Let_def)
qed

lemma multiple_program_witness:
  "\<exists>w'. multiple_main demo_templates (local_lib mock_handler) ''http://a'' ''http://b'' ''http://c''
      \<lparr>now = 0, entropy = [2, 0, 1, 7], logs = [], world = \<lparr>servers = [], printed = []\<rparr>\<rparr> = Some w' \<and>
    length (printed (world w')) = 5 \<and>
    hd (printed (world w')) = request_line ansiMagenta ''audit'' 1 409 ''Conflict''
      (multiple_body quoted ''api is down'' ''audit'' ''security'' ''production'')"
proof -
  obtain w' where "multiple_main demo_templates (local_lib mock_handler) ''http://a'' ''http://b'' ''http://c''
      \<lparr>now = 0, entropy = [2, 0, 1, 7], logs = [], world = \<lparr>servers = [], printed = []\<rparr>\<rparr> = Some w'"
    "printed (world w') = multiple_output (multiple_body quoted ''api is down'')"
    using multiple_program[of "local_lib mock_handler" demo_templates quoted "''http://a''" "''http://b''" "''http://c''"
        "\<lparr>now = 0, entropy = [2, 0, 1, 7], logs = [], world = \<lparr>servers = [], printed = []\<rparr>\<rparr>"]
    by (auto simp: local_lib_works demo_templates_render)
  then show ?thesis by (auto simp: multiple_output_def)
qed

section \<open>The program of examples/single\<close>

lemma single_receiver_sel:
  "single_receiver lib url t b = Some \<lparr>ID = ReceiverID ''ops'', Name = ''ops'',
     Retry = \<lparr>Count = 2, Backoff = Second, MaxBackoff = 0, Jitter = False, Policy = Some DefaultRetryPolicy\<rparr>,
     Targets = [mock_target lib (mock_webhook ''mock-ops-api'' url t b (NewClient (5 * Second) []))], CustomData = None\<rparr>"
  by (simp add: single_receiver_def NewReceiver_def WithRetry_def)

lemma single_ready:
  assumes "http_url lib url" and "\<forall>t r. json_Valid lib (single_body json t r)"
    and tx: "\<forall>d s t. any_field d ''Service'' = Some (AnyString s) \<and> any_field d ''Status'' = Some (AnyString t) \<longrightarrow>
      tx d = Inr (s @ '' is '' @ t)"
    and bx: "\<forall>d t r. any_field d ''Title'' = Some (AnyString t) \<and> any_field d ''Receiver'' = Some (AnyString r) \<longrightarrow>
      bx d = Inr (single_body json t r)"
  shows "wh_ready lib AnyNil (Some (mock_webhook n url (StringTemplate (Some tx)) (Template (Some bx)) c)) (alert_payload rc) =
    Some (single_body json ''api is down'' (Name rc))"
proof (rule mock_webhook_ready[OF assms(1)])
  show "tx (Payload_Data AnyNil (alert_payload rc) []) = Inr ''api is down''"
    using tx[rule_format, of "Payload_Data AnyNil (alert_payload rc) []" "''api''" "''down''"] by (simp add: payload_fields)
  show "bx (Payload_Data AnyNil (alert_payload rc) ''api is down'') = Inr (single_body json ''api is down'' (Name rc))"
    by (rule bx[rule_format]) (simp add: payload_fields)
qed (simp_all add: body_trimmed assms(2))

text \<open>
  The server of this program always succeeds, so the first attempt is the last one, whatever
  the retry configuration.
\<close>

lemma single_delivery:
  assumes net: "local_network single_handler lib" and ready: "wh_ready lib AnyNil (Some t) (target_payload rc p) = Some body"
    and server: "map_get (servers (world w)) (wh_URL t) = Some n" and "Targets rc = [mock_target lib t]" and posts: "posts_locally t"
  shows "\<exists>w'. dispatch Background lg p [rc] w = Some (None, w') \<and> world w' = answered (wh_URL t) n
    [[Lit ''mock external API %q received webhook notification'', Quo n]] (world w)"
proof -
  let ?y = "answered (wh_URL t) n [[Lit ''mock external API %q received webhook notification'', Quo n]] (world w)"
  let ?P = "\<lambda>i y. y = (if i = 0 then world w else ?y)" and ?t = "webhook_target lib AnyNil (Some t)"
  let ?fn = "Send ?t Background (target_payload rc p)"
  have "\<exists>r v'. ?fn v = ((r, None), v') \<and> world v' = ?y" if "world v = world w" for v
    using send_local[OF net ready, of v n n "[[Lit ''mock external API %q received webhook notification'', Quo n]]" 200 "''ok''"] server that posts final_200
    by (auto simp: webhook_target_def single_handler_def)
  then obtain r w' where "withRetry Background (target_logger lg rc ?t p 0) (Retry rc) ?fn w = ((r, 1, None), w')" "world w' = ?y"
    using withRetry_chain[of 0 ?P ?fn "Retry rc" w "target_logger lg rc ?t p 0"] by auto
  then show ?thesis
    by (simp add: dispatch_def dispatchReceiver_def assms(4) mock_target_def send_target_def Let_def)
qed

theorem single_program:
  assumes "local_network single_handler lib" and "renders_title tlib" and "renders_single tlib json"
    and "\<forall>t r. json_Valid lib (single_body json t r)" and "http_url lib webhookURL"
  shows "\<exists>w'. single_main tlib lib webhookURL w = Some w' \<and>
    printed (world w') = printed (world w) @ [[Lit ''mock external API %q received webhook notification'', Quo ''ops'']] \<and>
    (\<forall>url. map_get (servers (world w')) url = (if url = webhookURL then None else map_get (servers (world w)) url))"
proof -
  obtain tx where title: "ParseStringTemplate tlib ''title'' title_template [] = Some (Inr (StringTemplate (Some tx)))"
    and tx: "\<forall>d s t. any_field d ''Service'' = Some (AnyString s) \<and> any_field d ''Status'' = Some (AnyString t) \<longrightarrow>
      tx d = Inr (s @ '' is '' @ t)"
    by (rule parsed_title[OF assms(2)])
  obtain bx where parsed: "text_Parse tlib ''webhook'' ''missingkey=error'' (maps_Copy [] (tmplfuncs_FuncMap tlib)) single_template = Inr bx"
    and bx: "\<forall>d t r. any_field d ''Title'' = Some (AnyString t) \<and> any_field d ''Receiver'' = Some (AnyString r) \<longrightarrow>
      bx d = Inr (single_body json t r)"
    using assms(3) unfolding renders_single_def Let_def by blast
  have body: "ParseTemplate tlib ''webhook'' single_template [WithDefaultFuncs] = Some (Inr (Template (Some bx)))"
    using assms(3) by (intro parsed_body[OF parsed]) (simp_all add: renders_single_def Let_def single_template_def)
  let ?w1 = "single_mockExternalAPI webhookURL ''ops'' w" and ?rc = "the (single_receiver lib webhookURL (StringTemplate (Some tx)) (Template (Some bx)))"
  obtain w1 where w1: "world w1 = world ?w1"
    and send: "SendTo (Some Background) (Some (Alert_notification down_alert)) (map Some [?rc]) ?w1 =
      dispatch Background Discard \<lparr>Notification = Some (Alert_notification down_alert), PayloadReceiver = [], PayloadCustomData = None\<rparr> [?rc] w1"
    using SendTo_named[of "[?rc]" "Alert_notification down_alert" ?w1]
    by (auto simp: single_receiver_sel valid_receiver_def mock_target_def alert_sel)
  note ready = single_ready[OF assms(5,4) tx bx, where rc = ?rc and n = "''mock-ops-api''" and c = "NewClient (5 * Second) []",
      unfolded alert_payload_def]
  obtain w2 where w2: "dispatch Background Discard \<lparr>Notification = Some (Alert_notification down_alert), PayloadReceiver = [], PayloadCustomData = None\<rparr>
      [?rc] w1 = Some (None, w2)"
    "world w2 = answered webhookURL ''ops'' [[Lit ''mock external API %q received webhook notification'', Quo ''ops'']] (world ?w1)"
    using single_delivery[OF assms(1) ready, of w1 "''ops''" Discard] w1 mock_posts
    by (auto simp: single_receiver_sel single_mockExternalAPI_def)
  have "single_main tlib lib webhookURL w = Some (stop_server webhookURL w2)"
    using send w2(1) by (simp add: single_main_def Let_def title body single_receiver_sel)
  then show ?thesis using w2(2) by (auto simp: single_mockExternalAPI_def answered_def)
qed

end
