(* ===== verification/Error_Methods.thy ===== *)
theory Error_Methods
  imports Errors
begin

text \<open>
  The methods \<open>Error\<close> and \<open>Unwrap\<close> of the program's own error types, as they are written: on
  the fields of the receiver, a pointer receiver being nil or not. \<open>Errors\<close> works with error
  values whose causes are there; here is that \<open>error_text\<close> and \<open>chain\<close> are what dispatching on
  these methods gives.
\<close>

text \<open>The verb \<open>%v\<close> on an error, which may be nil.\<close>

definition format_error :: "go_error option \<Rightarrow> piece list" where
  "format_error err = (case err of None \<Rightarrow> [Lit ''<nil>''] | Some e \<Rightarrow> error_text e)"

section \<open>notify/error.go\<close>

definition permanentError_Error :: "go_error \<Rightarrow> piece list" where
  "permanentError_Error err = error_text err"

definition permanentError_Unwrap :: "go_error \<Rightarrow> go_error" where
  "permanentError_Unwrap err = err"

definition transportError_Error :: "go_error \<Rightarrow> piece list" where
  "transportError_Error err = error_text err"

definition transportError_Unwrap :: "go_error \<Rightarrow> go_error" where
  "transportError_Unwrap err = err"

section \<open>targets/email\<close>

text \<open>The exported struct may have no cause. \<open>isTimeout\<close> takes a nil error too.\<close>

type_synonym operation_error = "string \<times> int \<times> go_error option"

definition isTimeout :: "go_error option \<Rightarrow> bool" where
  "isTimeout err = (case err of None \<Rightarrow> False
     | Some e \<Rightarrow> errors_Is DeadlineExceeded e \<or>
         (case errors_As is_net_error e of Some network \<Rightarrow> net_error network = Some True | None \<Rightarrow> False))"

definition OperationError_Error :: "operation_error option \<Rightarrow> piece list" where
  "OperationError_Error e = (case e of
       None \<Rightarrow> [Lit ''SMTP operation failed'']
     | Some (operation, timeout, err) \<Rightarrow>
         if isTimeout err then [Lit ''SMTP %s timed out after %s'', Str operation, Dur timeout]
         else [Lit ''SMTP %s failed: %v'', Str operation] @ format_error err)"

definition OperationError_Unwrap :: "operation_error option \<Rightarrow> go_error option" where
  "OperationError_Unwrap e = (case e of None \<Rightarrow> None | Some (operation, timeout, err) \<Rightarrow> err)"

definition ProxyError_Error :: "(int \<times> string) option \<Rightarrow> piece list" where
  "ProxyError_Error e = (case e of
       None \<Rightarrow> [Lit ''SMTP proxy CONNECT failed'']
     | Some (code, status) \<Rightarrow> [Lit ''SMTP proxy CONNECT failed: '', Str status])"

section \<open>targets/webhook\<close>

definition redactedError_Error :: "go_error \<Rightarrow> string \<Rightarrow> piece list" where
  "redactedError_Error cause message = [Str message]"

definition redactedError_Unwrap :: "go_error \<Rightarrow> string \<Rightarrow> go_error" where
  "redactedError_Unwrap cause message = cause"

section \<open>Dispatch\<close>

text \<open>What the \<open>Unwrap\<close> method of an error gives, none for an error without one.\<close>

fun Unwrap :: "go_error \<Rightarrow> go_error list" where
  "Unwrap (Errorf f ps (Some e)) = [e]"
| "Unwrap (PermanentError e) = [permanentError_Unwrap e]"
| "Unwrap (TransportError e) = [transportError_Unwrap e]"
| "Unwrap (DeliveryError r t i n d e) = [e]"
| "Unwrap (JoinError es) = es"
| "Unwrap (NetError m t s (Some e)) = [e]"
| "Unwrap (UrlError op u e) = [e]"
| "Unwrap (CertificateVerificationError e) = [e]"
| "Unwrap (OperationError op t e) = (case OperationError_Unwrap (Some (op, t, Some e)) of None \<Rightarrow> [] | Some c \<Rightarrow> [c])"
| "Unwrap (RedactedError e m) = [redactedError_Unwrap e m]"
| "Unwrap e = []"

lemmas method_defs = permanentError_Error_def permanentError_Unwrap_def transportError_Error_def
  transportError_Unwrap_def OperationError_Error_def OperationError_Unwrap_def ProxyError_Error_def
  redactedError_Error_def redactedError_Unwrap_def format_error_def

lemma isTimeout_Some: "isTimeout (Some e) = isTimeoutError e"
  by (simp add: isTimeout_def isTimeoutError_def)

text \<open>The errors \<open>errors.Is\<close> and \<open>errors.As\<close> visit: depth first along \<open>Unwrap\<close>.\<close>

lemma chain_Unwrap: "chain e = e # concat (map chain (Unwrap e))"
  by (cases e rule: chain.cases) (simp_all add: method_defs)

lemma chain_closed: "c \<in> set (chain e) \<Longrightarrow> u \<in> set (Unwrap c) \<Longrightarrow> u \<in> set (chain e)"
proof (induction e arbitrary: c rule: measure_induct_rule[of size])
  case (less e)
  have smaller: "size x < size e" if "x \<in> set (Unwrap e)" for x
    using that by (cases e rule: Unwrap.cases) (auto simp: method_defs dest: size_list_estimation'[of _ _ _ size])
  show ?case
  proof (cases "c = e")
    case True
    then have "u \<in> set (Unwrap e)" using less.prems(2) by simp
    then have "u \<in> set (concat (map chain (Unwrap e)))" by (auto intro!: bexI[of _ u])
    then show ?thesis unfolding chain_Unwrap[of e] by simp
  next
    case False
    then obtain x where "x \<in> set (Unwrap e)" "c \<in> set (chain x)" using less.prems(1) chain_Unwrap[of e] by auto
    then show ?thesis using less.IH[OF smaller] less.prems(2) chain_Unwrap[of e] by auto
  qed
qed

text \<open>The messages are those of the methods.\<close>

lemma error_text_methods:
  "error_text (PermanentError e) = permanentError_Error e"
  "error_text (TransportError e) = transportError_Error e"
  "error_text (OperationError op t e) = OperationError_Error (Some (op, t, Some e))"
  "error_text (ProxyError c s) = ProxyError_Error (Some (c, s))"
  "error_text (RedactedError e m) = redactedError_Error e m"
  by (simp_all add: method_defs isTimeout_Some)

text \<open>
  Marking an error changes neither its message nor what \<open>errors.Is\<close> finds in it, apart from
  the mark itself.
\<close>

lemma marks_transparent:
  "Permanent (Some e) = Some e' \<Longrightarrow> error_text e' = error_text e \<and> set (chain e) \<subseteq> set (chain e')"
  "Transport (Some e) = Some e' \<Longrightarrow> error_text e' = error_text e \<and> set (chain e) \<subseteq> set (chain e')"
  by (auto simp: Permanent_def Transport_def split: if_splits)

end
