(* ===== verification/Spec2Isabelle.thy ===== *)
theory Spec2Isabelle
  imports Manager_Properties Notify_Properties Target_Properties Example_Properties Error_Methods
begin

text \<open>
  notifykit is a Go library that delivers notifications. A \<^bold>\<open>notification\<close> is resolved
  to \<^bold>\<open>receivers\<close>, each with \<^bold>\<open>targets\<close> and a retry configuration; the delivery engine
  sends it to every target of every receiver through a retry loop; a \<^bold>\<open>manager\<close> queues
  notifications and lets workers deliver them in the background. Two targets come with the
  library, a webhook (HTTP) and email (SMTP, possibly through an HTTP proxy), and both render
  their content with templates. This development models all of these packages and proves what
  each promises to the next one.

  \<^bold>\<open>Parts and theories.\<close> File names are below \<open>src/\<close>. Definitions have the names of the Go
  functions; those of the two targets have the prefixes \<open>wh_\<close> and \<open>em_\<close> where both packages use
  the same name.

    \<^item> \<open>Prelude\<close>: 64-bit integers (values of \<open>int\<close>, every operation that can leave the range
      followed by \<open>wrap64\<close>, which is proved to be reading a 64-bit word back), Go maps as
      association lists with distinct keys, list and multiset lemmas, the lemma collections.
    \<^item> \<open>Go_Runtime\<close>: the state every effectful definition takes and returns: clock, log,
      contexts, and a stream of choices for what Go leaves open (map order, random numbers).
      The component \<open>world\<close> is the state of servers and targets and is arbitrary.
    \<^item> \<open>Go_Channel\<close>: buffered channels, as a locale and as the model of the runtime's.
    \<^item> \<open>Notebook\<close>: a runtime state with a notebook beside the world. A parameter of the model
      (a target, the HTTP client) that writes its calls down makes them visible to a statement
      without changing what the code does with it.
    \<^item> \<open>Go_Strings\<close>, \<open>Go_Text\<close>, \<open>Go_Net\<close>, \<open>Go_Mime\<close>, \<open>Go_Time\<close>: what the code uses of the standard
      library on strings (UTF-8 decoding and its errors, \<open>TrimSpace\<close>, \<open>ReplaceAll\<close>, numbers),
      addresses and base64, RFC 2047 encoded words, durations.
    \<^item> \<open>Errors\<close> (\<open>notify/error.go\<close>): errors as a datatype, one constructor per error type of the
      program and its libraries, with \<open>errors.Is\<close>, \<open>errors.As\<close> and the messages. \<open>Error_Methods\<close>:
      the methods \<open>Error\<close> and \<open>Unwrap\<close> of the program's error types as written, nil receivers
      included, and that the messages and chains of \<open>Errors\<close> are what they give.
    \<^item> \<open>Types\<close> (\<open>notify/types.go\<close>), \<open>Retry_Policy\<close> (\<open>notify/retry_policy.go\<close>), \<open>Retry\<close>
      (\<open>notify/retry.go\<close>), \<open>Delivery\<close> (\<open>notify/delivery.go\<close>), \<open>Receivers\<close> (\<open>notify/receiver.go\<close>,
      \<open>notify/send.go\<close>; \<open>SendSync\<close> is \<open>notify.Send\<close>).
    \<^item> \<open>Store\<close> (\<open>notify/store.go\<close>), \<open>Dispatcher\<close> (\<open>notify/dispatcher.go\<close>), \<open>Manager\<close>
      (\<open>notify/manager.go\<close>): the manager's state is a record with its channels, mutex and
      flags and one program counter for each producer, worker, finisher and caller. \<open>mstep\<close> is
      one atomic action of one of them, so its sequences are the interleavings.
    \<^item> \<open>Header\<close> (\<open>internal/header\<close>), \<open>Templates\<close> (\<open>templates/templates.go\<close>, \<open>templates/html.go\<close>).
    \<^item> \<open>Webhook\<close> (\<open>targets/webhook/webhook.go\<close>).
    \<^item> \<open>Email\<close> and \<open>Email_Send\<close> (\<open>targets/email/email.go\<close>), \<open>Proxy\<close> (\<open>targets/email/proxy.go\<close>) over
      \<open>Network\<close>, where the connection is a conversation of commands and answers.
    \<^item> \<open>Mock_API\<close> and \<open>Example_Programs\<close> (\<open>examples/multiple\<close>, \<open>examples/single\<close>): the servers the
      programs start and their main functions.

  \<^bold>\<open>Interfaces.\<close> Every place where one part relies on another is a locale, and the part that
  provides it interprets it: \<open>bounded_channel\<close> (\<open>Go_Channel\<close>) and \<open>notification_store\<close> (\<open>Store\<close>), on
  which the manager's invariant rests; \<open>safe_policy\<close> (\<open>Retry_Policy\<close>), the contract of the
  built-in policies and their combinations with the retry loop; \<open>delivery_target\<close> (\<open>Target_Contract\<close>), the contract of
  the webhook and the email target with the retry loop; \<open>public_strings\<close> (\<open>Secrecy\<close>), a set of strings
  that may be shown, which targets, retry loop, engine and manager are clients of and which is
  provided by the texts the library writes; \<open>forward_simulation\<close> (\<open>Refinement\<close>), which
  the manager is an instance of with the queue it implements, and by which the invariant of the
  queue holds of the manager.

  \<^bold>\<open>Lemmas and properties.\<close>

    \<^item> \<open>Manager_Trans\<close> restates \<open>mstep\<close> as an inductive relation with one rule per branch;
      \<open>Manager_Invariant\<close> proves the invariant over it in six parts, \<open>Manager_Facts\<close> and
      \<open>Manager_Shutdown\<close> derive that nothing blocks or panics, a measure that every internal
      step decreases, and what a graceful shutdown delivers. \<open>Manager_Progress\<close>: what is done
      when a started manager has no internal step left. \<open>Manager_Refinement\<close>: the
      specification of the manager as a first-in first-out queue (\<open>queue_step\<close>), the
      abstraction \<open>queue_of\<close> and the simulation; the order of completions with one worker.
      \<open>Manager_Properties\<close> (C1 to C12) states the results, \<open>Manager_Examples\<close> has the runs they
      are applied to.
    \<^item> \<open>Retry_Record\<close>: the attempts of a run of the retry loop one by one, and how the run depends on
      them. \<open>Notify_Properties\<close> (C13 to C21): the retry loop against a reference on scripted
      answers, its bounds and results, permanent errors, backoff, the engine, routing, \<open>Send\<close>.
    \<^item> \<open>Webhook_Facts\<close> and \<open>Webhook_Properties\<close> (C22 to C26): what a send does and returns in each
      case, the request the client gets, on what the logs do not depend, \<open>Retry-After\<close>, response
      limits.
    \<^item> \<open>says m T\<close> of \<open>Network\<close> is the Hoare triple the proofs on email compose: whatever the peer
      answers, what is said and the result satisfy \<open>T\<close>. \<open>Smtp_Tls\<close>, \<open>Smtp_Accept\<close> and
      \<open>Email_Deadline\<close> have one triple for each function of \<open>Email_Send\<close> and \<open>Proxy\<close>: what is said
      only after TLS, what a success means, and which deadlines hold. \<open>Email_Facts\<close> reads the
      message back, \<open>Smtp_Facts\<close> has the cases of \<open>SendResult\<close> and the classification of
      errors, \<open>Email_Demo\<close> a server that accepts a mail. \<open>Email_Properties\<close> (C30 to C35) states
      the results.
    \<^item> \<open>Tunnel\<close>: the bytes of the connection behind the proxy, which is read through the buffer
      that has read the response. \<open>Proxy_Facts\<close>: the request and the TLS of the proxy.
    \<^item> \<open>Secrecy\<close>: the strings an error message and a log record show. \<open>Webhook_Secrets\<close>: those of a
      webhook target are texts of the library, durations and what the application has made
      public (names, status lines), so not the URL, the values of headers or the bodies.
      \<open>Send_Secrets\<close> and \<open>Manager_Secrets\<close> carry this through the retry loop, the engine and
      \<open>Send\<close>, and to the completions and the logs of the manager.
    \<^item> \<open>Target_Properties\<close> (C27 to C29, C36 to C39): targets under the retry loop, the secrets of a
      whole send and of a manager's completions, the proxy tunnel and its bytes, the templates.
    \<^item> \<open>Example_Facts\<close> and \<open>Example_Properties\<close> (C40): the programs from end to end, which is how
      templates, targets, routing, retries and policies fit together.

  \<^bold>\<open>Bounds and fuel.\<close> \<open>retry_loop\<close> takes as fuel the number of attempts left, which \<open>withRetry\<close> sets
  to \<open>max_attempts\<close>, the bound of the Go loop, so it never ends for lack of fuel. \<open>backoff_loop\<close>
  recurses on the number of retries already made. All other functions are total by structural
  recursion or a measure. The manager has no fuel: its runs are sequences of steps, and that a
  stopped manager ends is C6, that a running one completes what it accepted C7.

  \<^bold>\<open>Parameters.\<close> What is not in the repository is an argument: parsing and executing templates,
  the helper functions of \<open>tmplfuncs\<close> and the file systems (\<open>template_lib\<close>, \<open>fs\<close>), whose effect on the templates of the
  examples C40 assumes, as it does that the local network serves POST requests within the
  programs' timeout;
  \<open>http.NewRequest\<close>, \<open>json.Valid\<close>, \<open>http.ParseTime\<close> and the round trip of the HTTP client
  (\<open>http_lib\<close>), of which C28 and C29 ask that errors quoting the request are or wrap a
  \<open>*url.Error\<close>; \<open>mail.ParseAddress\<close>, \<open>http.ProxyFromEnvironment\<close> and the network
  (\<open>smtp_lib\<close>), which the properties instantiate with a peer that answers anything, at any
  speed; C32 alone asks that it ends an operation at its deadline. \<open>uuid.NewV7\<close> gives fresh IDs, a target is a function of the runtime, and the
  moment a context ends is arbitrary.

  \<^bold>\<open>Not modelled.\<close> The time reading a response body takes. Panics of templates, callbacks and targets of the application. TLS itself, and the
  minimum TLS version, which is a constant.
\<close>

end
